theory Spec2Isabelle
  imports Complex_Main "HOL-Library.Sublist" "HOL-Library.Signed_Division"
    "HOL-Library.Log_Nat"
begin

section \<open>Errors\<close>

text \<open>
  Every error value of the package \<open>auth\<close> is one constructor: the model keeps the
  place an error comes from, not its message text. \<open>url_error\<close> lists the errors of
  \<open>net/url\<close>.
\<close>

datatype url_error =
    InvalidControlCharacter     \<comment> \<open>\<open>net/url: invalid control character in URL\<close>\<close>
  | EmptyURL                    \<comment> \<open>\<open>empty url\<close>\<close>
  | MissingProtocolScheme       \<comment> \<open>\<open>missing protocol scheme\<close>\<close>
  | InvalidURIForRequest        \<comment> \<open>\<open>invalid URI for request\<close>\<close>
  | FirstPathSegmentColon       \<comment> \<open>\<open>first path segment in URL cannot contain colon\<close>\<close>
  | MissingBracket              \<comment> \<open>\<open>missing ']' in host\<close>\<close>
  | InvalidPort                 \<comment> \<open>\<open>invalid port %q after host\<close>\<close>
  | InvalidUserinfo             \<comment> \<open>\<open>net/url: invalid userinfo\<close>\<close>
  | EscapeError                 \<comment> \<open>\<open>invalid URL escape %q\<close>\<close>
  | InvalidHostError            \<comment> \<open>\<open>invalid character %q in host name\<close>\<close>

datatype error =
    ErrLoadIssuerCA string      \<comment> \<open>\<open>load issuer CA file %s: %v\<close>\<close>
  | ErrNoCAData string          \<comment> \<open>\<open>file %s contained no CA data\<close>\<close>
  | ErrURL url_error            \<comment> \<open>an error of \<open>url.Parse\<close>\<close>
  | ErrNoOriginOrReferer        \<comment> \<open>\<open>no Origin or Referer header in request\<close>\<close>
  | ErrInvalidOrigin string     \<comment> \<open>\<open>invalid Origin or Referer: %v expected `%v`\<close>\<close>
  | ErrDo string                \<comment> \<open>the error of \<open>k8sClient.Do\<close>, for the URL requested\<close>
  | ErrDiscoveryStatus string   \<comment> \<open>\<open>discovery through endpoint %s failed: %s\<close>\<close>
  | ErrDiscoveryDecode string   \<comment> \<open>\<open>discovery through endpoint %s failed to decode body: %v\<close>\<close>
  | ErrNotAbsolute string       \<comment> \<open>\<open>url is not absolute: %v\<close>\<close>
  | ErrIssuerRequest string     \<comment> \<open>\<open>request to OAuth issuer endpoint %s failed: %v\<close>\<close>
  | ErrNoAccessToken            \<comment> \<open>\<open>token response did not contain an access token %#v\<close>\<close>
  | ErrNoCookie                 \<comment> \<open>\<open>http.ErrNoCookie\<close>\<close>
  | ErrUnauthenticated string   \<comment> \<open>\<open>unauthenticated, no value for cookie %s\<close>\<close>
  | ErrOIDCNotInitialized       \<comment> \<open>\<open>OIDC auth source is not intialized\<close>\<close>
  | ErrExchange                 \<comment> \<open>the error of \<open>oauthConfig.Exchange\<close>\<close>
  | ErrOther nat                \<comment> \<open>an error of code that is not under src/\<close>

section \<open>The Go standard library, as far as the package uses it\<close>

text \<open>
  A Go \<open>string\<close> is a sequence of bytes, and so is a HOL \<open>string\<close>. The functions
  below follow the standard library of Go 1.18, the version the repository's README
  asks for.
\<close>

subsection \<open>Package \<open>strings\<close>\<close>

definition byte :: "char \<Rightarrow> nat" where
  "byte c = of_char c"

definition between :: "char \<Rightarrow> char \<Rightarrow> char \<Rightarrow> bool" where
  \<comment> \<open>\<open>lo <= c && c <= hi\<close> on bytes\<close>
  "between lo hi c = (byte lo \<le> byte c \<and> byte c \<le> byte hi)"

definition strings_HasPrefix :: "string \<Rightarrow> string \<Rightarrow> bool" where
  "strings_HasPrefix s pre = (length pre \<le> length s \<and> take (length pre) s = pre)"

definition strings_HasSuffix :: "string \<Rightarrow> string \<Rightarrow> bool" where
  "strings_HasSuffix s suf =
     (length suf \<le> length s \<and> drop (length s - length suf) s = suf)"

definition strings_TrimSuffix :: "string \<Rightarrow> string \<Rightarrow> string" where
  "strings_TrimSuffix s suf =
     (if strings_HasSuffix s suf then take (length s - length suf) s else s)"

text \<open>\<open>strings.Index\<close> and \<open>strings.LastIndex\<close>: \<open>None\<close> stands for the result -1.\<close>

fun strings_Index :: "string \<Rightarrow> string \<Rightarrow> nat option" where
  "strings_Index [] sep = (if sep = [] then Some 0 else None)"
| "strings_Index (c # s) sep =
     (if strings_HasPrefix (c # s) sep then Some 0
      else map_option Suc (strings_Index s sep))"

fun strings_LastIndex :: "string \<Rightarrow> string \<Rightarrow> nat option" where
  "strings_LastIndex [] sep = (if sep = [] then Some 0 else None)"
| "strings_LastIndex (c # s) sep =
     (case strings_LastIndex s sep of
        Some i \<Rightarrow> Some (Suc i)
      | None \<Rightarrow> if strings_HasPrefix (c # s) sep then Some 0 else None)"

definition strings_Contains :: "string \<Rightarrow> string \<Rightarrow> bool" where
  "strings_Contains s sub = (strings_Index s sub \<noteq> None)"

definition strings_Cut :: "string \<Rightarrow> string \<Rightarrow> string \<times> string \<times> bool" where
  "strings_Cut s sep =
     (case strings_Index s sep of
        Some i \<Rightarrow> (take i s, drop (i + length sep) s, True)
      | None \<Rightarrow> (s, [], False))"

definition strings_Count_byte :: "string \<Rightarrow> char \<Rightarrow> nat" where
  \<comment> \<open>\<open>strings.Count(s, sep)\<close> for a separator of one byte\<close>
  "strings_Count_byte s c = length (filter (\<lambda>x. x = c) s)"

definition lower_byte :: "char \<Rightarrow> char" where
  "lower_byte c = (if between CHR ''A'' CHR ''Z'' c then char_of (byte c + 32) else c)"

definition strings_ToLower :: "string \<Rightarrow> string" where
  \<comment> \<open>on ASCII text, which is all a URL scheme can hold\<close>
  "strings_ToLower s = map lower_byte s"

subsection \<open>Package \<open>net/url\<close>\<close>

datatype encoding =
    encodePath | encodePathSegment | encodeHost | encodeZone
  | encodeUserPassword | encodeQueryComponent | encodeFragment

record Userinfo =
  username :: string
  password :: string
  passwordSet :: bool

record url =
  Scheme :: string
  Opaque :: string
  User :: "Userinfo option"
  Host :: string
  Path :: string
  RawPath :: string
  ForceQuery :: bool
  RawQuery :: string
  Fragment :: string
  RawFragment :: string

definition url_zero :: url where
  \<comment> \<open>\<open>new(URL)\<close>\<close>
  "url_zero = \<lparr> Scheme = [], Opaque = [], User = None, Host = [], Path = [], RawPath = [],
                ForceQuery = False, RawQuery = [], Fragment = [], RawFragment = [] \<rparr>"

definition ishex :: "char \<Rightarrow> bool" where
  "ishex c = (between CHR ''0'' CHR ''9'' c \<or> between CHR ''a'' CHR ''f'' c
              \<or> between CHR ''A'' CHR ''F'' c)"

definition unhex :: "char \<Rightarrow> nat" where
  "unhex c =
     (if between CHR ''0'' CHR ''9'' c then byte c - byte CHR ''0''
      else if between CHR ''a'' CHR ''f'' c then byte c - byte CHR ''a'' + 10
      else if between CHR ''A'' CHR ''F'' c then byte c - byte CHR ''A'' + 10
      else 0)"

definition upperhex :: "nat \<Rightarrow> char" where
  "upperhex n = ''0123456789ABCDEF'' ! n"

definition shouldEscape :: "char \<Rightarrow> encoding \<Rightarrow> bool" where
  "shouldEscape c mode =
     (if between CHR ''a'' CHR ''z'' c \<or> between CHR ''A'' CHR ''Z'' c
         \<or> between CHR ''0'' CHR ''9'' c then False
      else if (mode = encodeHost \<or> mode = encodeZone) \<and> c \<in> set ''!$&'()*+,;=:[]<>\"''
        then False
      else if c \<in> set ''-_.~'' then False
      else if c \<in> set ''$&+,/:;=?@'' then
        (case mode of
           encodePath \<Rightarrow> c = CHR ''?''
         | encodePathSegment \<Rightarrow> c \<in> set ''/;,?''
         | encodeUserPassword \<Rightarrow> c \<in> set ''@/?:''
         | encodeQueryComponent \<Rightarrow> True
         | encodeFragment \<Rightarrow> False
         | _ \<Rightarrow> True)
      else if mode = encodeFragment \<and> c \<in> set ''!()*'' then False
      else True)"

text \<open>
  \<open>unescape\<close>: the first loop checks that every \<open>%\<close> starts a well-formed escape
  that the mode allows and that a host holds no byte that would need escaping; the
  second loop decodes.
\<close>

fun unescape_check :: "encoding \<Rightarrow> string \<Rightarrow> url_error option" where
  "unescape_check mode [] = None"
| "unescape_check mode (c # s) =
     (if c = CHR ''%'' then
        (case s of
           h1 # h2 # rest \<Rightarrow>
             (if \<not> ishex h1 \<or> \<not> ishex h2 then Some EscapeError
              else if mode = encodeHost \<and> unhex h1 < 8 \<and> [c, h1, h2] \<noteq> ''%25''
                then Some EscapeError
              else if mode = encodeZone \<and> [c, h1, h2] \<noteq> ''%25''
                      \<and> char_of (unhex h1 * 16 + unhex h2) \<noteq> CHR '' ''
                      \<and> shouldEscape (char_of (unhex h1 * 16 + unhex h2)) encodeHost
                then Some EscapeError
              else unescape_check mode rest)
         | _ \<Rightarrow> Some EscapeError)
      else if c = CHR ''+'' then unescape_check mode s
      else if (mode = encodeHost \<or> mode = encodeZone) \<and> byte c < 128
              \<and> shouldEscape c encodeHost
        then Some InvalidHostError
      else unescape_check mode s)"

fun unescape_decode :: "encoding \<Rightarrow> string \<Rightarrow> string" where
  "unescape_decode mode [] = []"
| "unescape_decode mode (c # s) =
     (if c = CHR ''%'' then
        (case s of
           h1 # h2 # rest \<Rightarrow> char_of (unhex h1 * 16 + unhex h2) # unescape_decode mode rest
         | _ \<Rightarrow> c # s)
      else if c = CHR ''+'' then
        (if mode = encodeQueryComponent then CHR '' '' else CHR ''+'') # unescape_decode mode s
      else c # unescape_decode mode s)"

definition unescape :: "string \<Rightarrow> encoding \<Rightarrow> url_error + string" where
  "unescape s mode =
     (case unescape_check mode s of
        Some e \<Rightarrow> Inl e
      | None \<Rightarrow> Inr (unescape_decode mode s))"

definition escape :: "string \<Rightarrow> encoding \<Rightarrow> string" where
  "escape s mode =
     concat (map (\<lambda>c.
       if shouldEscape c mode then
         (if c = CHR '' '' \<and> mode = encodeQueryComponent then ''+''
          else [CHR ''%'', upperhex (byte c div 16), upperhex (byte c mod 16)])
       else [c]) s)"

definition QueryEscape :: "string \<Rightarrow> string" where
  "QueryEscape s = escape s encodeQueryComponent"

definition validEncoded :: "string \<Rightarrow> encoding \<Rightarrow> bool" where
  "validEncoded s mode =
     list_all (\<lambda>c. c \<in> set ''!$&'()*+,;=:@[]%'' \<or> \<not> shouldEscape c mode) s"

definition stringContainsCTLByte :: "string \<Rightarrow> bool" where
  "stringContainsCTLByte s = list_ex (\<lambda>b. byte b < 32 \<or> byte b = 127) s"

text \<open>\<open>getScheme\<close>: the loop over the index \<open>i\<close>, with the bytes still to read.\<close>

fun getScheme_loop :: "string \<Rightarrow> nat \<Rightarrow> string \<Rightarrow> url_error + (string \<times> string)" where
  "getScheme_loop rawURL i [] = Inr ([], rawURL)"
| "getScheme_loop rawURL i (c # cs) =
     (if between CHR ''a'' CHR ''z'' c \<or> between CHR ''A'' CHR ''Z'' c
        then getScheme_loop rawURL (Suc i) cs
      else if between CHR ''0'' CHR ''9'' c \<or> c \<in> set ''+-.''
        then (if i = 0 then Inr ([], rawURL) else getScheme_loop rawURL (Suc i) cs)
      else if c = CHR '':''
        then (if i = 0 then Inl MissingProtocolScheme
              else Inr (take i rawURL, drop (Suc i) rawURL))
      else Inr ([], rawURL))"

definition getScheme :: "string \<Rightarrow> url_error + (string \<times> string)" where
  "getScheme rawURL = getScheme_loop rawURL 0 rawURL"

definition validOptionalPort :: "string \<Rightarrow> bool" where
  "validOptionalPort port =
     (case port of
        [] \<Rightarrow> True
      | c # ds \<Rightarrow> c = CHR '':'' \<and> list_all (between CHR ''0'' CHR ''9'') ds)"

definition validUserinfo :: "string \<Rightarrow> bool" where
  "validUserinfo s =
     list_all (\<lambda>r. between CHR ''A'' CHR ''Z'' r \<or> between CHR ''a'' CHR ''z'' r
                \<or> between CHR ''0'' CHR ''9'' r \<or> r \<in> set ''-._:~!$&'()*+,;=%@'') s"

definition parseHost :: "string \<Rightarrow> url_error + string" where
  "parseHost host =
     (if strings_HasPrefix host ''['' then
        (case strings_LastIndex host '']'' of
           None \<Rightarrow> Inl MissingBracket
         | Some i \<Rightarrow>
             if \<not> validOptionalPort (drop (Suc i) host) then Inl InvalidPort
             else
               (case strings_Index (take i host) ''%25'' of
                  Some zone \<Rightarrow>
                    (case unescape (take zone host) encodeHost of
                       Inl e \<Rightarrow> Inl e
                     | Inr host1 \<Rightarrow>
                         (case unescape (drop zone (take i host)) encodeZone of
                            Inl e \<Rightarrow> Inl e
                          | Inr host2 \<Rightarrow>
                              (case unescape (drop i host) encodeHost of
                                 Inl e \<Rightarrow> Inl e
                               | Inr host3 \<Rightarrow> Inr (host1 @ host2 @ host3))))
                | None \<Rightarrow> unescape host encodeHost))
      else
        (case strings_LastIndex host '':'' of
           Some i \<Rightarrow>
             if \<not> validOptionalPort (drop i host) then Inl InvalidPort
             else unescape host encodeHost
         | None \<Rightarrow> unescape host encodeHost))"

definition parseAuthority :: "string \<Rightarrow> url_error + (Userinfo option \<times> string)" where
  "parseAuthority authority =
     (case strings_LastIndex authority ''@'' of
        None \<Rightarrow>
          (case parseHost authority of
             Inl e \<Rightarrow> Inl e
           | Inr host \<Rightarrow> Inr (None, host))
      | Some i \<Rightarrow>
          (case parseHost (drop (Suc i) authority) of
             Inl e \<Rightarrow> Inl e
           | Inr host \<Rightarrow>
               (let userinfo = take i authority in
                if \<not> validUserinfo userinfo then Inl InvalidUserinfo
                else if \<not> strings_Contains userinfo '':'' then
                  (case unescape userinfo encodeUserPassword of
                     Inl e \<Rightarrow> Inl e
                   | Inr u \<Rightarrow>
                       Inr (Some \<lparr> username = u, password = [], passwordSet = False \<rparr>, host))
                else
                  (let (username0, password0, _) = strings_Cut userinfo '':'' in
                   case unescape username0 encodeUserPassword of
                     Inl e \<Rightarrow> Inl e
                   | Inr u \<Rightarrow>
                       (case unescape password0 encodeUserPassword of
                          Inl e \<Rightarrow> Inl e
                        | Inr p \<Rightarrow>
                            Inr (Some \<lparr> username = u, password = p, passwordSet = True \<rparr>,
                                 host))))))"

definition setPath :: "url \<Rightarrow> string \<Rightarrow> url_error + url" where
  "setPath u p =
     (case unescape p encodePath of
        Inl e \<Rightarrow> Inl e
      | Inr path \<Rightarrow>
          Inr (u\<lparr> Path := path,
                  RawPath := (if p = escape path encodePath then [] else p) \<rparr>))"

definition setFragment :: "url \<Rightarrow> string \<Rightarrow> url_error + url" where
  "setFragment u f =
     (case unescape f encodeFragment of
        Inl e \<Rightarrow> Inl e
      | Inr frag \<Rightarrow>
          Inr (u\<lparr> Fragment := frag,
                  RawFragment := (if f = escape frag encodeFragment then [] else f) \<rparr>))"

text \<open>The unexported \<open>parse(rawURL, viaRequest)\<close>.\<close>

definition parse :: "string \<Rightarrow> bool \<Rightarrow> url_error + url" where
  "parse rawURL viaRequest =
     (if stringContainsCTLByte rawURL then Inl InvalidControlCharacter
      else if rawURL = [] \<and> viaRequest then Inl EmptyURL
      else if rawURL = ''*'' then Inr (url_zero\<lparr> Path := ''*'' \<rparr>)
      else
        (case getScheme rawURL of
           Inl e \<Rightarrow> Inl e
         | Inr (scheme, rest0) \<Rightarrow>
             (let u0 = url_zero\<lparr> Scheme := strings_ToLower scheme \<rparr>;
                  (u, rest) =
                    (if strings_HasSuffix rest0 ''?'' \<and> strings_Count_byte rest0 CHR ''?'' = 1
                     then (u0\<lparr> ForceQuery := True \<rparr>, take (length rest0 - 1) rest0)
                     else (let (r, q, _) = strings_Cut rest0 ''?'' in (u0\<lparr> RawQuery := q \<rparr>, r)))
              in
              if \<not> strings_HasPrefix rest ''/'' \<and> Scheme u \<noteq> [] then Inr (u\<lparr> Opaque := rest \<rparr>)
              else if \<not> strings_HasPrefix rest ''/'' \<and> viaRequest then Inl InvalidURIForRequest
              else if \<not> strings_HasPrefix rest ''/''
                      \<and> strings_Contains (fst (strings_Cut rest ''/'')) '':''
                then Inl FirstPathSegmentColon
              else if (Scheme u \<noteq> [] \<or> (\<not> viaRequest \<and> \<not> strings_HasPrefix rest ''///''))
                      \<and> strings_HasPrefix rest ''//''
                then
                  (let authority0 = drop 2 rest;
                       (authority, rest') =
                         (case strings_Index authority0 ''/'' of
                            Some i \<Rightarrow> (take i authority0, drop i authority0)
                          | None \<Rightarrow> (authority0, []))
                   in case parseAuthority authority of
                        Inl e \<Rightarrow> Inl e
                      | Inr (user, host) \<Rightarrow> setPath (u\<lparr> User := user, Host := host \<rparr>) rest')
              else setPath u rest)))"

definition url_Parse :: "string \<Rightarrow> error + url" where
  "url_Parse rawURL =
     (let (u, frag, _) = strings_Cut rawURL ''#'' in
      case parse u False of
        Inl e \<Rightarrow> Inl (ErrURL e)
      | Inr url \<Rightarrow>
          if frag = [] then Inr url
          else (case setFragment url frag of
                  Inl e \<Rightarrow> Inl (ErrURL e)
                | Inr url' \<Rightarrow> Inr url'))"

definition splitHostPort :: "string \<Rightarrow> string \<times> string" where
  "splitHostPort hostPort =
     (let (host, port) =
            (case strings_LastIndex hostPort '':'' of
               Some colon \<Rightarrow>
                 if validOptionalPort (drop colon hostPort)
                 then (take colon hostPort, drop (Suc colon) hostPort)
                 else (hostPort, [])
             | None \<Rightarrow> (hostPort, []))
      in if strings_HasPrefix host ''['' \<and> strings_HasSuffix host '']''
         then (take (length host - 2) (drop 1 host), port)
         else (host, port))"

definition Hostname :: "url \<Rightarrow> string" where
  "Hostname u = fst (splitHostPort (Host u))"

definition Port :: "url \<Rightarrow> string" where
  "Port u = snd (splitHostPort (Host u))"

definition Userinfo_String :: "Userinfo \<Rightarrow> string" where
  "Userinfo_String ui =
     escape (username ui) encodeUserPassword
     @ (if passwordSet ui then '':'' @ escape (password ui) encodeUserPassword else [])"

definition EscapedPath :: "url \<Rightarrow> string" where
  "EscapedPath u =
     (if RawPath u \<noteq> [] \<and> validEncoded (RawPath u) encodePath
         \<and> unescape (RawPath u) encodePath = Inr (Path u)
      then RawPath u
      else if Path u = ''*'' then ''*''
      else escape (Path u) encodePath)"

definition EscapedFragment :: "url \<Rightarrow> string" where
  "EscapedFragment u =
     (if RawFragment u \<noteq> [] \<and> validEncoded (RawFragment u) encodeFragment
         \<and> unescape (RawFragment u) encodeFragment = Inr (Fragment u)
      then RawFragment u
      else escape (Fragment u) encodeFragment)"

definition URL_String :: "url \<Rightarrow> string" where
  "URL_String u =
     (let buf0 = (if Scheme u \<noteq> [] then Scheme u @ '':'' else []);
          buf1 =
            (if Opaque u \<noteq> [] then buf0 @ Opaque u
             else
               (let b1 =
                      (if Scheme u \<noteq> [] \<or> Host u \<noteq> [] \<or> User u \<noteq> None then
                         buf0
                         @ (if Host u \<noteq> [] \<or> Path u \<noteq> [] \<or> User u \<noteq> None then ''//'' else [])
                         @ (case User u of None \<Rightarrow> [] | Some ui \<Rightarrow> Userinfo_String ui @ ''@'')
                         @ (if Host u \<noteq> [] then escape (Host u) encodeHost else [])
                       else buf0);
                    path = EscapedPath u;
                    b2 = (if path \<noteq> [] \<and> hd path \<noteq> CHR ''/'' \<and> Host u \<noteq> [] then b1 @ ''/''
                          else b1);
                    b3 = (if b2 = [] \<and> strings_Contains (fst (strings_Cut path ''/'')) '':''
                          then ''./'' else b2)
                in b3 @ path));
          buf2 = (if ForceQuery u \<or> RawQuery u \<noteq> [] then buf1 @ ''?'' @ RawQuery u else buf1)
      in if Fragment u \<noteq> [] then buf2 @ ''#'' @ EscapedFragment u else buf2)"

text \<open>
  \<open>url.Values.Encode\<close> writes the keys in sorted order; the model takes the pairs
  already in that order.
\<close>

definition Values_Encode :: "(string \<times> string) list \<Rightarrow> string" where
  "Values_Encode kvs =
     (case map (\<lambda>(k, v). QueryEscape k @ ''='' @ QueryEscape v) kvs of
        [] \<Rightarrow> []
      | x # xs \<Rightarrow> x @ concat (map (\<lambda>y. ''&'' @ y) xs))"

subsection \<open>The type \<open>float64\<close>\<close>

text \<open>
  A finite \<open>float64\<close> is the rational number it stands for. An operation of Go on
  \<open>float64\<close> values is the exact operation followed by the rounding of IEEE 754
  binary64, to the nearest representable number, a tie to the one with the even
  significand: \<open>float64_round\<close>. The representable numbers next to \<open>x\<close> are the
  multiples of \<open>2 ^ e\<close>, where \<open>e\<close> is the exponent of \<open>x\<close> (\<open>floor_log2\<close>) less the 52
  fraction bits of the significand, and at least -1074 (the subnormal numbers).
  Overflow to an infinity is not part of the model: the numbers rounded here are
  below \<open>2 ^ 63\<close>.
\<close>

type_synonym float64 = rat

definition floor_log2 :: "rat \<Rightarrow> int" where
  \<comment> \<open>for \<open>0 < x\<close>: the \<open>k\<close> with \<open>2 ^ k \<le> x < 2 ^ (k + 1)\<close>\<close>
  "floor_log2 x =
     (let (p, q) = quotient_of x;
          k = bitlen p - bitlen q
      in if power_int 2 k \<le> x then k else k - 1)"

definition round_half_even :: "rat \<Rightarrow> int" where
  "round_half_even y =
     (let n = \<lfloor>y\<rfloor>;
          f = y - of_int n
      in if f < 1 / 2 then n
         else if 1 / 2 < f then n + 1
         else if even n then n else n + 1)"

definition float64_exponent :: "rat \<Rightarrow> int" where
  "float64_exponent x = max (floor_log2 \<bar>x\<bar> - 52) (- 1074)"

definition float64_round :: "rat \<Rightarrow> float64" where
  "float64_round x =
     (if x = 0 then 0
      else
        (let e = float64_exponent x
         in sgn x * of_int (round_half_even (\<bar>x\<bar> / power_int 2 e)) * power_int 2 e))"

definition float64_of_int :: "int \<Rightarrow> float64" where
  \<comment> \<open>the conversion \<open>float64(n)\<close>\<close>
  "float64_of_int n = float64_round (of_int n)"

definition float64_add :: "float64 \<Rightarrow> float64 \<Rightarrow> float64" where
  "float64_add a b = float64_round (a + b)"

definition float64_div :: "float64 \<Rightarrow> float64 \<Rightarrow> float64" where
  "float64_div a b = float64_round (a / b)"

definition go_int :: "float64 \<Rightarrow> int" where
  \<comment> \<open>the conversion \<open>int(x)\<close>, which drops the fraction\<close>
  "go_int x = (if 0 \<le> x then \<lfloor>x\<rfloor> else \<lceil>x\<rceil>)"

subsection \<open>Package \<open>time\<close>\<close>

text \<open>
  A \<open>time.Time\<close> is an instant, counted in nanoseconds from Go's zero time (the value
  \<open>IsZero\<close> recognises); a \<open>time.Duration\<close> is a number of nanoseconds in the range of
  \<open>int64\<close>, and \<open>Sub\<close> saturates at the ends of that range. \<open>Seconds\<close> is
  \<open>float64(sec) + float64(nsec)/1e9\<close> for \<open>sec := d / Second\<close> and
  \<open>nsec := d % Second\<close>, where \<open>/\<close> and \<open>%\<close> of Go truncate towards zero.
\<close>

type_synonym Time = int
type_synonym Duration = int

definition minDuration :: Duration where
  "minDuration = - (2 ^ 63)"

definition maxDuration :: Duration where
  "maxDuration = 2 ^ 63 - 1"

definition Second :: Duration where
  "Second = 1000000000"

definition Hour :: Duration where
  "Hour = 3600 * Second"

definition IsZero :: "Time \<Rightarrow> bool" where
  "IsZero t = (t = 0)"

definition Time_Sub :: "Time \<Rightarrow> Time \<Rightarrow> Duration" where
  "Time_Sub t u =
     (if t - u < minDuration then minDuration
      else if t - u > maxDuration then maxDuration
      else t - u)"

definition Seconds :: "Duration \<Rightarrow> float64" where
  "Seconds d =
     (let sec = d sdiv Second;
          nsec = d smod Second
      in float64_add (float64_of_int sec) (float64_div (float64_of_int nsec) 1000000000))"

subsection \<open>Package \<open>net/http\<close>\<close>

datatype SameSite =
    SameSiteUnset           \<comment> \<open>the zero value\<close>
  | SameSiteDefaultMode
  | SameSiteLaxMode
  | SameSiteStrictMode
  | SameSiteNoneMode

record Cookie =
  Name :: string
  Value :: string
  Cookie_Path :: string
  Cookie_Domain :: string
  MaxAge :: int
  Secure :: bool
  HttpOnly :: bool
  Cookie_SameSite :: SameSite

definition Cookie_zero :: Cookie where
  "Cookie_zero = \<lparr> Name = [], Value = [], Cookie_Path = [], Cookie_Domain = [], MaxAge = 0,
                   Secure = False, HttpOnly = False, Cookie_SameSite = SameSiteUnset \<rparr>"

text \<open>
  What \<open>http.SetCookie\<close> writes for \<open>MaxAge\<close> into the \<open>Set-Cookie\<close> header
  (\<open>Cookie.String\<close>): \<open>Max-Age=n\<close> for a positive \<open>MaxAge\<close> \<open>n\<close>, \<open>Max-Age=0\<close> for a
  negative one, and no \<open>Max-Age\<close> attribute for \<open>MaxAge\<close> zero. The cookies of this
  package leave \<open>Expires\<close> at its zero value, for which no \<open>Expires\<close> attribute is
  written.
\<close>

definition Cookie_MaxAge_attribute :: "Cookie \<Rightarrow> int option" where
  "Cookie_MaxAge_attribute c =
     (if MaxAge c > 0 then Some (MaxAge c)
      else if MaxAge c < 0 then Some 0
      else None)"

text \<open>
  Modelled from the spec: the type \<open>loginState\<close> is declared in a file that is not
  under src/. The spec gives it the raw bearer token and the identity claims name and
  email; \<open>login\<close> of the OpenShift variant fills in \<open>rawToken\<close> only.
\<close>

record loginState =
  rawToken :: string
  ls_name :: string
  ls_email :: string

definition loginState_zero :: loginState where
  "loginState_zero = \<lparr> rawToken = [], ls_name = [], ls_email = [] \<rparr>"

text \<open>
  A request, as far as the handlers read it: the parsed query of its URL
  (\<open>r.URL.Query()\<close>), its cookies (\<open>r.Cookie\<close>) and its header fields
  (\<open>r.Header.Get\<close>), each in the order sent.
\<close>

record Request =
  query :: "(string \<times> string) list"
  cookies :: "(string \<times> string) list"
  header :: "(string \<times> string) list"

definition Query_Get :: "Request \<Rightarrow> string \<Rightarrow> string" where
  \<comment> \<open>\<open>url.Values.Get\<close>: the first value of the key, or the empty string\<close>
  "Query_Get r k = (case map_of (query r) k of None \<Rightarrow> [] | Some v \<Rightarrow> v)"

definition Header_Get :: "Request \<Rightarrow> string \<Rightarrow> string" where
  "Header_Get r k = (case map_of (header r) k of None \<Rightarrow> [] | Some v \<Rightarrow> v)"

definition Referer :: "Request \<Rightarrow> string" where
  "Referer r = Header_Get r ''Referer''"

definition Request_Cookie :: "Request \<Rightarrow> string \<Rightarrow> error + Cookie" where
  \<comment> \<open>\<open>r.Cookie(name)\<close>: the first cookie of that name, or \<open>ErrNoCookie\<close>\<close>
  "Request_Cookie r n =
     (case map_of (cookies r) n of
        None \<Rightarrow> Inl ErrNoCookie
      | Some v \<Rightarrow> Inr (Cookie_zero\<lparr> Name := n, Value := v \<rparr>))"

text \<open>
  A \<open>http.ResponseWriter\<close> is the list of what has been done to it, in order: a cookie
  handed to \<open>http.SetCookie\<close>, a header field set, \<open>WriteHeader\<close> with a status,
  \<open>http.Redirect\<close> to a target with a status, and the call of the continuation that
  \<open>CallbackFunc\<close> was given (with the login state whose \<open>toLoginJSON()\<close> it receives,
  and the success URL).
\<close>

datatype w_event =
    SetCookie Cookie
  | Header_Set string string
  | WriteHeader nat
  | Redirect string nat
  | Continuation loginState string

type_synonym ResponseWriter = "w_event list"

definition StatusSeeOther :: nat where
  "StatusSeeOther = 303"

definition StatusNoContent :: nat where
  "StatusNoContent = 204"

definition http_SetCookie :: "ResponseWriter \<Rightarrow> Cookie \<Rightarrow> ResponseWriter" where
  "http_SetCookie w cookie = w @ [SetCookie cookie]"

definition http_Redirect :: "ResponseWriter \<Rightarrow> Request \<Rightarrow> string \<Rightarrow> nat \<Rightarrow> ResponseWriter" where
  "http_Redirect w r target code = w @ [Redirect target code]"

definition http_NewRequest :: "string \<Rightarrow> string \<Rightarrow> error + (string \<times> string)" where
  \<comment> \<open>with the methods GET and HEAD, \<open>http.NewRequest\<close> fails when the URL does not parse\<close>
  "http_NewRequest method u =
     (case url_Parse u of Inl err \<Rightarrow> Inl err | Inr _ \<Rightarrow> Inr (method, u))"

text \<open>
  The response to the discovery request: its status, and the metadata
  \<open>json.NewDecoder(resp.Body).Decode\<close> reads from its body (\<open>None\<close> when decoding fails;
  a field the body lacks is the empty string).
\<close>

record metadata =
  md_Issuer :: string
  md_Auth :: string
  md_Token :: string

record http_Response =
  StatusCode :: int
  decoded :: "metadata option"

subsection \<open>Package \<open>oauth2\<close>\<close>

record Token =
  AccessToken :: string
  Expiry :: Time

record Endpoint =
  AuthURL :: string
  TokenURL :: string

definition Endpoint_zero :: Endpoint where
  "Endpoint_zero = \<lparr> AuthURL = [], TokenURL = [] \<rparr>"

record oauth2_Config =
  oauth2_ClientID :: string
  oauth2_ClientSecret :: string
  oauth2_RedirectURL :: string
  oauth2_Scopes :: "string list"
  oauth2_Endpoint :: Endpoint

section \<open>The data of the package \<open>auth\<close>\<close>

text \<open>
  A value of type \<open>*http.Client\<close> is a pointer: \<open>http.DefaultClient\<close>, or the address
  of a client allocated by \<open>newHTTPClient\<close>. Two pointers are the identical instance
  exactly when they are equal.
\<close>

datatype client = DefaultClient | ClientPtr nat

text \<open>
  The certificate pool a client is built on: whether it started from the system pool
  (\<open>x509.SystemCertPool()\<close>) or empty (\<open>x509.NewCertPool()\<close>), and the PEM data appended.
\<close>

record CertPool =
  from_system :: bool
  appended_pem :: string

record http_Client =
  RootCAs :: CertPool
  Timeout_seconds :: nat

record SpecialAuthURLs =
  RequestToken :: string
  KubeAdminLogout :: string

record User =
  ID :: string
  Username :: string
  Token :: string

text \<open>\<open>AuthSource\<close> is an \<open>int\<close>; every value but 1 selects the OIDC login support.\<close>

type_synonym AuthSource = int

definition AuthSourceTectonic :: AuthSource where
  "AuthSourceTectonic = 0"

definition AuthSourceOpenShift :: AuthSource where
  "AuthSourceOpenShift = 1"

record Config =
  AuthSource :: AuthSource
  IssuerURL :: string
  IssuerCA :: string
  RedirectURL :: string
  ClientID :: string
  ClientSecret :: string
  Scope :: "string list"
  K8sCA :: string
  SuccessURL :: string
  ErrorURL :: string
  RefererPath :: string
  CookiePath :: string
  SecureCookies :: bool
  ClusterName :: string
  CookieDomain :: string

record openShiftAuth =
  o_cookiePath :: string
  o_secureCookies :: bool
  o_specialURLs :: SpecialAuthURLs
  o_clusterName :: string
  o_cookieDomain :: string

record openShiftConfig =
  k8sClient :: client
  oauthClient :: client
  issuerURL :: string
  oc_cookiePath :: string
  oc_secureCookies :: bool
  oc_clusterName :: string
  oc_cookieDomain :: string

text \<open>
  The OIDC login support (\<open>newOIDCAuth\<close>, the type \<open>oidcAuth\<close> and its methods) is in a
  file that is not under src/. The model keeps what \<open>NewAuthenticator\<close> hands to it and
  gets from it: the \<open>oidcConfig\<close> literal, and a pointer to the \<open>oidcAuth\<close> (an address,
  \<open>None\<close> for nil).
\<close>

record oidcConfig =
  oidc_client :: client
  oidc_issuerURL :: string
  oidc_clientID :: string
  oidc_cookiePath :: string
  oidc_secureCookies :: bool
  oidc_cookieDomain :: string

text \<open>A value of the interface \<open>loginMethod\<close>: one of its two implementations.\<close>

datatype loginMethod = OpenShiftLM openShiftAuth | OIDCLM "nat option"

text \<open>
  The closures of \<open>NewAuthenticator\<close>, by what they capture. \<open>authSourceFunc\<close> of the
  OpenShift case runs the discovery at every call; the one of the default case returns
  the \<open>endpoint\<close>, \<open>oidcAuthSource\<close> and \<open>err\<close> that \<open>newOIDCAuth\<close> returned once.
  \<open>userFunc\<close> is \<open>getOpenShiftUser\<close>, or the closure over \<open>oidcAuthSource\<close>.
\<close>

datatype authSourceFunc = OpenShiftSource | OIDCSource Endpoint "nat option" "error option"

datatype userFunc = UserFunc_OpenShift | UserFunc_OIDC "nat option"

text \<open>
  The \<open>Authenticator\<close> as \<open>newUnstartedAuthenticator\<close> returns it: \<open>clientFunc\<close> is the
  closure over the \<open>*Config\<close> (\<open>conf\<close>) and \<open>fallbackClient\<close>; \<open>authFunc\<close> and
  \<open>userFunc\<close> are still nil. \<open>NewAuthenticator\<close> sets both before it returns: the second
  record is the \<open>Authenticator\<close> it returns, with \<open>authFunc\<close> as the closure over
  \<open>authSourceFunc\<close>, \<open>fallbackEndpoint\<close> and \<open>fallbackLoginMethod\<close>.
\<close>

record unstarted =
  conf :: Config
  fallbackClient :: client
  errorURL :: string
  successURL :: string
  cookiePath :: string
  refererURL :: url
  secureCookies :: bool
  cookieDomain :: string

record Authenticator = unstarted +
  userFunc :: userFunc
  authSource :: authSourceFunc
  fallbackEndpoint :: Endpoint
  fallbackLoginMethod :: loginMethod

section \<open>The outside world and the state of the process\<close>

text \<open>
  What one operation reads from outside the process: the file system
  (\<open>ioutil.ReadFile\<close>, \<open>None\<close> when the read fails), whether \<open>x509.SystemCertPool()\<close>
  fails, whether \<open>AppendCertsFromPEM\<close> finds a certificate in the data, the answer to
  an HTTP request sent through a client (\<open>Do\<close>, by method and URL; \<open>None\<close> when the
  request fails), the token that the token endpoint answers with when
  \<open>oauthConfig.Exchange\<close> sends it the code (\<open>None\<close> when the request fails or the
  answer is an error) and the clock (\<open>time.Now()\<close>).

  The functions of this repository that the two files call and whose source is not
  under src/ are parameters too: \<open>GetCookieName\<close>, \<open>serverutils.GetCluster\<close>,
  \<open>newOIDCAuth\<close> (which returns an endpoint, a pointer and an error) and the methods
  \<open>login\<close> and \<open>authenticate\<close> of \<open>oidcAuth\<close>.
\<close>

record env =
  ReadFile :: "string \<Rightarrow> string option"
  SystemCertPool_fails :: bool
  AppendCertsFromPEM :: "string \<Rightarrow> bool"
  Do :: "client \<Rightarrow> string \<Rightarrow> string \<Rightarrow> http_Response option"
  Exchange :: "oauth2_Config \<Rightarrow> client \<Rightarrow> string \<Rightarrow> Token option"
  Now :: Time
  GetCookieName :: "string \<Rightarrow> string"
  GetCluster :: "Request \<Rightarrow> string"
  newOIDCAuth :: "oidcConfig \<Rightarrow> Endpoint \<times> nat option \<times> error option"
  oidc_login :: "nat option \<Rightarrow> ResponseWriter \<Rightarrow> Token \<Rightarrow> (error + loginState) \<times> ResponseWriter"
  oidc_authenticate :: "nat \<Rightarrow> Request \<Rightarrow> error + User"

text \<open>
  What the process did to the outside, in order: a discovery (a call of
  \<open>authSourceFunc\<close>), a \<open>time.Sleep\<close> (in seconds), and a token exchange for an
  authorization code.
\<close>

datatype event = Discover | Sleep nat | TokenExchange string

text \<open>
  The process-wide mutable state: the two \<open>sync.Map\<close> caches (key: the CA file's bytes),
  the heap of allocated clients and the heap of allocated \<open>oauth2.Config\<close> values, each
  with its allocation counter, and the trace of events.
\<close>

record state =
  httpClientCache :: "string \<rightharpoonup> client"
  httpClientCacheSystemRoots :: "string \<rightharpoonup> client"
  clients :: "nat \<rightharpoonup> http_Client"
  next_client :: nat
  oauth2_configs :: "nat \<rightharpoonup> oauth2_Config"
  next_oauth2_config :: nat
  trace :: "event list"

definition state_init :: state where
  "state_init = \<lparr> httpClientCache = Map.empty, httpClientCacheSystemRoots = Map.empty,
                  clients = Map.empty, next_client = 0,
                  oauth2_configs = Map.empty, next_oauth2_config = 0, trace = [] \<rparr>"

section \<open>The HTTP client cache (auth.go, \<open>newHTTPClient\<close>)\<close>

definition new_client :: "CertPool \<Rightarrow> state \<Rightarrow> client \<times> state" where
  \<comment> \<open>\<open>&http.Client{...}\<close> with \<open>Timeout: time.Second * 5\<close>: a fresh address.\<close>
  "new_client pool s =
     (ClientPtr (next_client s),
      s\<lparr> clients := (clients s)(next_client s \<mapsto> \<lparr> RootCAs = pool, Timeout_seconds = 5 \<rparr>),
         next_client := Suc (next_client s) \<rparr>)"

definition newHTTPClient :: "env \<Rightarrow> string \<Rightarrow> bool \<Rightarrow> state \<Rightarrow> (error + client) \<times> state" where
  "newHTTPClient e issuerCA includeSystemRoots s =
     (if issuerCA = [] then (Inr DefaultClient, s)
      else case ReadFile e issuerCA of
        None \<Rightarrow> (Inl (ErrLoadIssuerCA issuerCA), s)
      | Some data \<Rightarrow>
          (let caKey = data in
           if includeSystemRoots then
             (case httpClientCacheSystemRoots s caKey of
                Some httpClient \<Rightarrow> (Inr httpClient, s)
              | None \<Rightarrow>
                  (let certPool = \<lparr> from_system = \<not> SystemCertPool_fails e, appended_pem = [] \<rparr> in
                   if \<not> AppendCertsFromPEM e data then (Inl (ErrNoCAData issuerCA), s)
                   else
                     (let (httpClient, s1) = new_client (certPool\<lparr> appended_pem := data \<rparr>) s in
                      (Inr httpClient,
                       s1\<lparr> httpClientCacheSystemRoots :=
                             (httpClientCacheSystemRoots s1)(caKey \<mapsto> httpClient) \<rparr>))))
           else
             (case httpClientCache s caKey of
                Some httpClient \<Rightarrow> (Inr httpClient, s)
              | None \<Rightarrow>
                  (let certPool = \<lparr> from_system = False, appended_pem = [] \<rparr> in
                   if \<not> AppendCertsFromPEM e data then (Inl (ErrNoCAData issuerCA), s)
                   else
                     (let (httpClient, s1) = new_client (certPool\<lparr> appended_pem := data \<rparr>) s in
                      (Inr httpClient,
                       s1\<lparr> httpClientCache := (httpClientCache s1)(caKey \<mapsto> httpClient) \<rparr>))))))"

text \<open>The cache \<open>newHTTPClient\<close> consults for a given \<open>includeSystemRoots\<close>.\<close>

definition cache_of :: "bool \<Rightarrow> state \<Rightarrow> (string \<rightharpoonup> client)" where
  "cache_of includeSystemRoots s =
     (if includeSystemRoots then httpClientCacheSystemRoots s else httpClientCache s)"

text \<open>
  A history of calls of \<open>newHTTPClient\<close>, each with the outside world as it was at the
  call, run one after the other on the state.
\<close>

type_synonym call = "env \<times> string \<times> bool"

fun run_calls :: "call list \<Rightarrow> state \<Rightarrow> state" where
  "run_calls [] s = s"
| "run_calls ((e, issuerCA, b) # cs) s = run_calls cs (snd (newHTTPClient e issuerCA b s))"

text \<open>
  \<open>succeeded_with cs s b k c\<close>: in the history \<open>cs\<close> run from \<open>s\<close>, some call in mode \<open>b\<close>
  read the CA bytes \<open>k\<close> from a file and returned the client \<open>c\<close> without error.
\<close>

fun succeeded_with :: "call list \<Rightarrow> state \<Rightarrow> bool \<Rightarrow> string \<Rightarrow> client \<Rightarrow> bool" where
  "succeeded_with [] s b k c = False"
| "succeeded_with ((e, issuerCA, b') # cs) s b k c =
     ((b' = b \<and> issuerCA \<noteq> [] \<and> ReadFile e issuerCA = Some k
         \<and> fst (newHTTPClient e issuerCA b' s) = Inr c)
      \<or> succeeded_with cs (snd (newHTTPClient e issuerCA b' s)) b k c)"

text \<open>The client behind a pointer was built by appending the PEM data \<open>k\<close>.\<close>

definition built_from :: "state \<Rightarrow> client \<Rightarrow> string \<Rightarrow> bool" where
  "built_from s c k =
     (case c of
        DefaultClient \<Rightarrow> False
      | ClientPtr p \<Rightarrow>
          (case clients s p of
             None \<Rightarrow> False
           | Some cl \<Rightarrow> appended_pem (RootCAs cl) = k \<and> Timeout_seconds cl = 5))"

section \<open>The OpenShift login method (auth\_openshift.go)\<close>

definition validateAbsURL :: "string \<Rightarrow> error option" where
  \<comment> \<open>\<open>None\<close> is the result \<open>nil\<close>\<close>
  "validateAbsURL v =
     (case url_Parse v of
        Inl err \<Rightarrow> Some err
      | Inr ur \<Rightarrow>
          if URL_String ur = [] \<or> Scheme ur = [] \<or> Host ur = []
          then Some (ErrNotAbsolute (URL_String ur))
          else None)"

text \<open>
  Modelled from the spec: \<open>proxy.SingleJoiningSlash\<close> is in a package that is not
  under src/. The spec has it join two parts of a URL (\<open>/request\<close> onto the token URL,
  \<open>/logout\<close> onto the issuer URL), with \<open>https://oauth.example/token\<close> and \<open>/request\<close>
  giving \<open>https://oauth.example/token/request\<close>: exactly one slash stands at the joint.
\<close>

definition SingleJoiningSlash :: "string \<Rightarrow> string \<Rightarrow> string" where
  "SingleJoiningSlash a b =
     (let aslash = strings_HasSuffix a ''/''; bslash = strings_HasPrefix b ''/'' in
      if aslash \<and> bslash then a @ drop 1 b
      else if \<not> aslash \<and> \<not> bslash then a @ ''/'' @ b
      else a @ b)"

definition newOpenShiftAuth :: "env \<Rightarrow> openShiftConfig \<Rightarrow> error + (Endpoint \<times> openShiftAuth)" where
  "newOpenShiftAuth e c =
     (let wellKnownURL =
            strings_TrimSuffix (issuerURL c) ''/'' @ ''/.well-known/oauth-authorization-server''
      in
      case http_NewRequest ''GET'' wellKnownURL of
        Inl err \<Rightarrow> Inl err
      | Inr req \<Rightarrow>
      (case Do e (k8sClient c) ''GET'' wellKnownURL of
        None \<Rightarrow> Inl (ErrDo wellKnownURL)
      | Some resp \<Rightarrow>
      if StatusCode resp sdiv 100 \<noteq> 2 then Inl (ErrDiscoveryStatus wellKnownURL)
      else
      (case decoded resp of
        None \<Rightarrow> Inl (ErrDiscoveryDecode wellKnownURL)
      | Some metadata \<Rightarrow>
      (case validateAbsURL (md_Issuer metadata) of
        Some err \<Rightarrow> Inl err
      | None \<Rightarrow>
      (case validateAbsURL (md_Auth metadata) of
        Some err \<Rightarrow> Inl err
      | None \<Rightarrow>
      (case validateAbsURL (md_Token metadata) of
        Some err \<Rightarrow> Inl err
      | None \<Rightarrow>
      (case http_NewRequest ''HEAD'' (md_Issuer metadata) of
        Inl err \<Rightarrow> Inl err
      | Inr req' \<Rightarrow>
      (case Do e (oauthClient c) ''HEAD'' (md_Issuer metadata) of
        None \<Rightarrow> Inl (ErrIssuerRequest (md_Token metadata))
      | Some resp' \<Rightarrow>
          (let requestTokenURL = SingleJoiningSlash (md_Token metadata) ''/request'';
               kubeAdminLogoutURL = SingleJoiningSlash (md_Issuer metadata) ''/logout''
           in Inr (\<lparr> AuthURL = md_Auth metadata, TokenURL = md_Token metadata \<rparr>,
                   \<lparr> o_cookiePath = oc_cookiePath c,
                     o_secureCookies = oc_secureCookies c,
                     o_specialURLs = \<lparr> RequestToken = requestTokenURL,
                                       KubeAdminLogout = kubeAdminLogoutURL \<rparr>,
                     o_clusterName = oc_clusterName c,
                     o_cookieDomain = oc_cookieDomain c \<rparr>))))))))))"

definition login :: "env \<Rightarrow> openShiftAuth \<Rightarrow> ResponseWriter \<Rightarrow> Token
    \<Rightarrow> (error + loginState) \<times> ResponseWriter" where
  "login e osa w token =
     (if AccessToken token = [] then (Inl ErrNoAccessToken, w)
      else
        (let ls = loginState_zero\<lparr> rawToken := AccessToken token \<rparr>;
             expiresIn =
               (if \<not> IsZero (Expiry token) then Seconds (Time_Sub (Expiry token) (Now e))
                else Seconds (Hour * 24));
             cookie = Cookie_zero\<lparr>
               Name := GetCookieName e (o_clusterName osa),
               Value := rawToken ls,
               MaxAge := go_int expiresIn,
               HttpOnly := True,
               Cookie_Path := o_cookiePath osa,
               Secure := o_secureCookies osa,
               Cookie_SameSite := SameSiteLaxMode \<rparr>;
             cookie' =
               (if o_cookieDomain osa \<noteq> [] then cookie\<lparr> Cookie_Domain := o_cookieDomain osa \<rparr>
                else cookie)
         in (Inr ls, http_SetCookie w cookie')))"

definition logout :: "env \<Rightarrow> openShiftAuth \<Rightarrow> ResponseWriter \<Rightarrow> Request \<Rightarrow> ResponseWriter" where
  "logout e osa w r =
     (let cookie = Cookie_zero\<lparr>
            Name := GetCookieName e (o_clusterName osa),
            Value := [],
            MaxAge := 0,
            HttpOnly := True,
            Cookie_Path := o_cookiePath osa,
            Secure := o_secureCookies osa \<rparr>;
          cookie' =
            (if o_cookieDomain osa \<noteq> [] then cookie\<lparr> Cookie_Domain := o_cookieDomain osa \<rparr>
             else cookie)
      in http_SetCookie w cookie' @ [WriteHeader StatusNoContent])"

definition getOpenShiftUser :: "env \<Rightarrow> Request \<Rightarrow> error + User" where
  "getOpenShiftUser e r =
     (let cluster = GetCluster e r;
          cookieName = GetCookieName e cluster
      in case Request_Cookie r cookieName of
           Inl err \<Rightarrow> Inl err
         | Inr cookie \<Rightarrow>
             if Value cookie = [] then Inl (ErrUnauthenticated cookieName)
             else Inr \<lparr> ID = [], Username = [], Token = Value cookie \<rparr>)"

definition getSpecialURLs :: "openShiftAuth \<Rightarrow> SpecialAuthURLs" where
  "getSpecialURLs osa = o_specialURLs osa"

subsection \<open>The client's cookie jar\<close>

text \<open>
  What a client does with the cookies of a response (RFC 6265): a cookie it receives
  replaces the stored cookie of the same name, domain and path, and is stored itself
  unless the client takes it as expired on arrival. Which cookies a client takes as
  expired is the parameter \<open>expired\<close>. A request sends the cookies of the jar.
\<close>

type_synonym jar = "Cookie list"

text \<open>
  RFC 6265 (5.2.2, 5.3): a cookie with a \<open>Max-Age\<close> attribute of zero or less expires at
  once, so the client removes the stored cookie and stores nothing; a cookie with
  neither \<open>Max-Age\<close> nor \<open>Expires\<close> is kept until the session of the client ends.
\<close>

definition expired_on_arrival :: "Cookie \<Rightarrow> bool" where
  "expired_on_arrival c =
     (case Cookie_MaxAge_attribute c of None \<Rightarrow> False | Some n \<Rightarrow> n \<le> 0)"

definition same_cookie :: "Cookie \<Rightarrow> Cookie \<Rightarrow> bool" where
  "same_cookie c d =
     (Name c = Name d \<and> Cookie_Domain c = Cookie_Domain d \<and> Cookie_Path c = Cookie_Path d)"

definition jar_receive :: "(Cookie \<Rightarrow> bool) \<Rightarrow> Cookie \<Rightarrow> jar \<Rightarrow> jar" where
  "jar_receive expired c j =
     (let others = filter (\<lambda>d. \<not> same_cookie c d) j in
      if expired c then others else others @ [c])"

fun jar_apply :: "(Cookie \<Rightarrow> bool) \<Rightarrow> ResponseWriter \<Rightarrow> jar \<Rightarrow> jar" where
  "jar_apply expired [] j = j"
| "jar_apply expired (SetCookie c # w) j = jar_apply expired w (jar_receive expired c j)"
| "jar_apply expired (ev # w) j = jar_apply expired w j"

definition with_jar :: "Request \<Rightarrow> jar \<Rightarrow> Request" where
  "with_jar r j = r\<lparr> cookies := map (\<lambda>c. (Name c, Value c)) j \<rparr>"

text \<open>
  The jar holds no cookie of the name \<open>n\<close> other than one with the domain and path
  given: the state of a jar that got its cookies of that name from \<open>login\<close>.
\<close>

definition only_session_cookie :: "string \<Rightarrow> string \<Rightarrow> string \<Rightarrow> jar \<Rightarrow> bool" where
  "only_session_cookie n d p j =
     list_all (\<lambda>c. Name c \<noteq> n \<or> (Cookie_Domain c = d \<and> Cookie_Path c = p)) j"

text \<open>
  The spec's words for what \<open>validateAbsURL\<close> accepts: an absolute URL, one that parses
  with a non-empty scheme and a non-empty host.
\<close>

definition absolute_url :: "string \<Rightarrow> bool" where
  "absolute_url v =
     (case url_Parse v of Inl err \<Rightarrow> False | Inr u \<Rightarrow> Scheme u \<noteq> [] \<and> Host u \<noteq> [])"

definition wellKnownURL_of :: "openShiftConfig \<Rightarrow> string" where
  \<comment> \<open>the local \<open>wellKnownURL\<close> of \<open>newOpenShiftAuth\<close>\<close>
  "wellKnownURL_of c =
     strings_TrimSuffix (issuerURL c) ''/'' @ ''/.well-known/oauth-authorization-server''"

section \<open>The authenticator (auth.go)\<close>

definition stateCookieName :: string where
  "stateCookieName = ''login-state''"

definition errorOAuth :: string where
  "errorOAuth = ''oauth_error''"

definition errorLoginState :: string where
  "errorLoginState = ''login_state_error''"

definition errorCookie :: string where
  "errorCookie = ''cookie_error''"

definition errorInternal :: string where
  "errorInternal = ''internal_error''"

definition errorMissingCode :: string where
  "errorMissingCode = ''missing_code''"

definition errorMissingState :: string where
  "errorMissingState = ''missing_state''"

definition errorInvalidCode :: string where
  "errorInvalidCode = ''invalid_code''"

definition errorInvalidState :: string where
  "errorInvalidState = ''invalid_state''"

subsection \<open>Construction\<close>

definition newUnstartedAuthenticator :: "env \<Rightarrow> Config \<Rightarrow> state
    \<Rightarrow> (error + unstarted) \<times> Config \<times> state" where
  \<comment> \<open>\<open>c\<close> is a \<open>*Config\<close>: the second component is the caller's struct after the call\<close>
  "newUnstartedAuthenticator e c s =
     (case newHTTPClient e (IssuerCA c) True s of
        (Inl err, s1) \<Rightarrow> (Inl err, c, s1)
      | (Inr fallbackClient', s1) \<Rightarrow>
          (let errURL = (if ErrorURL c \<noteq> [] then ErrorURL c else ''/'');
               sucURL = (if SuccessURL c \<noteq> [] then SuccessURL c else ''/'');
               c1 = (if CookiePath c = [] then c\<lparr> CookiePath := ''/'' \<rparr> else c)
           in case url_Parse (RefererPath c1) of
                Inl err \<Rightarrow> (Inl err, c1, s1)
              | Inr refUrl \<Rightarrow>
                  (Inr \<lparr> conf = c1,
                         fallbackClient = fallbackClient',
                         errorURL = errURL,
                         successURL = sucURL,
                         cookiePath = CookiePath c1,
                         refererURL = refUrl,
                         secureCookies = SecureCookies c1,
                         cookieDomain = CookieDomain c1 \<rparr>,
                   c1, s1)))"

definition clientFunc :: "env \<Rightarrow> 'a unstarted_scheme \<Rightarrow> state \<Rightarrow> client \<times> state" where
  "clientFunc e a s =
     (case newHTTPClient e (IssuerCA (conf a)) True s of
        (Inl err, s1) \<Rightarrow> (fallbackClient a, s1)
      | (Inr currentClient, s1) \<Rightarrow> (currentClient, s1))"

definition authSourceFunc_call :: "env \<Rightarrow> 'a unstarted_scheme \<Rightarrow> authSourceFunc \<Rightarrow> state
    \<Rightarrow> (error + (Endpoint \<times> loginMethod)) \<times> state" where
  "authSourceFunc_call e a f s0 =
     (let s = s0\<lparr> trace := trace s0 @ [Discover] \<rparr> in
      case f of
        OpenShiftSource \<Rightarrow>
          (case newHTTPClient e (K8sCA (conf a)) True s of
             (Inl errK8Client, s1) \<Rightarrow> (Inl errK8Client, s1)
           | (Inr k8sClient', s1) \<Rightarrow>
               (let (oauthClient', s2) = clientFunc e a s1 in
                case newOpenShiftAuth e
                       \<lparr> k8sClient = k8sClient',
                         oauthClient = oauthClient',
                         issuerURL = IssuerURL (conf a),
                         oc_cookiePath = CookiePath (conf a),
                         oc_secureCookies = SecureCookies (conf a),
                         oc_clusterName = ClusterName (conf a),
                         oc_cookieDomain = CookieDomain (conf a) \<rparr> of
                  Inl err \<Rightarrow> (Inl err, s2)
                | Inr (endpoint, osa) \<Rightarrow> (Inr (endpoint, OpenShiftLM osa), s2)))
      | OIDCSource endpoint oidcAuthSource err \<Rightarrow>
          (case err of
             Some er \<Rightarrow> (Inl er, s)
           | None \<Rightarrow> (Inr (endpoint, OIDCLM oidcAuthSource), s)))"

text \<open>
  One turn of the loop of \<open>NewAuthenticator\<close>, up to the result of the first call of
  \<open>authSourceFunc\<close>: the construction fails (the function returns that error at once),
  the discovery fails (the loop counts a step), or the authenticator is complete.
\<close>

datatype attempt = ConstructionFailed error | DiscoveryFailed error | Started Authenticator

definition attempt_one :: "env \<Rightarrow> Config \<Rightarrow> state \<Rightarrow> attempt \<times> Config \<times> state" where
  "attempt_one e c s =
     (case newUnstartedAuthenticator e c s of
        (Inl err, c1, s1) \<Rightarrow> (ConstructionFailed err, c1, s1)
      | (Inr a, c1, s1) \<Rightarrow>
          (let (userFunc', authSourceFunc', s2) =
                 (if AuthSource c1 = AuthSourceOpenShift
                  then (UserFunc_OpenShift, OpenShiftSource, s1)
                  else
                    (let (cl, s') = clientFunc e a s1;
                         (endpoint, oidcAuthSource, err) =
                           newOIDCAuth e
                             \<lparr> oidc_client = cl,
                               oidc_issuerURL = IssuerURL c1,
                               oidc_clientID = ClientID c1,
                               oidc_cookiePath = CookiePath c1,
                               oidc_secureCookies = SecureCookies c1,
                               oidc_cookieDomain = CookieDomain c1 \<rparr>
                     in (UserFunc_OIDC oidcAuthSource,
                         OIDCSource endpoint oidcAuthSource err, s')))
           in case authSourceFunc_call e a authSourceFunc' s2 of
                (Inl err, s3) \<Rightarrow> (DiscoveryFailed err, c1, s3)
              | (Inr (fallbackEndpoint', fallbackLoginMethod'), s3) \<Rightarrow>
                  (Started \<lparr> conf = conf a,
                             fallbackClient = fallbackClient a,
                             errorURL = errorURL a,
                             successURL = successURL a,
                             cookiePath = cookiePath a,
                             refererURL = refererURL a,
                             secureCookies = secureCookies a,
                             cookieDomain = cookieDomain a,
                             userFunc = userFunc',
                             authSource = authSourceFunc',
                             fallbackEndpoint = fallbackEndpoint',
                             fallbackLoginMethod = fallbackLoginMethod' \<rparr>,
                   c1, s3)))"

definition backoff :: nat where
  \<comment> \<open>\<open>time.Second * 10\<close>, in seconds\<close>
  "backoff = 10"

definition maxSteps :: nat where
  "maxSteps = 30"

definition time_Sleep :: "nat \<Rightarrow> state \<Rightarrow> state" where
  "time_Sleep d s = s\<lparr> trace := trace s @ [Sleep d] \<rparr>"

text \<open>
  The loop of \<open>NewAuthenticator\<close>, from the value of \<open>steps\<close>. The outside world
  may change while the loop sleeps: \<open>envs n\<close> is the world as the turn that starts
  with \<open>steps = n\<close> finds it.
\<close>

function NewAuthenticator_loop :: "(nat \<Rightarrow> env) \<Rightarrow> nat \<Rightarrow> Config \<Rightarrow> state
    \<Rightarrow> (error + Authenticator) \<times> Config \<times> state" where
  "NewAuthenticator_loop envs steps c s =
     (case attempt_one (envs steps) c s of
        (ConstructionFailed err, c1, s1) \<Rightarrow> (Inl err, c1, s1)
      | (DiscoveryFailed err, c1, s1) \<Rightarrow>
          (if Suc steps > maxSteps then (Inl err, c1, s1)
           else NewAuthenticator_loop envs (Suc steps) c1 (time_Sleep backoff s1))
      | (Started a, c1, s1) \<Rightarrow> (Inr a, c1, s1))"
  by pat_completeness auto
termination
  by (relation "measure (\<lambda>(envs, steps, c, s). Suc maxSteps - steps)") auto

definition NewAuthenticator :: "(nat \<Rightarrow> env) \<Rightarrow> Config \<Rightarrow> state
    \<Rightarrow> (error + Authenticator) \<times> Config \<times> state" where
  "NewAuthenticator envs c s = NewAuthenticator_loop envs 0 c s"

subsection \<open>The closure \<open>authFunc\<close>\<close>

definition new_oauth2_Config :: "oauth2_Config \<Rightarrow> state \<Rightarrow> nat \<times> state" where
  \<comment> \<open>\<open>&baseOAuth2Config\<close>: the local struct escapes to a fresh address\<close>
  "new_oauth2_Config v s =
     (next_oauth2_config s,
      s\<lparr> oauth2_configs := (oauth2_configs s)(next_oauth2_config s \<mapsto> v),
         next_oauth2_config := Suc (next_oauth2_config s) \<rparr>)"

definition authFunc :: "env \<Rightarrow> Authenticator \<Rightarrow> state \<Rightarrow> (nat \<times> loginMethod) \<times> state" where
  "authFunc e a s =
     (let baseOAuth2Config =
            \<lparr> oauth2_ClientID = ClientID (conf a),
              oauth2_ClientSecret = ClientSecret (conf a),
              oauth2_RedirectURL = RedirectURL (conf a),
              oauth2_Scopes = Scope (conf a),
              oauth2_Endpoint = fallbackEndpoint a \<rparr>
      in case authSourceFunc_call e a (authSource a) s of
           (Inl errAuthSource, s1) \<Rightarrow>
             (let (p, s2) = new_oauth2_Config baseOAuth2Config s1
              in ((p, fallbackLoginMethod a), s2))
         | (Inr (currentEndpoint, currentLoginMethod), s1) \<Rightarrow>
             (let (p, s2) =
                    new_oauth2_Config (baseOAuth2Config\<lparr> oauth2_Endpoint := currentEndpoint \<rparr>) s1
              in ((p, currentLoginMethod), s2)))"

subsection \<open>Request handlers\<close>

definition Authenticate :: "env \<Rightarrow> Authenticator \<Rightarrow> Request \<Rightarrow> error + User" where
  "Authenticate e a r =
     (case userFunc a of
        UserFunc_OpenShift \<Rightarrow> getOpenShiftUser e r
      | UserFunc_OIDC oidcAuthSource \<Rightarrow>
          (case oidcAuthSource of
             None \<Rightarrow> Inl ErrOIDCNotInitialized
           | Some p \<Rightarrow> oidc_authenticate e p r))"

definition redirectAuthError :: "'a unstarted_scheme \<Rightarrow> ResponseWriter \<Rightarrow> string \<Rightarrow> ResponseWriter" where
  "redirectAuthError a w authErr =
     (let u = (case url_Parse (errorURL a) of
                 Inl err \<Rightarrow> url_zero\<lparr> Path := errorURL a \<rparr>
               | Inr up \<Rightarrow> up);
          q = [(''error'', authErr), (''error_type'', ''auth'')];
          u' = u\<lparr> RawQuery := Values_Encode q \<rparr>
      in w @ [Header_Set ''Location'' (URL_String u'), WriteHeader StatusSeeOther])"

definition lm_login :: "env \<Rightarrow> loginMethod \<Rightarrow> ResponseWriter \<Rightarrow> Token
    \<Rightarrow> (error + loginState) \<times> ResponseWriter" where
  \<comment> \<open>the method \<open>login\<close> of the interface \<open>loginMethod\<close>\<close>
  "lm_login e lm w token =
     (case lm of
        OpenShiftLM osa \<Rightarrow> login e osa w token
      | OIDCLM p \<Rightarrow> oidc_login e p w token)"

text \<open>
  \<open>oauthConfig.Exchange\<close> of \<open>golang.org/x/oauth2\<close>: the code is sent to the token
  endpoint through the client of the context; the call fails when the request fails,
  and also when the answer holds no access token (\<open>oauth2: server response
  missing access_token\<close>).
\<close>

definition oauth2_Exchange :: "env \<Rightarrow> oauth2_Config \<Rightarrow> client \<Rightarrow> string \<Rightarrow> Token option" where
  "oauth2_Exchange e oc cl code =
     (case Exchange e oc cl code of
        None \<Rightarrow> None
      | Some token \<Rightarrow> if AccessToken token = [] then None else Some token)"

text \<open>
  The handler \<open>CallbackFunc\<close> returns, applied to a response writer and a request.
  \<open>oauthConfig\<close> is the pointer \<open>authFunc\<close> returned; the branch for a pointer that
  is not allocated stands for the nil dereference and is never taken
  (\<open>authFunc_allocates\<close>).
\<close>

definition CallbackFunc :: "env \<Rightarrow> Authenticator \<Rightarrow> ResponseWriter \<Rightarrow> Request \<Rightarrow> state
    \<Rightarrow> ResponseWriter \<times> state" where
  "CallbackFunc e a w r s =
     (let qErr = Query_Get r ''error'';
          code = Query_Get r ''code'';
          urlState = Query_Get r ''state''
      in
      case Request_Cookie r stateCookieName of
        Inl err \<Rightarrow> (redirectAuthError a w errorMissingState, s)
      | Inr cookieState \<Rightarrow>
          if qErr = [] \<and> code = [] then (http_Redirect w r (errorURL a) StatusSeeOther, s)
          else if code = [] then (redirectAuthError a w errorMissingCode, s)
          else if urlState \<noteq> Value cookieState then (redirectAuthError a w errorInvalidState, s)
          else
            (let (cl, s1) = clientFunc e a s;
                 ((oauthConfig, lm), s2) = authFunc e a s1;
                 s3 = s2\<lparr> trace := trace s2 @ [TokenExchange code] \<rparr>
             in case oauth2_configs s2 oauthConfig of
                  None \<Rightarrow> (w, s2)
                | Some oc \<Rightarrow>
                    (case oauth2_Exchange e oc cl code of
                       None \<Rightarrow> (redirectAuthError a w errorInvalidCode, s3)
                     | Some token \<Rightarrow>
                         (case lm_login e lm w token of
                            (Inl err, w1) \<Rightarrow> (redirectAuthError a w1 errorInternal, s3)
                          | (Inr ls, w1) \<Rightarrow> (w1 @ [Continuation ls (successURL a)], s3)))))"

definition getSourceOrigin :: "Request \<Rightarrow> string" where
  "getSourceOrigin r =
     (let origin = Header_Get r ''Origin'' in
      if length origin \<noteq> 0 then origin else Referer r)"

definition VerifySourceOrigin :: "'a unstarted_scheme \<Rightarrow> Request \<Rightarrow> error option" where
  \<comment> \<open>\<open>None\<close> is the result \<open>nil\<close>\<close>
  "VerifySourceOrigin a r =
     (let source = getSourceOrigin r in
      if length source = 0 then Some ErrNoOriginOrReferer
      else
        (case url_Parse source of
           Inl err \<Rightarrow> Some err
         | Inr u \<Rightarrow>
             (let isValid =
                    (Hostname (refererURL a) = Hostname u \<and>
                     Port (refererURL a) = Port u \<and>
                     Scheme (refererURL a) = Scheme u \<and>
                     (Path u = [] \<or> strings_HasPrefix (Path u) (Path (refererURL a))))
              in if \<not> isValid then Some (ErrInvalidOrigin source) else None)))"

subsection \<open>Notions used to state the properties\<close>

text \<open>
  The \<open>Config\<close> after \<open>newUnstartedAuthenticator\<close> has given \<open>CookiePath\<close> its
  default.
\<close>

definition with_default_CookiePath :: "Config \<Rightarrow> Config" where
  "with_default_CookiePath c = (if CookiePath c = [] then c\<lparr> CookiePath := ''/'' \<rparr> else c)"

text \<open>
  The \<open>Config\<close> and the state at the start of the turn with \<open>steps = k\<close>, when every
  turn before it ended in a failed discovery and a sleep; and the outcome of that turn.
\<close>

fun after_failures :: "(nat \<Rightarrow> env) \<Rightarrow> nat \<Rightarrow> Config \<Rightarrow> state \<Rightarrow> Config \<times> state" where
  "after_failures envs 0 c s = (c, s)"
| "after_failures envs (Suc k) c s =
     (let (c', s') = after_failures envs k c s;
          (r, c1, s1) = attempt_one (envs k) c' s'
      in (c1, time_Sleep backoff s1))"

definition attempt_at :: "(nat \<Rightarrow> env) \<Rightarrow> Config \<Rightarrow> state \<Rightarrow> nat \<Rightarrow> attempt" where
  "attempt_at envs c s k =
     (let (c', s') = after_failures envs k c s in fst (attempt_one (envs k) c' s'))"

definition discoveries :: "event list \<Rightarrow> nat" where
  "discoveries t = length (filter (\<lambda>ev. ev = Discover) t)"

definition sleeps :: "event list \<Rightarrow> nat list" where
  "sleeps t = concat (map (\<lambda>ev. case ev of Sleep d \<Rightarrow> [d] | _ \<Rightarrow> []) t)"

text \<open>The endpoint and the login method that a call of \<open>authFunc\<close> returns.\<close>

definition authFunc_result :: "env \<Rightarrow> Authenticator \<Rightarrow> state
    \<Rightarrow> Endpoint option \<times> loginMethod" where
  "authFunc_result e a s =
     (let ((p, lm), s') = authFunc e a s
      in (map_option oauth2_Endpoint (oauth2_configs s' p), lm))"

section \<open>Example values\<close>

text \<open>
  A console at \<open>https://console.example\<close> in OpenShift mode: the API server
  \<open>https://api.example:6443\<close> serves the discovery document of the OAuth server
  \<open>https://oauth.example\<close>; the CA bundle \<open>PEM-A\<close> is stored under two paths.
\<close>

definition wellKnown_example :: string where
  "wellKnown_example = ''https://api.example:6443/.well-known/oauth-authorization-server''"

definition metadata_example :: metadata where
  "metadata_example = \<lparr> md_Issuer = ''https://oauth.example'',
                         md_Auth = ''https://oauth.example/authorize'',
                         md_Token = ''https://oauth.example/token'' \<rparr>"

definition env_example :: env where
  "env_example =
     \<lparr> ReadFile = (\<lambda>p. if p = ''/etc/ca.crt'' \<or> p = ''/mnt/ca-copy.crt'' then Some ''PEM-A''
                        else None),
       SystemCertPool_fails = False,
       AppendCertsFromPEM = (\<lambda>d. d = ''PEM-A''),
       Do = (\<lambda>cl m u.
               if m = ''GET'' \<and> u = wellKnown_example
               then Some \<lparr> StatusCode = 200, decoded = Some metadata_example \<rparr>
               else if m = ''HEAD'' \<and> u = ''https://oauth.example''
               then Some \<lparr> StatusCode = 200, decoded = None \<rparr>
               else None),
       Exchange = (\<lambda>oc cl code.
               if code = ''good-code''
               then Some \<lparr> AccessToken = ''sha256~token'', Expiry = 0 \<rparr>
               else if code = ''empty-token''
               then Some \<lparr> AccessToken = [], Expiry = 0 \<rparr>
               else None),
       Now = 63900000000000000000,
       GetCookieName = (\<lambda>cluster. if cluster = ''local-cluster'' then ''openshift-session-token''
                                   else ''openshift-session-token-'' @ cluster),
       GetCluster = (\<lambda>r. ''local-cluster''),
       newOIDCAuth = (\<lambda>oc. (Endpoint_zero, None, Some (ErrOther 0))),
       oidc_login = (\<lambda>p w token. (Inl (ErrOther 1), w)),
       oidc_authenticate = (\<lambda>p r. Inl (ErrOther 2)) \<rparr>"

text \<open>The same world with the CA file overwritten by bytes that hold no certificate.\<close>

definition env_garbage :: env where
  "env_garbage = env_example\<lparr> ReadFile := (\<lambda>p. if p = ''/etc/ca.crt'' then Some ''garbage''
                                                 else None) \<rparr>"

text \<open>
  The same world after the CA bundle under \<open>/etc/ca.crt\<close> has been replaced by the
  bundle \<open>PEM-B\<close>.
\<close>

definition env_rotated :: env where
  "env_rotated = env_example\<lparr> ReadFile := (\<lambda>p. if p = ''/etc/ca.crt'' then Some ''PEM-B''
                                                 else if p = ''/mnt/ca-copy.crt'' then Some ''PEM-A''
                                                 else None),
                               AppendCertsFromPEM := (\<lambda>d. d = ''PEM-A'' \<or> d = ''PEM-B'') \<rparr>"

text \<open>The same world with the identity provider unreachable.\<close>

definition env_unreachable :: env where
  "env_unreachable = env_example\<lparr> Do := (\<lambda>cl m u. None) \<rparr>"

definition config_example :: Config where
  "config_example =
     \<lparr> AuthSource = AuthSourceOpenShift,
       IssuerURL = ''https://api.example:6443'',
       IssuerCA = ''/etc/ca.crt'',
       RedirectURL = ''https://console.example/auth/callback'',
       ClientID = ''console'',
       ClientSecret = ''secret'',
       Scope = [''user:full''],
       K8sCA = ''/etc/ca.crt'',
       SuccessURL = ''https://console.example/'',
       ErrorURL = ''https://console.example/error'',
       RefererPath = ''https://console.example'',
       CookiePath = [],
       SecureCookies = True,
       ClusterName = ''local-cluster'',
       CookieDomain = [] \<rparr>"

definition osa_example :: openShiftAuth where
  "osa_example =
     \<lparr> o_cookiePath = ''/api/'',
       o_secureCookies = True,
       o_specialURLs = \<lparr> RequestToken = ''https://oauth.example/token/request'',
                         KubeAdminLogout = ''https://oauth.example/logout'' \<rparr>,
       o_clusterName = ''local-cluster'',
       o_cookieDomain = ''.example.com'' \<rparr>"

definition request_zero :: Request where
  "request_zero = \<lparr> query = [], cookies = [], header = [] \<rparr>"

text \<open>
  The unstarted authenticator of the example configuration, with the referer
  \<open>https://console.example\<close> followed by a path.
\<close>

definition unstarted_example :: "string \<Rightarrow> unstarted" where
  "unstarted_example referer_path =
     \<lparr> conf = config_example\<lparr> RefererPath := ''https://console.example'' @ referer_path,
                                CookiePath := ''/'' \<rparr>,
       fallbackClient = ClientPtr 0,
       errorURL = ''https://console.example/error'',
       successURL = ''https://console.example/'',
       cookiePath = ''/'',
       refererURL = url_zero\<lparr> Scheme := ''https'', Host := ''console.example'',
                                Path := referer_path \<rparr>,
       secureCookies = True,
       cookieDomain = [] \<rparr>"

definition request_with_header :: "string \<Rightarrow> string \<Rightarrow> Request" where
  "request_with_header k v = request_zero\<lparr> header := [(k, v)] \<rparr>"

definition openShiftConfig_example :: openShiftConfig where
  "openShiftConfig_example =
     \<lparr> k8sClient = ClientPtr 0,
       oauthClient = ClientPtr 0,
       issuerURL = ''https://api.example:6443/'',
       oc_cookiePath = ''/api/'',
       oc_secureCookies = True,
       oc_clusterName = ''local-cluster'',
       oc_cookieDomain = ''.example.com'' \<rparr>"

text \<open>
  A token that expires 3600.5 seconds after the clock of the example, a token
  without expiry, and an authenticator of the example console in OpenShift mode.
\<close>

definition token_example :: Token where
  "token_example = \<lparr> AccessToken = ''sha256~token'', Expiry = 63900003600500000000 \<rparr>"

definition token_no_expiry :: Token where
  "token_no_expiry = \<lparr> AccessToken = ''sha256~token'', Expiry = 0 \<rparr>"

text \<open>A token that expires 16777216.999999999 seconds after the clock of the example.\<close>

definition token_far :: Token where
  "token_far = \<lparr> AccessToken = ''sha256~token'', Expiry = 63916777216999999999 \<rparr>"

definition authenticator_example :: Authenticator where
  "authenticator_example =
     \<lparr> conf = config_example\<lparr> CookiePath := ''/'' \<rparr>,
       fallbackClient = ClientPtr 0,
       errorURL = ''https://console.example/error'',
       successURL = ''https://console.example/'',
       cookiePath = ''/'',
       refererURL = url_zero\<lparr> Scheme := ''https'', Host := ''console.example'' \<rparr>,
       secureCookies = True,
       cookieDomain = [],
       userFunc = UserFunc_OpenShift,
       authSource = OpenShiftSource,
       fallbackEndpoint = \<lparr> AuthURL = ''https://oauth.example/authorize'',
                            TokenURL = ''https://oauth.example/token'' \<rparr>,
       fallbackLoginMethod = OpenShiftLM
         \<lparr> o_cookiePath = ''/'',
           o_secureCookies = True,
           o_specialURLs = \<lparr> RequestToken = ''https://oauth.example/token/request'',
                             KubeAdminLogout = ''https://oauth.example/logout'' \<rparr>,
           o_clusterName = ''local-cluster'',
           o_cookieDomain = [] \<rparr> \<rparr>"

text \<open>The same world after the OAuth server has moved to \<open>https://oauth2.example\<close>.\<close>

definition metadata_moved :: metadata where
  "metadata_moved = \<lparr> md_Issuer = ''https://oauth2.example'',
                       md_Auth = ''https://oauth2.example/authorize'',
                       md_Token = ''https://oauth2.example/token'' \<rparr>"

definition env_moved :: env where
  "env_moved = env_example\<lparr> Do := (\<lambda>cl m u.
       if m = ''GET'' \<and> u = wellKnown_example
       then Some \<lparr> StatusCode = 200, decoded = Some metadata_moved \<rparr>
       else if m = ''HEAD'' \<and> u = ''https://oauth2.example''
       then Some \<lparr> StatusCode = 200, decoded = None \<rparr>
       else None) \<rparr>"

text \<open>
  Callback requests: the state cookie holds \<open>abc123\<close>; the query carries a code and a
  state.
\<close>

definition callback_request :: "string \<Rightarrow> string \<Rightarrow> Request" where
  "callback_request code st =
     \<lparr> query = [(''code'', code), (''state'', st)],
       cookies = [(''login-state'', ''abc123'')],
       header = [] \<rparr>"

text \<open>
  Two callback requests without a code, both with a state that differs from the state
  cookie: one carries the error of the provider, the other no other parameter.
\<close>

definition request_error_state :: Request where
  "request_error_state =
     \<lparr> query = [(''error'', ''access_denied''), (''state'', ''wrong'')],
       cookies = [(''login-state'', ''abc123'')],
       header = [] \<rparr>"

definition request_state_only :: Request where
  "request_state_only =
     \<lparr> query = [(''state'', ''wrong'')],
       cookies = [(''login-state'', ''abc123'')],
       header = [] \<rparr>"

text \<open>
  The example console in OIDC mode: the world in which \<open>newOIDCAuth\<close> finds the
  provider \<open>https://idp.example\<close> and \<open>login\<close> of the OIDC login method refuses every
  token, the configuration, and the authenticator that \<open>NewAuthenticator\<close> returns
  for them.
\<close>

definition env_oidc :: env where
  "env_oidc = env_example\<lparr> newOIDCAuth := (\<lambda>oc. (\<lparr> AuthURL = ''https://idp.example/auth'',
                                                    TokenURL = ''https://idp.example/token'' \<rparr>,
                                                  Some 0, None)) \<rparr>"

definition config_oidc :: Config where
  "config_oidc = config_example\<lparr> AuthSource := AuthSourceTectonic,
                                  IssuerURL := ''https://idp.example'' \<rparr>"

definition authenticator_oidc_example :: Authenticator where
  "authenticator_oidc_example =
     authenticator_example
       \<lparr> conf := config_oidc\<lparr> CookiePath := ''/'' \<rparr>,
         userFunc := UserFunc_OIDC (Some 0),
         authSource := OIDCSource \<lparr> AuthURL = ''https://idp.example/auth'',
                                    TokenURL = ''https://idp.example/token'' \<rparr> (Some 0) None,
         fallbackEndpoint := \<lparr> AuthURL = ''https://idp.example/auth'',
                               TokenURL = ''https://idp.example/token'' \<rparr>,
         fallbackLoginMethod := OIDCLM (Some 0) \<rparr>"
section \<open>Properties of the HTTP client cache\<close>

lemma newHTTPClient_cache_mono:
  "cache_of b s k = Some c \<Longrightarrow> cache_of b (snd (newHTTPClient e p b' s)) k = Some c"
  by (cases b; cases b')
     (auto simp: newHTTPClient_def cache_of_def new_client_def Let_def split: option.splits)

lemma run_calls_cache_mono:
  "cache_of b s k = Some c \<Longrightarrow> cache_of b (run_calls cs s) k = Some c"
proof (induction cs arbitrary: s)
  case Nil
  then show ?case by simp
next
  case (Cons a cs)
  obtain e p b' where a: "a = (e, p, b')" by (cases a)
  from Cons.prems have "cache_of b (snd (newHTTPClient e p b' s)) k = Some c"
    by (rule newHTTPClient_cache_mono)
  then show ?case using Cons.IH a by simp
qed

lemma newHTTPClient_success_cached:
  assumes "newHTTPClient e p b s = (Inr c, s1)" and "p \<noteq> []" and "ReadFile e p = Some k"
  shows "cache_of b s1 k = Some c"
  using assms
  by (auto simp: newHTTPClient_def cache_of_def new_client_def Let_def
           split: option.splits if_splits)

lemma newHTTPClient_hit:
  assumes "cache_of b s k = Some c" and "p \<noteq> []" and "ReadFile e p = Some k"
  shows "newHTTPClient e p b s = (Inr c, s)"
  using assms by (cases b) (simp_all add: newHTTPClient_def cache_of_def)

lemma newHTTPClient_error_state:
  "newHTTPClient e p b s = (Inl err, s') \<Longrightarrow> s' = s"
  by (auto simp: newHTTPClient_def new_client_def Let_def split: option.splits if_splits)

lemma newHTTPClient_error_path:
  "newHTTPClient e p b s = (Inl err, s') \<Longrightarrow> p \<noteq> []"
  by (auto simp: newHTTPClient_def)

lemma newHTTPClient_cache_new:
  assumes "cache_of b (snd (newHTTPClient e p b' s)) k = Some c"
  shows "cache_of b s k = Some c
         \<or> (b' = b \<and> p \<noteq> [] \<and> ReadFile e p = Some k \<and> fst (newHTTPClient e p b' s) = Inr c)"
  using assms
  by (cases b; cases b')
     (auto simp: newHTTPClient_def cache_of_def new_client_def Let_def
           split: option.splits if_splits)

lemma run_calls_cache_origin:
  "cache_of b (run_calls cs s) k = Some c
   \<Longrightarrow> cache_of b s k = Some c \<or> succeeded_with cs s b k c"
proof (induction cs arbitrary: s)
  case Nil
  then show ?case by simp
next
  case (Cons a cs)
  obtain e p b' where a: "a = (e, p, b')" by (cases a)
  let ?s1 = "snd (newHTTPClient e p b' s)"
  from Cons.prems a have "cache_of b (run_calls cs ?s1) k = Some c" by simp
  then have "cache_of b ?s1 k = Some c \<or> succeeded_with cs ?s1 b k c"
    by (rule Cons.IH)
  then show ?case
  proof
    assume "cache_of b ?s1 k = Some c"
    then show ?thesis using newHTTPClient_cache_new [of b e p b' s k c] a by auto
  next
    assume "succeeded_with cs ?s1 b k c"
    then show ?thesis using a by simp
  qed
qed

text \<open>
  The invariant of the client heap: every cached pointer is the address of a client
  built from the cache key, and every allocated address is below the counter.
\<close>

lemma newHTTPClient_heap_inv:
  assumes "\<forall>b k c. cache_of b s k = Some c \<longrightarrow> built_from s c k"
    and "\<forall>q. q \<in> dom (clients s) \<longrightarrow> q < next_client s"
  shows "(\<forall>b k c. cache_of b (snd (newHTTPClient e p b' s)) k = Some c
            \<longrightarrow> built_from (snd (newHTTPClient e p b' s)) c k)
         \<and> (\<forall>q. q \<in> dom (clients (snd (newHTTPClient e p b' s)))
            \<longrightarrow> q < next_client (snd (newHTTPClient e p b' s)))"
proof -
  have fresh: "clients s (next_client s) = None"
    using assms(2) by (meson domIff less_irrefl)
  have old: "\<And>b k c. cache_of b s k = Some c \<Longrightarrow> c \<noteq> ClientPtr (next_client s)"
  proof
    fix b k c assume "cache_of b s k = Some c" and "c = ClientPtr (next_client s)"
    then have "built_from s (ClientPtr (next_client s)) k" using assms(1) by blast
    then show False using fresh by (simp add: built_from_def)
  qed
  show ?thesis
  proof (cases "\<exists>c. fst (newHTTPClient e p b' s) = Inr c \<and> snd (newHTTPClient e p b' s) \<noteq> s")
    case False
    then have "snd (newHTTPClient e p b' s) = s"
      by (cases "newHTTPClient e p b' s"; cases "fst (newHTTPClient e p b' s)")
         (auto dest: newHTTPClient_error_state)
    then show ?thesis using assms by simp
  next
    case True
    then obtain data where d: "ReadFile e p = Some data" "p \<noteq> []" "cache_of b' s data = None"
      and s1: "snd (newHTTPClient e p b' s) =
                 (let s1 = s\<lparr> clients := (clients s)(next_client s \<mapsto>
                                 \<lparr> RootCAs = \<lparr> from_system = b' \<and> \<not> SystemCertPool_fails e,
                                               appended_pem = data \<rparr>,
                                   Timeout_seconds = 5 \<rparr>),
                               next_client := Suc (next_client s) \<rparr>
                  in if b' then s1\<lparr> httpClientCacheSystemRoots :=
                                     (httpClientCacheSystemRoots s)(data \<mapsto> ClientPtr (next_client s)) \<rparr>
                     else s1\<lparr> httpClientCache :=
                                (httpClientCache s)(data \<mapsto> ClientPtr (next_client s)) \<rparr>)"
      by (cases b')
         (auto simp: newHTTPClient_def cache_of_def new_client_def Let_def
               split: option.splits if_splits)
    have a1: "\<And>b k c. cache_of b s k = Some c \<Longrightarrow> built_from s c k"
      using assms(1) by blast
    have keep: "\<And>c k. c \<noteq> ClientPtr (next_client s) \<Longrightarrow> built_from s c k
                 \<Longrightarrow> built_from (snd (newHTTPClient e p b' s)) c k"
      unfolding s1 by (cases b') (auto simp: built_from_def Let_def split: client.splits option.splits)
    have new: "built_from (snd (newHTTPClient e p b' s)) (ClientPtr (next_client s)) data"
      unfolding s1 by (cases b') (auto simp: built_from_def Let_def)
    have entries: "\<And>b k c. cache_of b (snd (newHTTPClient e p b' s)) k = Some c
                 \<Longrightarrow> cache_of b s k = Some c \<or> (c = ClientPtr (next_client s) \<and> k = data)"
      unfolding s1 by (cases b') (auto simp: cache_of_def Let_def split: if_splits)
    have part1: "\<forall>b k c. cache_of b (snd (newHTTPClient e p b' s)) k = Some c
            \<longrightarrow> built_from (snd (newHTTPClient e p b' s)) c k"
      using entries keep new old a1 by blast
    have part2: "\<forall>q. q \<in> dom (clients (snd (newHTTPClient e p b' s)))
            \<longrightarrow> q < next_client (snd (newHTTPClient e p b' s))"
      unfolding s1 using assms(2) by (cases b') (auto simp: Let_def less_Suc_eq)
    show ?thesis using part1 part2 by blast
  qed
qed

lemma run_calls_heap_inv:
  assumes "\<forall>b k c. cache_of b s k = Some c \<longrightarrow> built_from s c k"
    and "\<forall>q. q \<in> dom (clients s) \<longrightarrow> q < next_client s"
  shows "(\<forall>b k c. cache_of b (run_calls cs s) k = Some c \<longrightarrow> built_from (run_calls cs s) c k)
         \<and> (\<forall>q. q \<in> dom (clients (run_calls cs s)) \<longrightarrow> q < next_client (run_calls cs s))"
  using assms
proof (induction cs arbitrary: s)
  case Nil
  then show ?case by simp
next
  case (Cons a cs)
  obtain e p b' where a: "a = (e, p, b')" by (cases a)
  have "(\<forall>b k c. cache_of b (snd (newHTTPClient e p b' s)) k = Some c
            \<longrightarrow> built_from (snd (newHTTPClient e p b' s)) c k)
         \<and> (\<forall>q. q \<in> dom (clients (snd (newHTTPClient e p b' s)))
            \<longrightarrow> q < next_client (snd (newHTTPClient e p b' s)))"
    using Cons.prems by (rule newHTTPClient_heap_inv)
  then show ?case using Cons.IH [of "snd (newHTTPClient e p b' s)"] a by simp
qed

lemma newHTTPClient_builds:
  assumes "\<forall>b k c. cache_of b s k = Some c \<longrightarrow> built_from s c k"
    and "p \<noteq> []" and "ReadFile e p = Some k" and "AppendCertsFromPEM e k"
  shows "\<exists>c s'. newHTTPClient e p b s = (Inr c, s') \<and> built_from s' c k"
proof (cases "cache_of b s k")
  case (Some c)
  then have "newHTTPClient e p b s = (Inr c, s)"
    using assms(2,3) by (rule newHTTPClient_hit)
  moreover have "built_from s c k" using assms(1) Some by blast
  ultimately show ?thesis by blast
next
  case None
  then show ?thesis using assms(2-4)
    by (cases b)
       (auto simp: newHTTPClient_def cache_of_def new_client_def built_from_def Let_def)
qed

lemma newHTTPClient_succeeds:
  assumes "p \<noteq> []" and "ReadFile e p = Some k" and "AppendCertsFromPEM e k"
  shows "\<exists>c s'. newHTTPClient e p b s = (Inr c, s')"
  using assms
  by (cases b)
     (auto simp: newHTTPClient_def new_client_def Let_def split: option.splits)

lemma state_init_inv:
  "(\<forall>b k c. cache_of b state_init k = Some c \<longrightarrow> built_from state_init c k)
   \<and> (\<forall>q. q \<in> dom (clients state_init) \<longrightarrow> q < next_client state_init)"
  by (simp add: state_init_def cache_of_def)

lemma built_from_key:
  "built_from s c k \<Longrightarrow> built_from s c k' \<Longrightarrow> k' = k"
  by (auto simp: built_from_def split: client.splits option.splits)

lemma built_from_allocated:
  "built_from s c k \<Longrightarrow> \<exists>q. c = ClientPtr q \<and> q \<in> dom (clients s)"
  by (auto simp: built_from_def split: client.splits option.splits)

lemma newHTTPClient_miss:
  assumes "cache_of b s k = None" and "p \<noteq> []" and "ReadFile e p = Some k"
  shows "(\<not> AppendCertsFromPEM e k
            \<longrightarrow> newHTTPClient e p b s = (Inl (ErrNoCAData p), s))
         \<and> (AppendCertsFromPEM e k
            \<longrightarrow> (\<exists>s2. newHTTPClient e p b s = (Inr (ClientPtr (next_client s)), s2)
                      \<and> built_from s2 (ClientPtr (next_client s)) k
                      \<and> cache_of b s2 k = Some (ClientPtr (next_client s))
                      \<and> next_client s2 = Suc (next_client s)
                      \<and> (\<forall>k0 c0. cache_of b s k0 = Some c0 \<longrightarrow> cache_of b s2 k0 = Some c0)))"
  using assms
  by (cases b)
     (auto simp: newHTTPClient_def cache_of_def new_client_def built_from_def Let_def)

text \<open>
  C3. A successful call of \<open>newHTTPClient\<close> that read the CA bytes \<open>k\<close> leaves the
  client it returns in the cache of its \<open>includeSystemRoots\<close> mode, under the key \<open>k\<close>.
  Every later call in that mode that reads the same bytes \<open>k\<close> (from any file path, in
  any later state of the outside world, after any number of other calls) returns the
  identical client pointer and leaves the whole state as it is, so it builds no
  client. When the calls started from the empty caches, that client was built from
  \<open>k\<close>, and a later call in that mode that reads other bytes never returns it: with
  bytes that hold a certificate such a call returns another client, built from those
  bytes and cached under them, next to the entry for \<open>k\<close>. The cache is keyed by the
  content of the file, not by its path.
\<close>

theorem newHTTPClient_same_bytes_same_client:
  assumes "newHTTPClient e1 p1 b s0 = (Inr c, s1)"
    and "p1 \<noteq> []" and "ReadFile e1 p1 = Some k"
  shows "cache_of b s1 k = Some c
         \<and> (\<forall>cs (e2::env) p2. p2 \<noteq> [] \<and> ReadFile e2 p2 = Some k
              \<longrightarrow> cache_of b (run_calls cs s1) k = Some c
                  \<and> newHTTPClient e2 p2 b (run_calls cs s1) = (Inr c, run_calls cs s1))
         \<and> ((\<exists>cs0. s0 = run_calls cs0 state_init)
              \<longrightarrow> built_from s1 c k
                  \<and> (\<forall>cs (e2::env) p2 k'. p2 \<noteq> [] \<and> ReadFile e2 p2 = Some k' \<and> k' \<noteq> k
                        \<longrightarrow> fst (newHTTPClient e2 p2 b (run_calls cs s1)) \<noteq> Inr c
                            \<and> (AppendCertsFromPEM e2 k'
                                \<longrightarrow> (\<exists>c' s2. newHTTPClient e2 p2 b (run_calls cs s1) = (Inr c', s2)
                                        \<and> c' \<noteq> c
                                        \<and> built_from s2 c' k'
                                        \<and> cache_of b s2 k' = Some c'
                                        \<and> cache_of b s2 k = Some c))))"
proof -
  have cached: "cache_of b s1 k = Some c"
    using assms by (rule newHTTPClient_success_cached)
  have later: "\<And>cs. cache_of b (run_calls cs s1) k = Some c"
    using cached by (rule run_calls_cache_mono)
  have same: "\<forall>cs (e2::env) p2. p2 \<noteq> [] \<and> ReadFile e2 p2 = Some k
              \<longrightarrow> cache_of b (run_calls cs s1) k = Some c
                  \<and> newHTTPClient e2 p2 b (run_calls cs s1) = (Inr c, run_calls cs s1)"
    using later newHTTPClient_hit by blast
  have other: "built_from s1 c k
                  \<and> (\<forall>cs (e2::env) p2 k'. p2 \<noteq> [] \<and> ReadFile e2 p2 = Some k' \<and> k' \<noteq> k
                        \<longrightarrow> fst (newHTTPClient e2 p2 b (run_calls cs s1)) \<noteq> Inr c
                            \<and> (AppendCertsFromPEM e2 k'
                                \<longrightarrow> (\<exists>c' s2. newHTTPClient e2 p2 b (run_calls cs s1) = (Inr c', s2)
                                        \<and> c' \<noteq> c
                                        \<and> built_from s2 c' k'
                                        \<and> cache_of b s2 k' = Some c'
                                        \<and> cache_of b s2 k = Some c)))"
    if reach: "\<exists>cs0. s0 = run_calls cs0 state_init"
  proof -
    from reach obtain cs0 where s0: "s0 = run_calls cs0 state_init" by blast
    have inv0: "(\<forall>b k c. cache_of b s0 k = Some c \<longrightarrow> built_from s0 c k)
                \<and> (\<forall>q. q \<in> dom (clients s0) \<longrightarrow> q < next_client s0)"
      unfolding s0 using state_init_inv by (intro run_calls_heap_inv) blast+
    have s1: "s1 = snd (newHTTPClient e1 p1 b s0)" using assms(1) by simp
    have inv1: "(\<forall>b k c. cache_of b s1 k = Some c \<longrightarrow> built_from s1 c k)
                \<and> (\<forall>q. q \<in> dom (clients s1) \<longrightarrow> q < next_client s1)"
      unfolding s1 using inv0 by (intro newHTTPClient_heap_inv) blast+
    have inv: "\<And>cs. (\<forall>b k c. cache_of b (run_calls cs s1) k = Some c
                         \<longrightarrow> built_from (run_calls cs s1) c k)
                \<and> (\<forall>q. q \<in> dom (clients (run_calls cs s1)) \<longrightarrow> q < next_client (run_calls cs s1))"
      using inv1 by (intro run_calls_heap_inv) blast+
    have built: "built_from s1 c k" using inv1 cached by blast
    have diff: "fst (newHTTPClient e2 p2 b (run_calls cs s1)) \<noteq> Inr c
                \<and> (AppendCertsFromPEM e2 k'
                     \<longrightarrow> (\<exists>c' s2. newHTTPClient e2 p2 b (run_calls cs s1) = (Inr c', s2)
                             \<and> c' \<noteq> c
                             \<and> built_from s2 c' k'
                             \<and> cache_of b s2 k' = Some c'
                             \<and> cache_of b s2 k = Some c))"
      if h: "p2 \<noteq> []" "ReadFile e2 p2 = Some k'" "k' \<noteq> k" for cs and e2 :: env and p2 k'
    proof -
      let ?S = "run_calls cs s1"
      have cS: "cache_of b ?S k = Some c" by (rule later)
      have bS: "built_from ?S c k" using inv [of cs] cS by blast
      then obtain q where q: "c = ClientPtr q" "q \<in> dom (clients ?S)"
        using built_from_allocated by blast
      then have ql: "q < next_client ?S" using inv [of cs] by blast
      show ?thesis
      proof (cases "cache_of b ?S k'")
        case (Some c')
        then have r: "newHTTPClient e2 p2 b ?S = (Inr c', ?S)"
          using h(1,2) by (rule newHTTPClient_hit)
        have b': "built_from ?S c' k'" using inv [of cs] Some by blast
        have ne: "c' \<noteq> c" using b' bS h(3) built_from_key by blast
        show ?thesis using r ne b' Some cS by simp
      next
        case None
        from newHTTPClient_miss [OF None h(1,2)]
        have f: "\<not> AppendCertsFromPEM e2 k'
                   \<longrightarrow> newHTTPClient e2 p2 b ?S = (Inl (ErrNoCAData p2), ?S)"
          and g: "AppendCertsFromPEM e2 k'
            \<longrightarrow> (\<exists>s2. newHTTPClient e2 p2 b ?S = (Inr (ClientPtr (next_client ?S)), s2)
                      \<and> built_from s2 (ClientPtr (next_client ?S)) k'
                      \<and> cache_of b s2 k' = Some (ClientPtr (next_client ?S))
                      \<and> next_client s2 = Suc (next_client ?S)
                      \<and> (\<forall>k0 c0. cache_of b ?S k0 = Some c0 \<longrightarrow> cache_of b s2 k0 = Some c0))"
          by blast+
        have fresh: "ClientPtr (next_client ?S) \<noteq> c" using q(1) ql by simp
        show ?thesis
        proof (cases "AppendCertsFromPEM e2 k'")
          case False
          then show ?thesis using f by simp
        next
          case True
          then obtain s2 where
            r: "newHTTPClient e2 p2 b ?S = (Inr (ClientPtr (next_client ?S)), s2)"
            and b2: "built_from s2 (ClientPtr (next_client ?S)) k'"
            and c2: "cache_of b s2 k' = Some (ClientPtr (next_client ?S))"
            and keep: "\<forall>k0 c0. cache_of b ?S k0 = Some c0 \<longrightarrow> cache_of b s2 k0 = Some c0"
            using g by blast
          have "cache_of b s2 k = Some c" using keep cS by blast
          then show ?thesis using r fresh b2 c2 by simp
        qed
      qed
    qed
    show ?thesis using built diff by blast
  qed
  show ?thesis using cached same other by blast
qed

lemma example_first_client:
  "fst (newHTTPClient env_example ''/etc/ca.crt'' True state_init) = Inr (ClientPtr 0)"
  by (simp add: newHTTPClient_def env_example_def state_init_def new_client_def)

text \<open>
  The witness: the CA bundle \<open>PEM-A\<close> is read from \<open>/etc/ca.crt\<close>; after a failed call
  on garbage, the copy of the bundle under another path gives the same client; the
  bundle \<open>PEM-B\<close>, once it has replaced \<open>PEM-A\<close> under \<open>/etc/ca.crt\<close>, gives another
  one.
\<close>

theorem newHTTPClient_same_bytes_same_client_witness:
  "ReadFile env_example ''/etc/ca.crt'' = Some ''PEM-A''
   \<and> ReadFile env_garbage ''/etc/ca.crt'' = Some ''garbage''
   \<and> ReadFile env_example ''/mnt/ca-copy.crt'' = Some ''PEM-A''
   \<and> ReadFile env_rotated ''/etc/ca.crt'' = Some ''PEM-B''
   \<and> fst (newHTTPClient env_example ''/etc/ca.crt'' True state_init) = Inr (ClientPtr 0)
   \<and> cache_of True (snd (newHTTPClient env_example ''/etc/ca.crt'' True state_init)) ''PEM-A''
     = Some (ClientPtr 0)
   \<and> newHTTPClient env_example ''/mnt/ca-copy.crt'' True
        (run_calls [(env_garbage, ''/etc/ca.crt'', True)]
           (snd (newHTTPClient env_example ''/etc/ca.crt'' True state_init)))
     = (Inr (ClientPtr 0),
        run_calls [(env_garbage, ''/etc/ca.crt'', True)]
           (snd (newHTTPClient env_example ''/etc/ca.crt'' True state_init)))
   \<and> fst (newHTTPClient env_rotated ''/etc/ca.crt'' True
        (run_calls [(env_garbage, ''/etc/ca.crt'', True)]
           (snd (newHTTPClient env_example ''/etc/ca.crt'' True state_init))))
     \<noteq> Inr (ClientPtr 0)
   \<and> fst (newHTTPClient env_rotated ''/etc/ca.crt'' True
        (run_calls [(env_garbage, ''/etc/ca.crt'', True)]
           (snd (newHTTPClient env_example ''/etc/ca.crt'' True state_init))))
     = Inr (ClientPtr 1)"
proof -
  let ?s1 = "snd (newHTTPClient env_example ''/etc/ca.crt'' True state_init)"
  let ?cs = "[(env_garbage, ''/etc/ca.crt'', True)]"
  have h1: "newHTTPClient env_example ''/etc/ca.crt'' True state_init = (Inr (ClientPtr 0), ?s1)"
    using example_first_client by (simp add: prod_eq_iff)
  have h2: "''/etc/ca.crt'' \<noteq> []" and h4: "''/mnt/ca-copy.crt'' \<noteq> []" by simp_all
  have h3: "ReadFile env_example ''/etc/ca.crt'' = Some ''PEM-A''"
    and h5: "ReadFile env_example ''/mnt/ca-copy.crt'' = Some ''PEM-A''"
    and h6: "ReadFile env_garbage ''/etc/ca.crt'' = Some ''garbage''"
    and h7: "ReadFile env_rotated ''/etc/ca.crt'' = Some ''PEM-B''"
    by (simp_all add: env_example_def env_garbage_def env_rotated_def)
  have h8: "''PEM-B'' \<noteq> ''PEM-A''" by simp
  have reach: "\<exists>cs0. state_init = run_calls cs0 state_init"
    by (rule exI [of _ "[]"]) simp
  note t = newHTTPClient_same_bytes_same_client [OF h1 h2 h3]
  have a: "cache_of True ?s1 ''PEM-A'' = Some (ClientPtr 0)" using t by blast
  have b: "newHTTPClient env_example ''/mnt/ca-copy.crt'' True (run_calls ?cs ?s1)
           = (Inr (ClientPtr 0), run_calls ?cs ?s1)"
    using t h4 h5 by blast
  have c: "fst (newHTTPClient env_rotated ''/etc/ca.crt'' True (run_calls ?cs ?s1))
           \<noteq> Inr (ClientPtr 0)"
    using t reach h2 h7 h8 by blast
  have d: "fst (newHTTPClient env_rotated ''/etc/ca.crt'' True (run_calls ?cs ?s1))
           = Inr (ClientPtr 1)"
    by (simp add: newHTTPClient_def env_example_def env_garbage_def env_rotated_def
          state_init_def new_client_def Let_def)
  show ?thesis using h3 h5 h6 h7 example_first_client a b c d by simp
qed

text \<open>
  C10. A call of \<open>newHTTPClient\<close> that returns an error leaves the whole state, and
  so both cache maps, as it was, in whatever state it is made. In a state reached from
  the empty caches by any history of calls, every entry of either cache was stored by
  a call of the history that read the entry's key from a file and returned the
  entry's client without error. A later call on the same path, once the file holds
  bytes \<open>k'\<close> with a certificate, returns a client without error instead of the earlier
  failure; in a state reached from the empty caches that client was built from \<open>k'\<close>.
\<close>

theorem newHTTPClient_failure_not_cached:
  assumes "newHTTPClient e p b s = (Inl err, s')"
  shows "s' = s
         \<and> httpClientCache s' = httpClientCache s
         \<and> httpClientCacheSystemRoots s' = httpClientCacheSystemRoots s
         \<and> (\<forall>cs b' k c. cache_of b' (run_calls cs state_init) k = Some c
              \<longrightarrow> succeeded_with cs state_init b' k c)
         \<and> (\<forall>(e'::env) k'. ReadFile e' p = Some k' \<and> AppendCertsFromPEM e' k'
              \<longrightarrow> (\<exists>c s''. newHTTPClient e' p b s' = (Inr c, s'')
                           \<and> ((\<exists>cs. s = run_calls cs state_init) \<longrightarrow> built_from s'' c k')))"
proof -
  have same: "s' = s"
    using assms by (rule newHTTPClient_error_state)
  have path: "p \<noteq> []"
    using assms by (rule newHTTPClient_error_path)
  have origin: "\<forall>cs b' k c. cache_of b' (run_calls cs state_init) k = Some c
              \<longrightarrow> succeeded_with cs state_init b' k c"
  proof (intro allI impI)
    fix cs b' k c assume "cache_of b' (run_calls cs state_init) k = Some c"
    then have "cache_of b' state_init k = Some c \<or> succeeded_with cs state_init b' k c"
      by (rule run_calls_cache_origin)
    then show "succeeded_with cs state_init b' k c"
      by (auto simp: state_init_def cache_of_def split: if_splits)
  qed
  have later: "\<forall>(e'::env) k'. ReadFile e' p = Some k' \<and> AppendCertsFromPEM e' k'
              \<longrightarrow> (\<exists>c s''. newHTTPClient e' p b s' = (Inr c, s'')
                           \<and> ((\<exists>cs. s = run_calls cs state_init) \<longrightarrow> built_from s'' c k'))"
  proof (intro allI impI)
    fix e' :: env and k' assume h: "ReadFile e' p = Some k' \<and> AppendCertsFromPEM e' k'"
    show "\<exists>c s''. newHTTPClient e' p b s' = (Inr c, s'')
                           \<and> ((\<exists>cs. s = run_calls cs state_init) \<longrightarrow> built_from s'' c k')"
    proof (cases "\<exists>cs. s = run_calls cs state_init")
      case True
      then obtain cs where cs: "s = run_calls cs state_init" by blast
      have inv: "\<forall>b k c. cache_of b s' k = Some c \<longrightarrow> built_from s' c k"
        unfolding same cs using run_calls_heap_inv state_init_inv by blast
      show ?thesis using newHTTPClient_builds [OF inv path] h by blast
    next
      case False
      obtain c s'' where "newHTTPClient e' p b s' = (Inr c, s'')"
        using newHTTPClient_succeeds [OF path, of e' k' b s'] h by blast
      then show ?thesis using False by blast
    qed
  qed
  show ?thesis using same origin later by simp
qed

theorem newHTTPClient_failure_not_cached_witness:
  "newHTTPClient env_garbage ''/etc/ca.crt'' True state_init
     = (Inl (ErrNoCAData ''/etc/ca.crt''), state_init)
   \<and> (\<exists>c s''. newHTTPClient env_example ''/etc/ca.crt'' True state_init = (Inr c, s'')
               \<and> built_from s'' c ''PEM-A'')"
proof -
  have h: "newHTTPClient env_garbage ''/etc/ca.crt'' True state_init
             = (Inl (ErrNoCAData ''/etc/ca.crt''), state_init)"
    by (simp add: newHTTPClient_def env_garbage_def env_example_def state_init_def)
  have r: "ReadFile env_example ''/etc/ca.crt'' = Some ''PEM-A''
           \<and> AppendCertsFromPEM env_example ''PEM-A''"
    by (simp add: env_example_def)
  have reach: "\<exists>cs. state_init = run_calls cs state_init"
    by (rule exI [of _ "[]"]) simp
  from newHTTPClient_failure_not_cached [OF h] r reach
  have "\<exists>c s''. newHTTPClient env_example ''/etc/ca.crt'' True state_init = (Inr c, s'')
               \<and> built_from s'' c ''PEM-A''"
    by blast
  then show ?thesis using h by simp
qed

section \<open>Properties of \<open>VerifySourceOrigin\<close>\<close>

lemma strings_HasPrefix_prefix: "strings_HasPrefix s pre \<longleftrightarrow> prefix pre s"
  by (auto simp: strings_HasPrefix_def prefix_def)
     (metis append_eq_conv_conj length_append le_add1)+

lemma unstarted_example_built:
  "fst (newUnstartedAuthenticator env_example config_example state_init)
   = Inr (unstarted_example [])"
  by code_simp

lemma unstarted_example_console_built:
  "fst (newUnstartedAuthenticator env_example
          (config_example\<lparr> RefererPath := ''https://console.example/console'' \<rparr>) state_init)
   = Inr (unstarted_example ''/console'')"
  by code_simp

lemma parse_pods_example:
  "url_Parse ''https://console.example/console/k8s/pods''
   = Inr (url_zero\<lparr> Scheme := ''https'', Host := ''console.example'',
                     Path := ''/console/k8s/pods'' \<rparr>)"
  by code_simp

lemma parse_con_example:
  "url_Parse ''https://console.example/con''
   = Inr (url_zero\<lparr> Scheme := ''https'', Host := ''console.example'', Path := ''/con'' \<rparr>)"
  by code_simp

text \<open>
  C1, as stated, fails. The console is configured with the referer
  \<open>https://console.example/console\<close>; a request comes with
  \<open>Referer: https://console.example/console/k8s/pods\<close>. The path of the header,
  \<open>/console/k8s/pods\<close>, is not a prefix of the configured path \<open>/console\<close>, and
  \<open>VerifySourceOrigin\<close> returns nil all the same: the code asks for the configured path
  to be a prefix of the header's path (\<open>strings.HasPrefix(u.Path, a.refererURL.Path)\<close>).
\<close>

theorem VerifySourceOrigin_path_prefix_counterexample:
  "fst (newUnstartedAuthenticator env_example
          (config_example\<lparr> RefererPath := ''https://console.example/console'' \<rparr>) state_init)
     = Inr (unstarted_example ''/console'')
   \<and> Path (refererURL (unstarted_example ''/console'')) = ''/console''
   \<and> getSourceOrigin (request_with_header ''Referer'' ''https://console.example/console/k8s/pods'')
     = ''https://console.example/console/k8s/pods''
   \<and> url_Parse ''https://console.example/console/k8s/pods''
     = Inr (url_zero\<lparr> Scheme := ''https'', Host := ''console.example'',
                       Path := ''/console/k8s/pods'' \<rparr>)
   \<and> \<not> prefix ''/console/k8s/pods'' ''/console''
   \<and> VerifySourceOrigin (unstarted_example ''/console'')
        (request_with_header ''Referer'' ''https://console.example/console/k8s/pods'') = None"
proof -
  have "getSourceOrigin (request_with_header ''Referer'' ''https://console.example/console/k8s/pods'')
     = ''https://console.example/console/k8s/pods''"
    by code_simp
  moreover have "VerifySourceOrigin (unstarted_example ''/console'')
        (request_with_header ''Referer'' ''https://console.example/console/k8s/pods'') = None"
    by code_simp
  moreover have "Path (refererURL (unstarted_example ''/console'')) = ''/console''"
    by (simp add: unstarted_example_def)
  moreover have "\<not> prefix ''/console/k8s/pods'' ''/console''"
    by simp
  ultimately show ?thesis
    using unstarted_example_console_built parse_pods_example by simp
qed

text \<open>
  C1, amended. The source is the \<open>Origin\<close> header, or the \<open>Referer\<close> header when
  \<open>Origin\<close> is empty or absent. \<open>VerifySourceOrigin\<close> returns nil exactly when the
  source is not empty and parses as a URL whose hostname, port and scheme equal those
  of the configured referer URL and whose path is empty or starts with the configured
  referer path (the configured path is a prefix of the header's path). With neither
  header it returns an error. For the example console, built by
  \<open>newUnstartedAuthenticator\<close> from the referer \<open>https://console.example\<close>, the header
  \<open>Origin: https://evil.example\<close> gives an error and \<open>Origin: https://console.example\<close>
  gives nil.
\<close>

theorem VerifySourceOrigin_nil_iff:
  "(VerifySourceOrigin a r = None \<longleftrightarrow>
      getSourceOrigin r \<noteq> [] \<and>
      (\<exists>u. url_Parse (getSourceOrigin r) = Inr u
           \<and> Hostname u = Hostname (refererURL a)
           \<and> Port u = Port (refererURL a)
           \<and> Scheme u = Scheme (refererURL a)
           \<and> (Path u = [] \<or> prefix (Path (refererURL a)) (Path u))))
   \<and> getSourceOrigin r
       = (if Header_Get r ''Origin'' \<noteq> [] then Header_Get r ''Origin''
          else Header_Get r ''Referer'')
   \<and> (Header_Get r ''Origin'' = [] \<and> Header_Get r ''Referer'' = []
        \<longrightarrow> VerifySourceOrigin a r = Some ErrNoOriginOrReferer)
   \<and> fst (newUnstartedAuthenticator env_example config_example state_init)
       = Inr (unstarted_example [])
   \<and> VerifySourceOrigin (unstarted_example [])
        (request_with_header ''Origin'' ''https://evil.example'')
       = Some (ErrInvalidOrigin ''https://evil.example'')
   \<and> VerifySourceOrigin (unstarted_example [])
        (request_with_header ''Origin'' ''https://console.example'') = None"
proof -
  have iff: "VerifySourceOrigin a r = None \<longleftrightarrow>
      getSourceOrigin r \<noteq> [] \<and>
      (\<exists>u. url_Parse (getSourceOrigin r) = Inr u
           \<and> Hostname u = Hostname (refererURL a)
           \<and> Port u = Port (refererURL a)
           \<and> Scheme u = Scheme (refererURL a)
           \<and> (Path u = [] \<or> prefix (Path (refererURL a)) (Path u)))"
    by (auto simp: VerifySourceOrigin_def Let_def strings_HasPrefix_prefix split: sum.splits)
  have src: "getSourceOrigin r
       = (if Header_Get r ''Origin'' \<noteq> [] then Header_Get r ''Origin''
          else Header_Get r ''Referer'')"
    by (simp add: getSourceOrigin_def Referer_def Let_def)
  have none: "Header_Get r ''Origin'' = [] \<and> Header_Get r ''Referer'' = []
        \<longrightarrow> VerifySourceOrigin a r = Some ErrNoOriginOrReferer"
    by (simp add: VerifySourceOrigin_def getSourceOrigin_def Referer_def Let_def)
  have evil: "VerifySourceOrigin (unstarted_example [])
        (request_with_header ''Origin'' ''https://evil.example'')
       = Some (ErrInvalidOrigin ''https://evil.example'')"
    by code_simp
  have good: "VerifySourceOrigin (unstarted_example [])
        (request_with_header ''Origin'' ''https://console.example'') = None"
    by code_simp
  show ?thesis
    using iff src none evil good unstarted_example_built by blast
qed

theorem VerifySourceOrigin_nil_iff_witness:
  "VerifySourceOrigin (unstarted_example ''/console'')
     (request_with_header ''Referer'' ''https://console.example/con'') \<noteq> None
   \<and> Header_Get request_zero ''Origin'' = []
   \<and> Header_Get request_zero ''Referer'' = []
   \<and> VerifySourceOrigin (unstarted_example ''/console'') request_zero
       = Some ErrNoOriginOrReferer"
proof -
  let ?a = "unstarted_example ''/console''"
  let ?r = "request_with_header ''Referer'' ''https://console.example/con''"
  have src: "getSourceOrigin ?r = ''https://console.example/con''"
    by code_simp
  have h: "Header_Get request_zero ''Origin'' = [] \<and> Header_Get request_zero ''Referer'' = []"
    by (simp add: Header_Get_def request_zero_def)
  have "VerifySourceOrigin ?a ?r \<noteq> None"
  proof
    assume "VerifySourceOrigin ?a ?r = None"
    then obtain u where u: "url_Parse (getSourceOrigin ?r) = Inr u"
      and p: "Path u = [] \<or> prefix (Path (refererURL ?a)) (Path u)"
      using VerifySourceOrigin_nil_iff [of ?a ?r] by blast
    from u src parse_con_example have "Path u = ''/con''"
      by (auto simp: url_zero_def)
    with p show False by (simp add: unstarted_example_def url_zero_def)
  qed
  moreover have "VerifySourceOrigin ?a request_zero = Some ErrNoOriginOrReferer"
    using VerifySourceOrigin_nil_iff [of ?a request_zero] h by blast
  ultimately show ?thesis using h by simp
qed

section \<open>Properties of the OpenShift discovery\<close>

lemma sdiv_100_eq_2: "(x::int) sdiv 100 = 2 \<longleftrightarrow> 200 \<le> x \<and> x \<le> 299"
proof (cases "0 \<le> x")
  case True
  then show ?thesis by (auto simp: signed_divide_int_def sgn_if)
next
  case False
  then have "x sdiv 100 \<le> 0"
    by (auto simp: signed_divide_int_def sgn_if)
  then show ?thesis using False by auto
qed

lemma URL_String_nonempty: "Scheme u \<noteq> [] \<Longrightarrow> URL_String u \<noteq> []"
  by (simp add: URL_String_def Let_def)

lemma validateAbsURL_None_iff: "validateAbsURL v = None \<longleftrightarrow> absolute_url v"
  using URL_String_nonempty
  by (auto simp: validateAbsURL_def absolute_url_def split: sum.splits)

lemma newOpenShiftAuth_success:
  assumes "newOpenShiftAuth e c = Inr (ep, osa)"
  shows "\<exists>resp md. Do e (k8sClient c) ''GET'' (wellKnownURL_of c) = Some resp
          \<and> StatusCode resp sdiv 100 = 2 \<and> decoded resp = Some md
          \<and> validateAbsURL (md_Issuer md) = None
          \<and> validateAbsURL (md_Auth md) = None
          \<and> validateAbsURL (md_Token md) = None
          \<and> ep = \<lparr> AuthURL = md_Auth md, TokenURL = md_Token md \<rparr>
          \<and> osa = \<lparr> o_cookiePath = oc_cookiePath c,
                     o_secureCookies = oc_secureCookies c,
                     o_specialURLs = \<lparr> RequestToken = SingleJoiningSlash (md_Token md) ''/request'',
                                       KubeAdminLogout = SingleJoiningSlash (md_Issuer md) ''/logout'' \<rparr>,
                     o_clusterName = oc_clusterName c,
                     o_cookieDomain = oc_cookieDomain c \<rparr>"
  using assms
  by (auto simp: newOpenShiftAuth_def wellKnownURL_of_def Let_def
           split: sum.splits option.splits if_splits)

lemma newOpenShiftAuth_example:
  "newOpenShiftAuth env_example openShiftConfig_example
   = Inr (\<lparr> AuthURL = ''https://oauth.example/authorize'',
            TokenURL = ''https://oauth.example/token'' \<rparr>, osa_example)"
  by code_simp

lemma example_special_urls:
  "SingleJoiningSlash (md_Token metadata_example) ''/request'' = ''https://oauth.example/token/request''
   \<and> SingleJoiningSlash (md_Issuer metadata_example) ''/logout'' = ''https://oauth.example/logout''"
  by code_simp

text \<open>
  C6. Whenever \<open>newOpenShiftAuth\<close> returns without error, the request for the well-known
  URL was answered with a status from 200 to 299, the body decoded, and each of the
  decoded \<open>issuer\<close>, \<open>authorization_endpoint\<close> and \<open>token_endpoint\<close> is an absolute URL
  (it parses, with a non-empty scheme and a non-empty host); the endpoint returned
  holds the decoded authorization and token URLs, and the special URLs are the token
  endpoint joined with \<open>/request\<close> and the issuer joined with \<open>/logout\<close>. For the
  discovery document of the spec's scenario they are
  \<open>https://oauth.example/token/request\<close> and \<open>https://oauth.example/logout\<close>.
\<close>

theorem newOpenShiftAuth_requires_valid_discovery:
  assumes "newOpenShiftAuth e c = Inr (ep, osa)"
  shows "\<exists>resp md. Do e (k8sClient c) ''GET'' (wellKnownURL_of c) = Some resp
          \<and> 200 \<le> StatusCode resp \<and> StatusCode resp \<le> 299
          \<and> decoded resp = Some md
          \<and> absolute_url (md_Issuer md)
          \<and> absolute_url (md_Auth md)
          \<and> absolute_url (md_Token md)
          \<and> ep = \<lparr> AuthURL = md_Auth md, TokenURL = md_Token md \<rparr>
          \<and> getSpecialURLs osa
              = \<lparr> RequestToken = SingleJoiningSlash (md_Token md) ''/request'',
                  KubeAdminLogout = SingleJoiningSlash (md_Issuer md) ''/logout'' \<rparr>
          \<and> (md = metadata_example \<longrightarrow>
                getSpecialURLs osa
                = \<lparr> RequestToken = ''https://oauth.example/token/request'',
                    KubeAdminLogout = ''https://oauth.example/logout'' \<rparr>)"
proof -
  from newOpenShiftAuth_success [OF assms] obtain resp md where
    d: "Do e (k8sClient c) ''GET'' (wellKnownURL_of c) = Some resp"
    and st: "StatusCode resp sdiv 100 = 2"
    and dec: "decoded resp = Some md"
    and v: "validateAbsURL (md_Issuer md) = None" "validateAbsURL (md_Auth md) = None"
           "validateAbsURL (md_Token md) = None"
    and ep: "ep = \<lparr> AuthURL = md_Auth md, TokenURL = md_Token md \<rparr>"
    and osa: "osa = \<lparr> o_cookiePath = oc_cookiePath c,
                     o_secureCookies = oc_secureCookies c,
                     o_specialURLs = \<lparr> RequestToken = SingleJoiningSlash (md_Token md) ''/request'',
                                       KubeAdminLogout = SingleJoiningSlash (md_Issuer md) ''/logout'' \<rparr>,
                     o_clusterName = oc_clusterName c,
                     o_cookieDomain = oc_cookieDomain c \<rparr>"
    by blast
  have range: "200 \<le> StatusCode resp \<and> StatusCode resp \<le> 299"
    using st by (simp add: sdiv_100_eq_2)
  have abs: "absolute_url (md_Issuer md) \<and> absolute_url (md_Auth md) \<and> absolute_url (md_Token md)"
    using v by (simp add: validateAbsURL_None_iff)
  have special: "getSpecialURLs osa
              = \<lparr> RequestToken = SingleJoiningSlash (md_Token md) ''/request'',
                  KubeAdminLogout = SingleJoiningSlash (md_Issuer md) ''/logout'' \<rparr>"
    using osa by (simp add: getSpecialURLs_def)
  have ex: "md = metadata_example \<longrightarrow>
                getSpecialURLs osa
                = \<lparr> RequestToken = ''https://oauth.example/token/request'',
                    KubeAdminLogout = ''https://oauth.example/logout'' \<rparr>"
    using special example_special_urls by simp
  show ?thesis
    using d range dec abs ep special ex by blast
qed

theorem newOpenShiftAuth_requires_valid_discovery_witness:
  "newOpenShiftAuth env_example openShiftConfig_example
     = Inr (\<lparr> AuthURL = ''https://oauth.example/authorize'',
              TokenURL = ''https://oauth.example/token'' \<rparr>, osa_example)
   \<and> Do env_example (ClientPtr 0) ''GET'' (wellKnownURL_of openShiftConfig_example)
     = Some \<lparr> StatusCode = 200, decoded = Some metadata_example \<rparr>
   \<and> getSpecialURLs osa_example
     = \<lparr> RequestToken = ''https://oauth.example/token/request'',
         KubeAdminLogout = ''https://oauth.example/logout'' \<rparr>"
proof -
  have d: "Do env_example (ClientPtr 0) ''GET'' (wellKnownURL_of openShiftConfig_example)
     = Some \<lparr> StatusCode = 200, decoded = Some metadata_example \<rparr>"
    by code_simp
  have k: "k8sClient openShiftConfig_example = ClientPtr 0"
    by (simp add: openShiftConfig_example_def)
  from newOpenShiftAuth_requires_valid_discovery [OF newOpenShiftAuth_example]
  obtain resp md where
    "Do env_example (k8sClient openShiftConfig_example) ''GET''
        (wellKnownURL_of openShiftConfig_example) = Some resp"
    and "decoded resp = Some md"
    and "md = metadata_example \<longrightarrow>
                getSpecialURLs osa_example
                = \<lparr> RequestToken = ''https://oauth.example/token/request'',
                    KubeAdminLogout = ''https://oauth.example/logout'' \<rparr>"
    by blast
  then have "getSpecialURLs osa_example
     = \<lparr> RequestToken = ''https://oauth.example/token/request'',
         KubeAdminLogout = ''https://oauth.example/logout'' \<rparr>"
    using d k by auto
  then show ?thesis using d newOpenShiftAuth_example by simp
qed

section \<open>Properties of \<open>float64\<close> rounding and of \<open>Seconds\<close>\<close>

lemma rhe_lower: "\<lfloor>y\<rfloor> \<le> round_half_even y"
  by (simp add: round_half_even_def Let_def)

lemma rhe_upper: "round_half_even y \<le> \<lceil>y\<rceil>"
proof (cases "y - of_int \<lfloor>y\<rfloor> < 1 / 2")
  case True
  then have "round_half_even y = \<lfloor>y\<rfloor>" by (simp add: round_half_even_def Let_def)
  then show ?thesis by (simp add: floor_le_ceiling)
next
  case False
  then have "of_int \<lfloor>y\<rfloor> \<noteq> y" by auto
  then have "\<lceil>y\<rceil> = \<lfloor>y\<rfloor> + 1" by (simp add: ceiling_altdef)
  moreover have "round_half_even y \<le> \<lfloor>y\<rfloor> + 1" by (simp add: round_half_even_def Let_def)
  ultimately show ?thesis by simp
qed

lemma rhe_of_int: "round_half_even (of_int m) = m"
  by (simp add: round_half_even_def Let_def)

lemma rhe_below_half:
  assumes "y < of_int N - 1 / 2"
  shows "round_half_even y \<le> N - 1"
proof -
  have fl: "\<lfloor>y\<rfloor> \<le> N - 1" using assms by linarith
  show ?thesis
  proof (cases "\<lfloor>y\<rfloor> = N - 1")
    case True
    then have "y - of_int \<lfloor>y\<rfloor> < 1 / 2" using assms by simp
    then show ?thesis using True by (simp add: round_half_even_def Let_def)
  next
    case False
    then have "\<lfloor>y\<rfloor> + 1 \<le> N - 1" using fl by simp
    moreover have "round_half_even y \<le> \<lfloor>y\<rfloor> + 1" by (simp add: round_half_even_def Let_def)
    ultimately show ?thesis by simp
  qed
qed

lemma quotient_lower:
  assumes "0 < x" and "quotient_of x = (p, q)"
  shows "power_int 2 (bitlen p - bitlen q - 1) \<le> x"
proof -
  have q: "0 < q" using assms(2) by (rule quotient_of_denom_pos)
  have x: "x = of_int p / of_int q" using assms(2) by (rule quotient_of_div)
  have p: "0 < p" using assms(1) q unfolding x by (simp add: zero_less_divide_iff)
  have bp: "2 ^ nat (bitlen p - 1) \<le> p" using bitlen_bounds [OF p] by simp
  have bq: "q < 2 ^ nat (bitlen q)" using bitlen_bounds [OF q] by simp
  have p1: "1 \<le> bitlen p" using p by (simp add: bitlen_alt_def)
  have q0: "0 \<le> bitlen q" by (rule bitlen_nonneg)
  have "power_int (2::rat) (bitlen p - bitlen q - 1)
        = power_int 2 (bitlen p - 1) / power_int 2 (bitlen q)"
    using power_int_diff [of "2::rat" "bitlen p - 1" "bitlen q"] by (simp add: algebra_simps)
  also have "\<dots> = 2 ^ nat (bitlen p - 1) / 2 ^ nat (bitlen q)"
    using p1 q0 by (simp add: power_int_def)
  also have "\<dots> \<le> of_int p / of_int q"
  proof (rule frac_le)
    show "(0::rat) \<le> of_int p" using p by simp
    show "(2::rat) ^ nat (bitlen p - 1) \<le> of_int p"
      using bp by (metis of_int_le_iff of_int_numeral of_int_power)
    show "(0::rat) < of_int q" using q by simp
    show "(of_int q :: rat) \<le> 2 ^ nat (bitlen q)"
      using bq by (metis less_imp_le of_int_le_iff of_int_numeral of_int_power)
  qed
  finally show ?thesis unfolding x .
qed

lemma quotient_upper:
  assumes "0 < x" and "quotient_of x = (p, q)"
  shows "x < power_int 2 (bitlen p - bitlen q + 1)"
proof -
  have q: "0 < q" using assms(2) by (rule quotient_of_denom_pos)
  have x: "x = of_int p / of_int q" using assms(2) by (rule quotient_of_div)
  have p: "0 < p" using assms(1) q unfolding x by (simp add: zero_less_divide_iff)
  have bp: "p < 2 ^ nat (bitlen p)" using bitlen_bounds [OF p] by simp
  have bq: "2 ^ nat (bitlen q - 1) \<le> q" using bitlen_bounds [OF q] by simp
  have p0: "0 \<le> bitlen p" by (rule bitlen_nonneg)
  have q1: "1 \<le> bitlen q" using q by (simp add: bitlen_alt_def)
  have "of_int p / of_int q < (2::rat) ^ nat (bitlen p) / 2 ^ nat (bitlen q - 1)"
  proof (rule frac_less)
    show "(0::rat) \<le> of_int p" using p by simp
    show "(of_int p :: rat) < 2 ^ nat (bitlen p)"
      using bp by (metis of_int_less_iff of_int_numeral of_int_power)
    show "(0::rat) < 2 ^ nat (bitlen q - 1)" by simp
    show "(2::rat) ^ nat (bitlen q - 1) \<le> of_int q"
      using bq by (metis of_int_le_iff of_int_numeral of_int_power)
  qed
  also have "\<dots> = power_int 2 (bitlen p) / power_int 2 (bitlen q - 1)"
    using p0 q1 by (simp add: power_int_def)
  also have "\<dots> = power_int (2::rat) (bitlen p - bitlen q + 1)"
    using power_int_diff [of "2::rat" "bitlen p" "bitlen q - 1"] by (simp add: algebra_simps)
  finally show ?thesis unfolding x .
qed

lemma floor_log2_correct:
  assumes "0 < x"
  shows "power_int 2 (floor_log2 x) \<le> x \<and> x < power_int 2 (floor_log2 x + 1)"
proof -
  obtain p q where pq: "quotient_of x = (p, q)" by (cases "quotient_of x")
  show ?thesis
    using quotient_lower [OF assms pq] quotient_upper [OF assms pq] pq
    by (auto simp: floor_log2_def Let_def)
qed

lemma floor_log2_less:
  assumes "0 < x" and "x < power_int 2 j"
  shows "floor_log2 x < j"
proof (rule ccontr)
  assume "\<not> floor_log2 x < j"
  then have "j \<le> floor_log2 x" by simp
  then have "power_int (2::rat) j \<le> power_int 2 (floor_log2 x)"
    by (rule power_int_increasing) simp
  then show False using floor_log2_correct [OF assms(1)] assms(2) by simp
qed

lemma float64_exponent_le:
  assumes "x \<noteq> 0" and "\<bar>x\<bar> < power_int 2 (t + 53)" and "- 1074 \<le> t"
  shows "float64_exponent x \<le> t"
proof -
  have "floor_log2 \<bar>x\<bar> < t + 53"
    using assms(1,2) by (intro floor_log2_less) simp_all
  then show ?thesis using assms(3) by (simp add: float64_exponent_def)
qed

lemma multiple_of_unit:
  assumes "e \<le> t"
  shows "of_int m * power_int (2::rat) t / power_int 2 e = of_int (m * 2 ^ nat (t - e))"
proof -
  have "power_int (2::rat) t / power_int 2 e = power_int 2 (t - e)"
    by (simp add: power_int_diff)
  also have "\<dots> = 2 ^ nat (t - e)" using assms by (simp add: power_int_def)
  finally have "of_int m * (power_int (2::rat) t / power_int 2 e) = of_int m * 2 ^ nat (t - e)"
    by simp
  then show ?thesis by simp
qed

lemma float64_round_pos:
  assumes "0 < x"
  shows "float64_round x
         = of_int (round_half_even (x / power_int 2 (float64_exponent x)))
           * power_int 2 (float64_exponent x)"
  using assms by (simp add: float64_round_def Let_def)

lemma float64_round_lower:
  assumes "0 < x" and "float64_exponent x \<le> t" and "of_int m * power_int 2 t \<le> x"
  shows "of_int m * power_int 2 t \<le> float64_round x"
proof -
  let ?e = "float64_exponent x"
  let ?M = "m * 2 ^ nat (t - ?e)"
  have pos: "(0::rat) < power_int 2 ?e" by (simp add: zero_less_power_int)
  have M: "of_int m * power_int (2::rat) t / power_int 2 ?e = of_int ?M"
    using assms(2) by (rule multiple_of_unit)
  have "of_int m * power_int 2 t / power_int 2 ?e \<le> x / power_int 2 ?e"
    using assms(3) pos by (simp add: divide_right_mono)
  then have "of_int ?M \<le> x / power_int 2 ?e" unfolding M .
  then have "?M \<le> \<lfloor>x / power_int 2 ?e\<rfloor>" by (simp add: le_floor_iff)
  then have "?M \<le> round_half_even (x / power_int 2 ?e)"
    using rhe_lower [of "x / power_int 2 ?e"] by simp
  then have "(of_int ?M :: rat) \<le> of_int (round_half_even (x / power_int 2 ?e))"
    by (simp only: of_int_le_iff)
  then have a: "(of_int ?M :: rat) * power_int 2 ?e
             \<le> of_int (round_half_even (x / power_int 2 ?e)) * power_int 2 ?e"
    using pos by (intro mult_right_mono) simp_all
  have b: "(of_int ?M :: rat) * power_int 2 ?e = of_int m * power_int 2 t"
  proof -
    have "(of_int ?M :: rat) * power_int 2 ?e
          = of_int m * power_int 2 t / power_int 2 ?e * power_int 2 ?e"
      by (simp only: M)
    also have "\<dots> = of_int m * power_int 2 t" using pos by simp
    finally show ?thesis .
  qed
  show ?thesis
    unfolding float64_round_pos [OF assms(1)] using a unfolding b .
qed

lemma float64_round_upper:
  assumes "0 < x" and "float64_exponent x \<le> t" and "x \<le> of_int m * power_int 2 t"
  shows "float64_round x \<le> of_int m * power_int 2 t"
proof -
  let ?e = "float64_exponent x"
  let ?M = "m * 2 ^ nat (t - ?e)"
  have pos: "(0::rat) < power_int 2 ?e" by (simp add: zero_less_power_int)
  have M: "of_int m * power_int (2::rat) t / power_int 2 ?e = of_int ?M"
    using assms(2) by (rule multiple_of_unit)
  have "x / power_int 2 ?e \<le> of_int m * power_int 2 t / power_int 2 ?e"
    using assms(3) pos by (simp add: divide_right_mono)
  then have "x / power_int 2 ?e \<le> of_int ?M" unfolding M .
  then have "\<lceil>x / power_int 2 ?e\<rceil> \<le> ?M" by (simp add: ceiling_le_iff)
  then have "round_half_even (x / power_int 2 ?e) \<le> ?M"
    using rhe_upper [of "x / power_int 2 ?e"] by simp
  then have "of_int (round_half_even (x / power_int 2 ?e)) \<le> (of_int ?M :: rat)"
    by (simp only: of_int_le_iff)
  then have a: "of_int (round_half_even (x / power_int 2 ?e)) * power_int 2 ?e
             \<le> (of_int ?M :: rat) * power_int 2 ?e"
    using pos by (intro mult_right_mono) simp_all
  have b: "(of_int ?M :: rat) * power_int 2 ?e = of_int m * power_int 2 t"
  proof -
    have "(of_int ?M :: rat) * power_int 2 ?e
          = of_int m * power_int 2 t / power_int 2 ?e * power_int 2 ?e"
      by (simp only: M)
    also have "\<dots> = of_int m * power_int 2 t" using pos by simp
    finally show ?thesis .
  qed
  show ?thesis
    unfolding float64_round_pos [OF assms(1)] using a unfolding b .
qed

lemma float64_round_neg: "float64_round (- x) = - float64_round x"
  by (simp add: float64_round_def float64_exponent_def Let_def)


lemma float64_round_of_int:
  assumes "\<bar>n\<bar> < 2 ^ 53"
  shows "float64_round (of_int n) = of_int n"
proof -
  have pos: "float64_round (of_int k) = of_int k" if k: "0 < k" "k < 2 ^ 53" for k :: int
  proof -
    let ?x = "of_int k :: rat"
    have x: "0 < ?x" using k by simp
    have "?x < 2 ^ 53" using k(2) by (metis of_int_less_iff of_int_numeral of_int_power)
    then have "\<bar>?x\<bar> < power_int 2 (0 + 53)" using x by (simp add: power_int_minus_divide)
    then have e: "float64_exponent ?x \<le> 0"
      using x by (intro float64_exponent_le) simp_all
    have "of_int k * power_int 2 0 \<le> float64_round ?x"
      using x e by (rule float64_round_lower) simp
    moreover have "float64_round ?x \<le> of_int k * power_int 2 0"
      using x e by (rule float64_round_upper) simp
    ultimately show ?thesis by simp
  qed
  consider "n = 0" | "0 < n" | "n < 0" by linarith
  then show ?thesis
  proof cases
    case 1
    then show ?thesis by (simp add: float64_round_def)
  next
    case 2
    then show ?thesis using pos [of n] assms by simp
  next
    case 3
    then have "float64_round (of_int (- n)) = of_int (- n)" using pos [of "- n"] assms by simp
    then show ?thesis using float64_round_neg [of "of_int n"] by simp
  qed
qed

text \<open>The largest fraction of a second, \<open>999999999 / 1e9\<close>, stays below \<open>1 - 2^-30 - 2^-40\<close>.\<close>

lemma fraction_bounds:
  assumes "0 \<le> n" and "n < 1000000000"
  shows "0 \<le> float64_div (float64_of_int n) 1000000000
         \<and> float64_div (float64_of_int n) 1000000000 \<le> 1 - 1 / 2 ^ 30 - 1 / 2 ^ 40"
proof (cases "n = 0")
  case True
  then show ?thesis by (simp add: float64_div_def float64_of_int_def float64_round_def)
next
  case False
  let ?x = "of_int n / 1000000000 :: rat"
  have "\<bar>n\<bar> < 2 ^ 53" using assms by simp
  then have n: "float64_of_int n = of_int n"
    unfolding float64_of_int_def by (rule float64_round_of_int)
  have x: "0 < ?x" using False assms by simp
  have x1: "?x \<le> 999999999 / 1000000000"
  proof -
    have "n \<le> 999999999" using assms by simp
    then have "(of_int n :: rat) \<le> 999999999" by (metis of_int_le_iff of_int_numeral)
    then show ?thesis by simp
  qed
  have "\<bar>?x\<bar> < power_int 2 (- 40 + 53)" using x x1 by (simp add: power_int_minus_divide)
  then have e: "float64_exponent ?x \<le> - 40"
    using x by (intro float64_exponent_le) simp_all
  have "of_int 0 * power_int 2 (- 40) \<le> float64_round ?x"
    using x e by (rule float64_round_lower) (use assms in simp)
  moreover have "float64_round ?x \<le> of_int (2 ^ 40 - 2 ^ 10 - 1) * power_int 2 (- 40)"
    using x e by (rule float64_round_upper) (use x1 in \<open>simp add: power_int_minus_divide\<close>)
  ultimately show ?thesis
    by (simp add: float64_div_def n power_int_minus_divide)
qed

lemma sdiv_nonneg: "0 \<le> d \<Longrightarrow> d sdiv Second = d div 1000000000"
  by (auto simp: signed_divide_int_def Second_def sgn_if)

lemma smod_nonneg: "0 \<le> d \<Longrightarrow> d smod Second = d mod 1000000000"
  by (auto simp: signed_modulo_int_def Second_def sgn_if)

lemma Seconds_nonneg:
  assumes "0 \<le> d"
  shows "Seconds d
         = float64_add (float64_of_int (d div 1000000000))
             (float64_div (float64_of_int (d mod 1000000000)) 1000000000)"
  using assms by (simp add: Seconds_def Let_def sdiv_nonneg smod_nonneg)

lemma Seconds_neg: "Seconds (- d) = - Seconds d"
proof -
  have 1: "(- d) sdiv Second = - (d sdiv Second)"
    by (simp add: signed_divide_int_def sgn_minus)
  have 2: "(- d) smod Second = - (d smod Second)"
    by (simp add: signed_modulo_int_def sgn_minus)
  show ?thesis
    by (simp add: Seconds_def Let_def 1 2 float64_add_def float64_div_def float64_of_int_def
          float64_round_neg flip: float64_round_neg [of "a + b" for a b])
qed

lemma Seconds_bounds:
  assumes "0 \<le> d" and "d \<le> 2 ^ 63"
  shows "of_int (d div 1000000000) \<le> Seconds d \<and> Seconds d \<le> of_int (d div 1000000000) + 1"
proof -
  let ?sec = "d div 1000000000"
  let ?f = "float64_div (float64_of_int (d mod 1000000000)) 1000000000"
  let ?x = "of_int ?sec + ?f :: rat"
  have sec0: "0 \<le> ?sec" using assms(1) by simp
  have sec1: "?sec < 2 ^ 34" using assms by simp
  have f: "0 \<le> ?f" "?f \<le> 1 - 1 / 2 ^ 30 - 1 / 2 ^ 40"
    using fraction_bounds [of "d mod 1000000000"] by simp_all
  have f1: "?f \<le> 1" using f(2) by simp
  have "\<bar>?sec\<bar> < 2 ^ 53" using sec0 sec1 by simp
  then have s: "float64_of_int ?sec = of_int ?sec"
    unfolding float64_of_int_def by (rule float64_round_of_int)
  have S: "Seconds d = float64_round ?x"
    using assms(1) by (simp add: Seconds_nonneg float64_add_def s)
  have secr: "(of_int ?sec :: rat) < 2 ^ 34"
    using sec1 by (metis of_int_less_iff of_int_numeral of_int_power)
  have secr0: "(0::rat) \<le> of_int ?sec" using sec0 by simp
  show ?thesis
  proof (cases "?x = 0")
    case True
    then have "of_int ?sec = (0::rat)" using f(1) secr0 by linarith
    then show ?thesis using True by (simp add: S float64_round_def)
  next
    case False
    then have x: "0 < ?x" using f(1) secr0 by linarith
    have "\<bar>?x\<bar> < power_int 2 (0 + 53)" using x f1 secr by (simp add: power_int_minus_divide)
    then have e: "float64_exponent ?x \<le> 0"
      using x by (intro float64_exponent_le) simp_all
    have "of_int ?sec * power_int 2 0 \<le> float64_round ?x"
      using x e by (rule float64_round_lower) (use f(1) in simp)
    moreover have "float64_round ?x \<le> of_int (?sec + 1) * power_int 2 0"
      using x e by (rule float64_round_upper) (use f1 in simp)
    ultimately show ?thesis by (simp add: S)
  qed
qed

lemma Seconds_below_next:
  assumes "0 \<le> d" and "d < 2 ^ 24 * 1000000000"
  shows "Seconds d < of_int (d div 1000000000) + 1"
proof -
  let ?sec = "d div 1000000000"
  let ?f = "float64_div (float64_of_int (d mod 1000000000)) 1000000000"
  let ?x = "of_int ?sec + ?f :: rat"
  have sec0: "0 \<le> ?sec" using assms(1) by simp
  have sec1: "?sec < 2 ^ 24" using assms by simp
  have f: "0 \<le> ?f" "?f \<le> 1 - 1 / 2 ^ 30 - 1 / 2 ^ 40"
    using fraction_bounds [of "d mod 1000000000"] by simp_all
  have "\<bar>?sec\<bar> < 2 ^ 53" using sec0 sec1 by simp
  then have s: "float64_of_int ?sec = of_int ?sec"
    unfolding float64_of_int_def by (rule float64_round_of_int)
  have S: "Seconds d = float64_round ?x"
    using assms(1) by (simp add: Seconds_nonneg float64_add_def s)
  have "?sec + 1 \<le> 2 ^ 24" using sec1 by simp
  then have secr: "(of_int ?sec :: rat) + 1 \<le> 2 ^ 24"
    by (metis of_int_le_iff of_int_numeral of_int_power of_int_add of_int_1)
  have secr0: "(0::rat) \<le> of_int ?sec" using sec0 by simp
  show ?thesis
  proof (cases "?x = 0")
    case True
    then show ?thesis using secr0 by (simp add: S float64_round_def)
  next
    case False
    then have x: "0 < ?x" using f(1) secr0 by linarith
    let ?e = "float64_exponent ?x"
    let ?u = "power_int 2 ?e :: rat"
    have "\<bar>?x\<bar> < power_int 2 (- 29 + 53)" using x f(2) secr by (simp add: power_int_minus_divide)
    then have e: "?e \<le> - 29"
      using x by (intro float64_exponent_le) simp_all
    have u0: "0 < ?u" by (simp add: zero_less_power_int)
    have p29: "power_int (2::rat) (- 29) = 1 / 2 ^ 29" by (simp add: power_int_minus_divide)
    have "?u \<le> power_int 2 (- 29)" using e by (intro power_int_increasing) simp_all
    then have u: "?u \<le> 1 / 2 ^ 29" unfolding p29 .
    let ?N = "(?sec + 1) * 2 ^ nat (0 - ?e)"
    have N: "of_int (?sec + 1) * power_int (2::rat) 0 / ?u = of_int ?N"
      using e by (intro multiple_of_unit) simp
    then have N': "(of_int ?sec + 1) / ?u = (of_int ?N :: rat)" by simp
    have "?x < of_int ?sec + 1 - ?u / 2" using f(2) u by simp
    then have "?x / ?u < (of_int ?sec + 1 - ?u / 2) / ?u"
      using u0 by (simp add: divide_strict_right_mono)
    also have "\<dots> = (of_int ?sec + 1) / ?u - 1 / 2"
      using u0 by (simp add: diff_divide_distrib)
    finally have "?x / ?u < of_int ?N - 1 / 2" unfolding N' .
    then have "round_half_even (?x / ?u) \<le> ?N - 1" by (rule rhe_below_half)
    then have "(of_int (round_half_even (?x / ?u)) :: rat) \<le> of_int (?N - 1)"
      by (simp only: of_int_le_iff)
    then have "of_int (round_half_even (?x / ?u)) * ?u \<le> (of_int (?N - 1) :: rat) * ?u"
      using u0 by (intro mult_right_mono) simp_all
    also have "(of_int (?N - 1) :: rat) * ?u = of_int ?N * ?u - ?u"
      by (simp add: algebra_simps)
    also have "\<dots> = (of_int ?sec + 1) / ?u * ?u - ?u" by (simp only: N')
    also have "\<dots> = of_int ?sec + 1 - ?u" using u0 by simp
    finally have "float64_round ?x \<le> of_int ?sec + 1 - ?u"
      unfolding float64_round_pos [OF x] .
    then have "float64_round ?x < of_int ?sec + 1" using u0 by linarith
    then show ?thesis by (simp add: S)
  qed
qed

lemma go_int_neg: "go_int (- x) = - go_int x"
  by (auto simp: go_int_def ceiling_def)

lemma go_int_Seconds_small_nonneg:
  assumes "0 \<le> d" and "d < 2 ^ 24 * 1000000000"
  shows "go_int (Seconds d) = d div 1000000000"
proof -
  have "d \<le> 2 ^ 63" using assms(2) by simp
  then have b: "of_int (d div 1000000000) \<le> Seconds d"
    using Seconds_bounds [OF assms(1)] by simp
  have "0 \<le> d div 1000000000" using assms(1) by simp
  then have "(0::rat) \<le> of_int (d div 1000000000)" by simp
  then have nn: "0 \<le> Seconds d" using b by linarith
  have "\<lfloor>Seconds d\<rfloor> = d div 1000000000"
    using b Seconds_below_next [OF assms] by (simp add: floor_unique)
  then show ?thesis using nn by (simp add: go_int_def)
qed

lemma go_int_Seconds_nonneg:
  assumes "0 \<le> d" and "d \<le> 2 ^ 63"
  shows "go_int (Seconds d) = d div 1000000000 \<or> go_int (Seconds d) = d div 1000000000 + 1"
proof -
  have b: "of_int (d div 1000000000) \<le> Seconds d" "Seconds d \<le> of_int (d div 1000000000) + 1"
    using Seconds_bounds [OF assms] by simp_all
  have "0 \<le> d div 1000000000" using assms(1) by simp
  then have "(0::rat) \<le> of_int (d div 1000000000)" by simp
  then have nn: "0 \<le> Seconds d" using b by linarith
  have "d div 1000000000 \<le> \<lfloor>Seconds d\<rfloor>" using b(1) by (simp add: le_floor_iff)
  moreover have "\<lfloor>Seconds d\<rfloor> \<le> d div 1000000000 + 1"
    using b(2) by (metis floor_mono floor_of_int of_int_1 of_int_add)
  ultimately show ?thesis using nn by (auto simp: go_int_def)
qed


lemma go_int_Seconds_whole_nonneg:
  assumes "0 \<le> d" and "d \<le> 2 ^ 63" and "d mod 1000000000 = 0"
  shows "go_int (Seconds d) = d div 1000000000"
proof -
  let ?sec = "d div 1000000000"
  have sec0: "0 \<le> ?sec" using assms(1) by simp
  have sec1: "?sec < 2 ^ 34" using assms by simp
  have "\<bar>?sec\<bar> < 2 ^ 53" using sec0 sec1 by simp
  then have r: "float64_round (of_int ?sec) = of_int ?sec" by (rule float64_round_of_int)
  have z: "float64_round 0 = 0" by (simp add: float64_round_def)
  have "Seconds d = of_int ?sec"
    using assms(1,3)
    by (simp add: Seconds_nonneg float64_add_def float64_div_def float64_of_int_def z r)
  then show ?thesis using sec0 by (simp add: go_int_def)
qed

lemma sdiv_neg: "d < 0 \<Longrightarrow> d sdiv Second = - ((- d) div 1000000000)"
  by (auto simp: signed_divide_int_def Second_def sgn_if)

lemma smod_neg: "d < 0 \<Longrightarrow> d smod Second = - ((- d) mod 1000000000)"
  by (auto simp: signed_modulo_int_def Second_def sgn_if)

text \<open>
  \<open>int(d.Seconds())\<close> for a duration \<open>d\<close>: the whole seconds of \<open>d\<close> (\<open>d / Second\<close>,
  which truncates towards zero), or one second further from zero, which the
  rounding of \<open>float64\<close> can give to a duration that ends just below a whole second;
  it is the whole seconds of every duration shorter than \<open>2 ^ 24\<close> seconds (194 days),
  and of every duration that is a whole number of seconds.
\<close>

lemma go_int_Seconds_range:
  assumes "minDuration \<le> d" and "d \<le> maxDuration"
  shows "go_int (Seconds d) = d sdiv Second \<or> go_int (Seconds d) = d sdiv Second + sgn d"
proof (cases "0 \<le> d")
  case True
  have "d \<le> 2 ^ 63" using assms(2) by (simp add: maxDuration_def)
  moreover have "go_int (Seconds 0) = 0"
    using go_int_Seconds_small_nonneg [of 0] by simp
  ultimately show ?thesis
    using go_int_Seconds_nonneg [OF True] True
    by (cases "d = 0") (auto simp: sdiv_nonneg sgn_if)
next
  case False
  then have neg: "d < 0" by simp
  have "0 \<le> - d" "- d \<le> 2 ^ 63" using neg assms(1) by (simp_all add: minDuration_def)
  from go_int_Seconds_nonneg [OF this]
  have "go_int (Seconds (- d)) = (- d) div 1000000000
        \<or> go_int (Seconds (- d)) = (- d) div 1000000000 + 1" .
  moreover have "go_int (Seconds d) = - go_int (Seconds (- d))"
    by (simp add: Seconds_neg go_int_neg)
  ultimately show ?thesis using neg by (auto simp: sdiv_neg sgn_if)
qed

lemma go_int_Seconds_small:
  assumes "\<bar>d\<bar> < 2 ^ 24 * Second"
  shows "go_int (Seconds d) = d sdiv Second"
proof (cases "0 \<le> d")
  case True
  then have "d < 2 ^ 24 * 1000000000" using assms by (simp add: Second_def)
  from go_int_Seconds_small_nonneg [OF True this] show ?thesis
    using True by (simp add: sdiv_nonneg)
next
  case False
  then have neg: "d < 0" by simp
  have "0 \<le> - d" "- d < 2 ^ 24 * 1000000000" using neg assms by (simp_all add: Second_def)
  from go_int_Seconds_small_nonneg [OF this]
  have "go_int (Seconds (- d)) = (- d) div 1000000000" .
  moreover have "go_int (Seconds d) = - go_int (Seconds (- d))"
    by (simp add: Seconds_neg go_int_neg)
  ultimately show ?thesis using neg by (simp add: sdiv_neg)
qed

lemma go_int_Seconds_whole:
  assumes "minDuration \<le> d" and "d \<le> maxDuration" and "d smod Second = 0"
  shows "go_int (Seconds d) = d sdiv Second"
proof (cases "0 \<le> d")
  case True
  have "d \<le> 2 ^ 63" using assms(2) by (simp add: maxDuration_def)
  moreover have "d mod 1000000000 = 0" using assms(3) True by (simp add: smod_nonneg)
  ultimately show ?thesis
    using go_int_Seconds_whole_nonneg [OF True] True by (simp add: sdiv_nonneg)
next
  case False
  then have neg: "d < 0" by simp
  have 1: "0 \<le> - d" "- d \<le> 2 ^ 63" using neg assms(1) by (simp_all add: minDuration_def)
  have 2: "(- d) mod 1000000000 = 0" using assms(3) neg by (simp add: smod_neg)
  have "go_int (Seconds (- d)) = (- d) div 1000000000"
    using 1 2 by (rule go_int_Seconds_whole_nonneg)
  moreover have "go_int (Seconds d) = - go_int (Seconds (- d))"
    by (simp add: Seconds_neg go_int_neg)
  ultimately show ?thesis using neg by (simp add: sdiv_neg)
qed

lemma Time_Sub_range: "minDuration \<le> Time_Sub t u \<and> Time_Sub t u \<le> maxDuration"
  by (simp add: Time_Sub_def minDuration_def maxDuration_def)

lemma day_seconds: "go_int (Seconds (Hour * 24)) = 86400"
  by code_simp

section \<open>Properties of \<open>login\<close> of the OpenShift login method\<close>

lemma Time_Sub_in_range:
  "minDuration \<le> t - u \<Longrightarrow> t - u \<le> maxDuration \<Longrightarrow> Time_Sub t u = t - u"
  by (simp add: Time_Sub_def)

lemma login_error:
  "AccessToken token = [] \<Longrightarrow> login e osa w token = (Inl ErrNoAccessToken, w)"
  by (simp add: login_def)

lemma login_success:
  "AccessToken token \<noteq> [] \<Longrightarrow>
   login e osa w token
     = (Inr \<lparr> rawToken = AccessToken token, ls_name = [], ls_email = [] \<rparr>,
        w @ [SetCookie
              \<lparr> Name = GetCookieName e (o_clusterName osa),
                Value = AccessToken token,
                Cookie_Path = o_cookiePath osa,
                Cookie_Domain = o_cookieDomain osa,
                MaxAge = (if IsZero (Expiry token) then 24 * 3600
                          else go_int (Seconds (Time_Sub (Expiry token) (Now e)))),
                Secure = o_secureCookies osa,
                HttpOnly = True,
                Cookie_SameSite = SameSiteLaxMode \<rparr>])"
  by (simp add: login_def Let_def http_SetCookie_def loginState_zero_def Cookie_zero_def
        day_seconds)

text \<open>
  C4. With an empty access token \<open>login\<close> returns an error and leaves the response
  writer as it was: no cookie is set. Otherwise it hands exactly one cookie to
  \<open>http.SetCookie\<close> and returns the login state with the access token as raw token and
  no name or email. The cookie is named \<open>GetCookieName(clusterName)\<close>, carries the
  access token, is HTTP-only, \<open>SameSite=Lax\<close>, has the path \<open>cookiePath\<close>, is secure
  exactly when \<open>secureCookies\<close> is set, and has the domain \<open>cookieDomain\<close> (none when
  that is empty). Its \<open>MaxAge\<close> is 24 hours (86400 seconds) when the token's expiry
  is the zero time; otherwise it is \<open>int(Expiry.Sub(time.Now()).Seconds())\<close>, the time
  to the expiry in seconds: its whole seconds, or one second further from zero, which
  the rounding of \<open>float64\<close> can give to a time that ends just below a whole second.
  It is the whole seconds of every time to expiry shorter than \<open>2 ^ 24\<close> seconds (194
  days) and of every time to expiry that is a whole number of seconds. \<open>Sub\<close> is the
  difference of the two instants whenever that fits a \<open>time.Duration\<close> (about 292
  years either way).
\<close>

theorem login_sets_session_cookie:
  "(AccessToken token = [] \<longrightarrow> login e osa w token = (Inl ErrNoAccessToken, w))
   \<and> (AccessToken token \<noteq> [] \<longrightarrow>
        (\<exists>cookie.
           login e osa w token
             = (Inr \<lparr> rawToken = AccessToken token, ls_name = [], ls_email = [] \<rparr>,
                w @ [SetCookie cookie])
           \<and> Name cookie = GetCookieName e (o_clusterName osa)
           \<and> Value cookie = AccessToken token
           \<and> HttpOnly cookie
           \<and> Cookie_SameSite cookie = SameSiteLaxMode
           \<and> Cookie_Path cookie = o_cookiePath osa
           \<and> Secure cookie = o_secureCookies osa
           \<and> Cookie_Domain cookie = o_cookieDomain osa
           \<and> MaxAge cookie
               = (if IsZero (Expiry token) then 24 * 3600
                  else go_int (Seconds (Time_Sub (Expiry token) (Now e))))
           \<and> (\<not> IsZero (Expiry token) \<longrightarrow>
                 (MaxAge cookie = Time_Sub (Expiry token) (Now e) sdiv Second
                  \<or> MaxAge cookie = Time_Sub (Expiry token) (Now e) sdiv Second
                                     + sgn (Time_Sub (Expiry token) (Now e)))
                 \<and> (\<bar>Time_Sub (Expiry token) (Now e)\<bar> < 2 ^ 24 * Second
                      \<longrightarrow> MaxAge cookie = Time_Sub (Expiry token) (Now e) sdiv Second)
                 \<and> (Time_Sub (Expiry token) (Now e) smod Second = 0
                      \<longrightarrow> MaxAge cookie = Time_Sub (Expiry token) (Now e) sdiv Second))
           \<and> (minDuration \<le> Expiry token - Now e \<and> Expiry token - Now e \<le> maxDuration
                \<longrightarrow> Time_Sub (Expiry token) (Now e) = Expiry token - Now e)))"
proof (intro conjI impI)
  assume "AccessToken token = []"
  then show "login e osa w token = (Inl ErrNoAccessToken, w)" by (rule login_error)
next
  assume t: "AccessToken token \<noteq> []"
  let ?d = "Time_Sub (Expiry token) (Now e)"
  let ?c = "\<lparr> Name = GetCookieName e (o_clusterName osa),
                Value = AccessToken token,
                Cookie_Path = o_cookiePath osa,
                Cookie_Domain = o_cookieDomain osa,
                MaxAge = (if IsZero (Expiry token) then 24 * 3600
                          else go_int (Seconds ?d)),
                Secure = o_secureCookies osa,
                HttpOnly = True,
                Cookie_SameSite = SameSiteLaxMode \<rparr>"
  have 1: "login e osa w token
             = (Inr \<lparr> rawToken = AccessToken token, ls_name = [], ls_email = [] \<rparr>,
                w @ [SetCookie ?c])"
    using t by (rule login_success)
  have 2: "Name ?c = GetCookieName e (o_clusterName osa)" "Value ?c = AccessToken token"
    "HttpOnly ?c" "Cookie_SameSite ?c = SameSiteLaxMode" "Cookie_Path ?c = o_cookiePath osa"
    "Secure ?c = o_secureCookies osa" "Cookie_Domain ?c = o_cookieDomain osa"
    "MaxAge ?c = (if IsZero (Expiry token) then 24 * 3600 else go_int (Seconds ?d))"
    by simp_all
  have r: "minDuration \<le> ?d" "?d \<le> maxDuration"
    using Time_Sub_range [of "Expiry token" "Now e"] by simp_all
  have 3: "\<not> IsZero (Expiry token) \<longrightarrow>
                 (MaxAge ?c = ?d sdiv Second \<or> MaxAge ?c = ?d sdiv Second + sgn ?d)
                 \<and> (\<bar>?d\<bar> < 2 ^ 24 * Second \<longrightarrow> MaxAge ?c = ?d sdiv Second)
                 \<and> (?d smod Second = 0 \<longrightarrow> MaxAge ?c = ?d sdiv Second)"
    using go_int_Seconds_range [OF r] go_int_Seconds_small [of ?d] go_int_Seconds_whole [OF r]
    by simp
  have 4: "minDuration \<le> Expiry token - Now e \<and> Expiry token - Now e \<le> maxDuration
                \<longrightarrow> ?d = Expiry token - Now e"
    by (simp add: Time_Sub_in_range)
  show "\<exists>cookie.
           login e osa w token
             = (Inr \<lparr> rawToken = AccessToken token, ls_name = [], ls_email = [] \<rparr>,
                w @ [SetCookie cookie])
           \<and> Name cookie = GetCookieName e (o_clusterName osa)
           \<and> Value cookie = AccessToken token
           \<and> HttpOnly cookie
           \<and> Cookie_SameSite cookie = SameSiteLaxMode
           \<and> Cookie_Path cookie = o_cookiePath osa
           \<and> Secure cookie = o_secureCookies osa
           \<and> Cookie_Domain cookie = o_cookieDomain osa
           \<and> MaxAge cookie
               = (if IsZero (Expiry token) then 24 * 3600
                  else go_int (Seconds (Time_Sub (Expiry token) (Now e))))
           \<and> (\<not> IsZero (Expiry token) \<longrightarrow>
                 (MaxAge cookie = Time_Sub (Expiry token) (Now e) sdiv Second
                  \<or> MaxAge cookie = Time_Sub (Expiry token) (Now e) sdiv Second
                                     + sgn (Time_Sub (Expiry token) (Now e)))
                 \<and> (\<bar>Time_Sub (Expiry token) (Now e)\<bar> < 2 ^ 24 * Second
                      \<longrightarrow> MaxAge cookie = Time_Sub (Expiry token) (Now e) sdiv Second)
                 \<and> (Time_Sub (Expiry token) (Now e) smod Second = 0
                      \<longrightarrow> MaxAge cookie = Time_Sub (Expiry token) (Now e) sdiv Second))
           \<and> (minDuration \<le> Expiry token - Now e \<and> Expiry token - Now e \<le> maxDuration
                \<longrightarrow> Time_Sub (Expiry token) (Now e) = Expiry token - Now e)"
    using 1 2 3 4 by (intro exI [of _ ?c]) blast
qed

text \<open>
  The witness: a token without access token; a token that expires 3600.5 seconds from
  now; a token without expiry; and a token that expires 16777216.999999999 seconds
  from now, whose seconds round up to 16777217 in \<open>float64\<close>.
\<close>

theorem login_sets_session_cookie_witness:
  "login env_example osa_example [] \<lparr> AccessToken = [], Expiry = 0 \<rparr> = (Inl ErrNoAccessToken, [])
   \<and> (\<exists>cookie.
         login env_example osa_example [] token_example
           = (Inr \<lparr> rawToken = ''sha256~token'', ls_name = [], ls_email = [] \<rparr>,
              [SetCookie cookie])
         \<and> Name cookie = ''openshift-session-token''
         \<and> Cookie_Domain cookie = ''.example.com''
         \<and> MaxAge cookie = 3600)
   \<and> (\<exists>cookie.
         login env_example osa_example [] token_no_expiry
           = (Inr \<lparr> rawToken = ''sha256~token'', ls_name = [], ls_email = [] \<rparr>,
              [SetCookie cookie])
         \<and> MaxAge cookie = 86400)
   \<and> (\<exists>cookie.
         login env_example osa_example [] token_far
           = (Inr \<lparr> rawToken = ''sha256~token'', ls_name = [], ls_email = [] \<rparr>,
              [SetCookie cookie])
         \<and> MaxAge cookie = 16777217)"
proof -
  have a: "AccessToken \<lparr> AccessToken = [], Expiry = 0 \<rparr> = []" by simp
  have b: "AccessToken token_example \<noteq> []" "AccessToken token_example = ''sha256~token''"
    "AccessToken token_no_expiry \<noteq> []" "AccessToken token_no_expiry = ''sha256~token''"
    "IsZero (Expiry token_no_expiry)"
    "AccessToken token_far \<noteq> []" "AccessToken token_far = ''sha256~token''"
    by (simp_all add: token_example_def token_no_expiry_def token_far_def IsZero_def)
  have r: "\<not> IsZero (Expiry token_example)"
    "\<bar>Time_Sub (Expiry token_example) (Now env_example)\<bar> < 2 ^ 24 * Second"
    "Time_Sub (Expiry token_example) (Now env_example) sdiv Second = 3600"
    by (simp_all add: token_example_def env_example_def IsZero_def Time_Sub_def
          minDuration_def maxDuration_def Second_def)
  have f: "\<not> IsZero (Expiry token_far)"
    "go_int (Seconds (Time_Sub (Expiry token_far) (Now env_example))) = 16777217"
    by code_simp+
  have n: "GetCookieName env_example (o_clusterName osa_example) = ''openshift-session-token''"
    "o_cookieDomain osa_example = ''.example.com''"
    by (simp_all add: env_example_def osa_example_def)
  have 1: "login env_example osa_example [] \<lparr> AccessToken = [], Expiry = 0 \<rparr>
           = (Inl ErrNoAccessToken, [])"
    using login_sets_session_cookie [of "\<lparr> AccessToken = [], Expiry = 0 \<rparr>" env_example
        osa_example "[]"] a by blast
  have 2: "\<exists>cookie.
         login env_example osa_example [] token_example
           = (Inr \<lparr> rawToken = ''sha256~token'', ls_name = [], ls_email = [] \<rparr>,
              [SetCookie cookie])
         \<and> Name cookie = ''openshift-session-token''
         \<and> Cookie_Domain cookie = ''.example.com''
         \<and> MaxAge cookie = 3600"
    using login_sets_session_cookie [of token_example env_example osa_example "[]"] b r n
    by auto
  have 3: "\<exists>cookie.
         login env_example osa_example [] token_no_expiry
           = (Inr \<lparr> rawToken = ''sha256~token'', ls_name = [], ls_email = [] \<rparr>,
              [SetCookie cookie])
         \<and> MaxAge cookie = 86400"
    using login_sets_session_cookie [of token_no_expiry env_example osa_example "[]"] b
    by auto
  have 4: "\<exists>cookie.
         login env_example osa_example [] token_far
           = (Inr \<lparr> rawToken = ''sha256~token'', ls_name = [], ls_email = [] \<rparr>,
              [SetCookie cookie])
         \<and> MaxAge cookie = 16777217"
    using login_sets_session_cookie [of token_far env_example osa_example "[]"] b f
    by auto
  show ?thesis using 1 2 3 4 by blast
qed

section \<open>Properties of \<open>logout\<close> of the OpenShift login method\<close>

lemma map_of_last:
  assumes "list_all (\<lambda>d. Name d \<noteq> n) others"
  shows "map_of (map (\<lambda>c. (Name c, Value c)) (others @ [c])) n
         = (if Name c = n then Some (Value c) else None)"
  using assms by (induction others) auto

lemma map_of_none:
  assumes "list_all (\<lambda>d. Name d \<noteq> n) others"
  shows "map_of (map (\<lambda>c. (Name c, Value c)) others) n = None"
  using assms by (induction others) auto

lemma others_no_session:
  assumes "only_session_cookie (Name c) (Cookie_Domain c) (Cookie_Path c) j"
  shows "list_all (\<lambda>d. Name d \<noteq> Name c) (filter (\<lambda>d. \<not> same_cookie c d) j)"
proof -
  have "\<And>d. d \<in> set j \<Longrightarrow> \<not> same_cookie c d \<Longrightarrow> Name d \<noteq> Name c"
  proof -
    fix d assume d: "d \<in> set j" and n: "\<not> same_cookie c d"
    from assms d have "Name d \<noteq> Name c
        \<or> (Cookie_Domain d = Cookie_Domain c \<and> Cookie_Path d = Cookie_Path c)"
      unfolding only_session_cookie_def list_all_iff by blast
    with n show "Name d \<noteq> Name c"
      unfolding same_cookie_def by metis
  qed
  then show ?thesis unfolding list_all_iff by simp
qed

lemma logout_cookie:
  "logout e osa w r =
     w @ [SetCookie (Cookie_zero\<lparr> Name := GetCookieName e (o_clusterName osa),
                                  HttpOnly := True,
                                  Cookie_Path := o_cookiePath osa,
                                  Secure := o_secureCookies osa,
                                  Cookie_Domain := o_cookieDomain osa \<rparr>),
          WriteHeader 204]"
  by (simp add: logout_def Let_def http_SetCookie_def Cookie_zero_def StatusNoContent_def)

lemma getOpenShiftUser_after_logout:
  assumes "GetCluster e (with_jar r' (jar_apply expired (logout e osa [] r) j)) = o_clusterName osa"
    and "only_session_cookie (GetCookieName e (o_clusterName osa)) (o_cookieDomain osa)
           (o_cookiePath osa) j"
  shows "\<exists>err. getOpenShiftUser e (with_jar r' (jar_apply expired (logout e osa [] r) j)) = Inl err"
proof -
  let ?c = "Cookie_zero\<lparr> Name := GetCookieName e (o_clusterName osa),
                                  HttpOnly := True,
                                  Cookie_Path := o_cookiePath osa,
                                  Secure := o_secureCookies osa,
                                  Cookie_Domain := o_cookieDomain osa \<rparr>"
  have j: "jar_apply expired (logout e osa [] r) j = jar_receive expired ?c j"
    by (simp add: logout_cookie)
  have "only_session_cookie (Name ?c) (Cookie_Domain ?c) (Cookie_Path ?c) j"
    using assms(2) by simp
  then have o: "list_all (\<lambda>d. Name d \<noteq> Name ?c) (filter (\<lambda>d. \<not> same_cookie ?c d) j)"
    by (rule others_no_session)
  show ?thesis
  proof (cases "expired ?c")
    case True
    then show ?thesis
      using map_of_none [OF o] assms(1)
      by (simp add: j jar_receive_def getOpenShiftUser_def with_jar_def Request_Cookie_def Let_def)
  next
    case False
    then show ?thesis
      using map_of_last [OF o, of ?c] assms(1)
      by (simp add: j jar_receive_def getOpenShiftUser_def with_jar_def Request_Cookie_def Let_def
            Cookie_zero_def)
  qed
qed

lemma jar_receive_only_session_cookie:
  assumes "list_all (\<lambda>x. Name x \<noteq> n) j0"
    and "Name c = n" and "Cookie_Domain c = d" and "Cookie_Path c = p"
  shows "only_session_cookie n d p (jar_receive x c j0)"
  using assms
  by (auto simp: only_session_cookie_def jar_receive_def list_all_iff Let_def)

lemma login_jar_only_session_cookie:
  assumes "list_all (\<lambda>c. Name c \<noteq> GetCookieName e (o_clusterName osa)) j0"
  shows "only_session_cookie (GetCookieName e (o_clusterName osa)) (o_cookieDomain osa)
           (o_cookiePath osa) (jar_apply expired (snd (login e osa [] token)) j0)"
proof (cases "AccessToken token = []")
  case True
  then show ?thesis
    using assms by (simp add: login_error only_session_cookie_def list_all_iff)
next
  case False
  let ?c = "\<lparr> Name = GetCookieName e (o_clusterName osa),
                Value = AccessToken token,
                Cookie_Path = o_cookiePath osa,
                Cookie_Domain = o_cookieDomain osa,
                MaxAge = (if IsZero (Expiry token) then 24 * 3600
                          else go_int (Seconds (Time_Sub (Expiry token) (Now e)))),
                Secure = o_secureCookies osa,
                HttpOnly = True,
                Cookie_SameSite = SameSiteLaxMode \<rparr>"
  have j: "jar_apply expired (snd (login e osa [] token)) j0 = jar_receive expired ?c j0"
    using login_success [OF False, of e osa "[]"] by simp
  have "only_session_cookie (GetCookieName e (o_clusterName osa)) (o_cookieDomain osa)
           (o_cookiePath osa) (jar_receive expired ?c j0)"
    using assms by (rule jar_receive_only_session_cookie) simp_all
  then show ?thesis unfolding j .
qed

text \<open>
  \<open>logout\<close> hands exactly one cookie to \<open>http.SetCookie\<close>, with an empty value and
  \<open>MaxAge\<close> zero, and then writes the status 204. The cookie has the name, path,
  domain and secure flag of the cookie that \<open>login\<close> of the same login method sets.
  When a client holds no cookie of the session cookie's name but with the session
  cookie's domain and path (as it does after \<open>login\<close> into a jar without a cookie of
  that name), then after it has taken in the response of \<open>logout\<close>, its next request
  to the same cluster is refused by \<open>Authenticate\<close> of the OpenShift variant with an
  error, whether the client discarded the emptied cookie or kept it.
\<close>

lemma logout_overwrites_session_cookie:
  "(\<exists>cookie.
      logout e osa w r = w @ [SetCookie cookie, WriteHeader 204]
      \<and> Value cookie = [] \<and> MaxAge cookie = 0
      \<and> (\<forall>token w0 ls w1. login e osa w0 token = (Inr ls, w1) \<longrightarrow>
            (\<exists>lc. w1 = w0 @ [SetCookie lc]
                 \<and> Name cookie = Name lc
                 \<and> Cookie_Path cookie = Cookie_Path lc
                 \<and> Cookie_Domain cookie = Cookie_Domain lc
                 \<and> Secure cookie = Secure lc)))
   \<and> (userFunc a = UserFunc_OpenShift
       \<and> GetCluster e (with_jar r' (jar_apply expired (logout e osa [] r) j)) = o_clusterName osa
       \<and> only_session_cookie (GetCookieName e (o_clusterName osa)) (o_cookieDomain osa)
            (o_cookiePath osa) j
       \<longrightarrow> (\<exists>err. Authenticate e a (with_jar r' (jar_apply expired (logout e osa [] r) j))
                   = Inl err))
   \<and> (list_all (\<lambda>c. Name c \<noteq> GetCookieName e (o_clusterName osa)) j0
       \<longrightarrow> only_session_cookie (GetCookieName e (o_clusterName osa)) (o_cookieDomain osa)
             (o_cookiePath osa) (jar_apply expired (snd (login e osa [] token)) j0))"
proof (intro conjI impI)
  let ?c = "Cookie_zero\<lparr> Name := GetCookieName e (o_clusterName osa),
                                  HttpOnly := True,
                                  Cookie_Path := o_cookiePath osa,
                                  Secure := o_secureCookies osa,
                                  Cookie_Domain := o_cookieDomain osa \<rparr>"
  have 1: "logout e osa w r = w @ [SetCookie ?c, WriteHeader 204]"
    by (rule logout_cookie)
  have 2: "Value ?c = []" "MaxAge ?c = 0"
    by (simp_all add: Cookie_zero_def)
  have 3: "\<forall>token w0 ls w1. login e osa w0 token = (Inr ls, w1) \<longrightarrow>
            (\<exists>lc. w1 = w0 @ [SetCookie lc]
                 \<and> Name ?c = Name lc
                 \<and> Cookie_Path ?c = Cookie_Path lc
                 \<and> Cookie_Domain ?c = Cookie_Domain lc
                 \<and> Secure ?c = Secure lc)"
  proof (intro allI impI)
    fix token w0 ls w1
    assume l: "login e osa w0 token = (Inr ls, w1)"
    then have "AccessToken token \<noteq> []"
      using login_error [of token e osa w0] by auto
    from login_success [OF this, of e osa w0] l
    show "\<exists>lc. w1 = w0 @ [SetCookie lc]
                 \<and> Name ?c = Name lc
                 \<and> Cookie_Path ?c = Cookie_Path lc
                 \<and> Cookie_Domain ?c = Cookie_Domain lc
                 \<and> Secure ?c = Secure lc"
      by auto
  qed
  show "\<exists>cookie.
      logout e osa w r = w @ [SetCookie cookie, WriteHeader 204]
      \<and> Value cookie = [] \<and> MaxAge cookie = 0
      \<and> (\<forall>token w0 ls w1. login e osa w0 token = (Inr ls, w1) \<longrightarrow>
            (\<exists>lc. w1 = w0 @ [SetCookie lc]
                 \<and> Name cookie = Name lc
                 \<and> Cookie_Path cookie = Cookie_Path lc
                 \<and> Cookie_Domain cookie = Cookie_Domain lc
                 \<and> Secure cookie = Secure lc))"
    using 1 2 3 by (intro exI [of _ ?c]) blast
next
  assume h: "userFunc a = UserFunc_OpenShift
       \<and> GetCluster e (with_jar r' (jar_apply expired (logout e osa [] r) j)) = o_clusterName osa
       \<and> only_session_cookie (GetCookieName e (o_clusterName osa)) (o_cookieDomain osa)
            (o_cookiePath osa) j"
  then have "\<exists>err. getOpenShiftUser e (with_jar r' (jar_apply expired (logout e osa [] r) j))
                  = Inl err"
    using getOpenShiftUser_after_logout by blast
  then show "\<exists>err. Authenticate e a (with_jar r' (jar_apply expired (logout e osa [] r) j))
                   = Inl err"
    using h by (simp add: Authenticate_def)
next
  assume "list_all (\<lambda>c. Name c \<noteq> GetCookieName e (o_clusterName osa)) j0"
  then show "only_session_cookie (GetCookieName e (o_clusterName osa)) (o_cookieDomain osa)
             (o_cookiePath osa) (jar_apply expired (snd (login e osa [] token)) j0)"
    by (rule login_jar_only_session_cookie)
qed

lemma logout_cookie_kept:
  "Cookie_MaxAge_attribute
     (Cookie_zero\<lparr> Name := GetCookieName e (o_clusterName osa),
                   HttpOnly := True,
                   Cookie_Path := o_cookiePath osa,
                   Secure := o_secureCookies osa,
                   Cookie_Domain := o_cookieDomain osa \<rparr>) = None
   \<and> Cookie_zero\<lparr> Name := GetCookieName e (o_clusterName osa),
                   HttpOnly := True,
                   Cookie_Path := o_cookiePath osa,
                   Secure := o_secureCookies osa,
                   Cookie_Domain := o_cookieDomain osa \<rparr>
       \<in> set (jar_apply expired_on_arrival (logout e osa [] r) j)"
  by (simp add: logout_cookie jar_receive_def Cookie_MaxAge_attribute_def
        expired_on_arrival_def Cookie_zero_def)

text \<open>
  C5. The client of the example console logs in and logs out. The cookie that
  \<open>logout\<close> hands to \<open>http.SetCookie\<close> has the name, path, domain and secure flag of
  the session cookie, an empty value and \<open>MaxAge\<close> zero, and the status 204 follows.
  For \<open>MaxAge\<close> zero \<open>net/http\<close> writes no \<open>Max-Age\<close> attribute, so nothing tells the
  client to delete the cookie: the jar that held the session cookie holds the emptied
  cookie afterwards. \<open>Authenticate\<close> refuses the next request all the same, because
  the value of the cookie is empty. The same cookie with a negative \<open>MaxAge\<close>, which
  \<open>net/http\<close> writes as \<open>Max-Age=0\<close>, would have emptied the jar.
\<close>

theorem logout_keeps_emptied_cookie:
  "logout env_example osa_example [] request_zero
     = [SetCookie \<lparr> Name = ''openshift-session-token'', Value = [], Cookie_Path = ''/api/'',
                    Cookie_Domain = ''.example.com'', MaxAge = 0, Secure = True,
                    HttpOnly = True, Cookie_SameSite = SameSiteUnset \<rparr>,
        WriteHeader 204]
   \<and> Cookie_MaxAge_attribute
        \<lparr> Name = ''openshift-session-token'', Value = [], Cookie_Path = ''/api/'',
          Cookie_Domain = ''.example.com'', MaxAge = 0, Secure = True,
          HttpOnly = True, Cookie_SameSite = SameSiteUnset \<rparr> = None
   \<and> jar_apply expired_on_arrival (snd (login env_example osa_example [] token_example)) []
     = [\<lparr> Name = ''openshift-session-token'', Value = ''sha256~token'',
          Cookie_Path = ''/api/'', Cookie_Domain = ''.example.com'', MaxAge = 3600,
          Secure = True, HttpOnly = True, Cookie_SameSite = SameSiteLaxMode \<rparr>]
   \<and> jar_apply expired_on_arrival (logout env_example osa_example [] request_zero)
        (jar_apply expired_on_arrival (snd (login env_example osa_example [] token_example)) [])
     = [\<lparr> Name = ''openshift-session-token'', Value = [], Cookie_Path = ''/api/'',
          Cookie_Domain = ''.example.com'', MaxAge = 0, Secure = True,
          HttpOnly = True, Cookie_SameSite = SameSiteUnset \<rparr>]
   \<and> Authenticate env_example authenticator_example
        (with_jar request_zero
           (jar_apply expired_on_arrival (logout env_example osa_example [] request_zero)
              (jar_apply expired_on_arrival
                 (snd (login env_example osa_example [] token_example)) [])))
     = Inl (ErrUnauthenticated ''openshift-session-token'')
   \<and> jar_receive expired_on_arrival
        \<lparr> Name = ''openshift-session-token'', Value = [], Cookie_Path = ''/api/'',
          Cookie_Domain = ''.example.com'', MaxAge = - 1, Secure = True,
          HttpOnly = True, Cookie_SameSite = SameSiteUnset \<rparr>
        (jar_apply expired_on_arrival (snd (login env_example osa_example [] token_example)) [])
     = []"
  by code_simp

section \<open>Lemmas on the construction of an authenticator\<close>

lemma newUnstartedAuthenticator_config:
  "fst (snd (newUnstartedAuthenticator e c s))
   = (if isl (fst (newHTTPClient e (IssuerCA c) True s)) then c else with_default_CookiePath c)"
  by (auto simp: newUnstartedAuthenticator_def with_default_CookiePath_def Let_def
           split: prod.splits sum.splits)


lemma attempt_one_config:
  "fst (snd (attempt_one e c s)) = fst (snd (newUnstartedAuthenticator e c s))"
  by (auto simp: attempt_one_def Let_def split: prod.splits sum.splits)

lemma with_default_idem:
  "with_default_CookiePath (with_default_CookiePath c) = with_default_CookiePath c"
  by (simp add: with_default_CookiePath_def)

lemma attempt_one_config_cases:
  "fst (snd (attempt_one e c s)) = c \<or> fst (snd (attempt_one e c s)) = with_default_CookiePath c"
  by (simp add: attempt_one_config newUnstartedAuthenticator_config)



lemma newHTTPClient_trace: "trace (snd (newHTTPClient e p b s)) = trace s"
  by (auto simp: newHTTPClient_def new_client_def Let_def split: option.splits)

lemma clientFunc_trace: "trace (snd (clientFunc e a s)) = trace s"
  using newHTTPClient_trace [of e "IssuerCA (conf a)" True s]
  by (auto simp: clientFunc_def split: prod.splits sum.splits)

lemma newUnstartedAuthenticator_trace:
  "trace (snd (snd (newUnstartedAuthenticator e c s))) = trace s"
  using newHTTPClient_trace [of e "IssuerCA c" True s]
  by (auto simp: newUnstartedAuthenticator_def Let_def split: prod.splits sum.splits)

lemma authSourceFunc_call_trace:
  "trace (snd (authSourceFunc_call e a f s)) = trace s @ [Discover]"
proof (cases f)
  case OpenShiftSource
  let ?s = "s\<lparr> trace := trace s @ [Discover] \<rparr>"
  obtain r1 s1 where n: "newHTTPClient e (K8sCA (conf a)) True ?s = (r1, s1)"
    by (cases "newHTTPClient e (K8sCA (conf a)) True ?s") auto
  have t1: "trace s1 = trace s @ [Discover]"
    using newHTTPClient_trace [of e "K8sCA (conf a)" True ?s] n by simp
  show ?thesis
  proof (cases r1)
    case (Inl err)
    then show ?thesis using n t1 OpenShiftSource by (simp add: authSourceFunc_call_def Let_def)
  next
    case (Inr k)
    obtain cl s2 where c: "clientFunc e a s1 = (cl, s2)" by (cases "clientFunc e a s1") auto
    have t2: "trace s2 = trace s @ [Discover]"
      using clientFunc_trace [of e a s1] c t1 by simp
    show ?thesis using n Inr c t2 OpenShiftSource
      by (simp add: authSourceFunc_call_def Let_def split: sum.splits prod.splits)
  qed
next
  case (OIDCSource ep src err)
  then show ?thesis by (simp add: authSourceFunc_call_def Let_def split: option.splits)
qed

lemma attempt_one_trace:
  "trace (snd (snd (attempt_one e c s)))
   = trace s @ (case fst (attempt_one e c s) of ConstructionFailed err \<Rightarrow> [] | _ \<Rightarrow> [Discover])"
proof -
  obtain r c1 s1 where n: "newUnstartedAuthenticator e c s = (r, c1, s1)"
    by (cases "newUnstartedAuthenticator e c s") auto
  have t1: "trace s1 = trace s"
    using newUnstartedAuthenticator_trace [of e c s] n by simp
  show ?thesis
  proof (cases r)
    case (Inl err)
    then show ?thesis using n t1 by (simp add: attempt_one_def)
  next
    case (Inr a)
    show ?thesis
    proof (cases "AuthSource c1 = AuthSourceOpenShift")
      case True
      obtain r3 s3 where f: "authSourceFunc_call e a OpenShiftSource s1 = (r3, s3)"
        by (cases "authSourceFunc_call e a OpenShiftSource s1") auto
      have t3: "trace s3 = trace s @ [Discover]"
        using authSourceFunc_call_trace [of e a OpenShiftSource s1] t1 f by simp
      show ?thesis using n Inr True f t3
        by (cases r3) (auto simp: attempt_one_def Let_def)
    next
      case False
      obtain cl s2 where c: "clientFunc e a s1 = (cl, s2)" by (cases "clientFunc e a s1") auto
      have t2: "trace s2 = trace s"
        using clientFunc_trace [of e a s1] c t1 by simp
      obtain ep src er where o: "newOIDCAuth e
             \<lparr> oidc_client = cl, oidc_issuerURL = IssuerURL c1, oidc_clientID = ClientID c1,
               oidc_cookiePath = CookiePath c1, oidc_secureCookies = SecureCookies c1,
               oidc_cookieDomain = CookieDomain c1 \<rparr> = (ep, src, er)"
        using prod_cases3 by blast
      obtain r3 s3 where f: "authSourceFunc_call e a (OIDCSource ep src er) s2 = (r3, s3)"
        by (cases "authSourceFunc_call e a (OIDCSource ep src er) s2") auto
      have t3: "trace s3 = trace s @ [Discover]"
        using authSourceFunc_call_trace [of e a "OIDCSource ep src er" s2] t2 f by simp
      show ?thesis using n Inr False c o f t3
        by (cases r3) (auto simp: attempt_one_def Let_def)
    qed
  qed
qed

lemma loop_step_fail:
  assumes "attempt_one (envs steps) c s = (DiscoveryFailed err, c1, s1)" and "steps < maxSteps"
  shows "NewAuthenticator_loop envs steps c s
         = NewAuthenticator_loop envs (Suc steps) c1 (time_Sleep backoff s1)"
  using assms by (simp add: NewAuthenticator_loop.simps [of envs steps c s])

lemma loop_last_fail:
  assumes "attempt_one (envs steps) c s = (DiscoveryFailed err, c1, s1)" and "maxSteps \<le> steps"
  shows "NewAuthenticator_loop envs steps c s = (Inl err, c1, s1)"
  using assms by (simp add: NewAuthenticator_loop.simps [of envs steps c s])

lemma loop_started:
  assumes "attempt_one (envs steps) c s = (Started a, c1, s1)"
  shows "NewAuthenticator_loop envs steps c s = (Inr a, c1, s1)"
  using assms by (simp add: NewAuthenticator_loop.simps [of envs steps c s])

lemma loop_construction_failed:
  assumes "attempt_one (envs steps) c s = (ConstructionFailed err, c1, s1)"
  shows "NewAuthenticator_loop envs steps c s = (Inl err, c1, s1)"
  using assms by (simp add: NewAuthenticator_loop.simps [of envs steps c s])

lemma loop_unroll:
  assumes "k \<le> maxSteps"
    and "\<forall>j<k. \<exists>err. attempt_at envs c s j = DiscoveryFailed err"
  shows "NewAuthenticator_loop envs 0 c s
           = NewAuthenticator_loop envs k (fst (after_failures envs k c s))
               (snd (after_failures envs k c s))
         \<and> trace (snd (after_failures envs k c s))
           = trace s @ concat (replicate k [Discover, Sleep backoff])"
  using assms
proof (induction k)
  case 0
  then show ?case by simp
next
  case (Suc k)
  obtain ck sk where af: "after_failures envs k c s = (ck, sk)"
    by (cases "after_failures envs k c s") auto
  from Suc.prems obtain err where "attempt_at envs c s k = DiscoveryFailed err" by blast
  then obtain c1 s1 where a: "attempt_one (envs k) ck sk = (DiscoveryFailed err, c1, s1)"
    using af by (cases "attempt_one (envs k) ck sk") (auto simp: attempt_at_def)
  have ih: "NewAuthenticator_loop envs 0 c s = NewAuthenticator_loop envs k ck sk
            \<and> trace sk = trace s @ concat (replicate k [Discover, Sleep backoff])"
    using Suc.IH Suc.prems af by simp
  have step: "NewAuthenticator_loop envs k ck sk
              = NewAuthenticator_loop envs (Suc k) c1 (time_Sleep backoff s1)"
    using a Suc.prems(1) by (intro loop_step_fail) simp_all
  have afs: "after_failures envs (Suc k) c s = (c1, time_Sleep backoff s1)"
    using af a by simp
  have "trace s1 = trace sk @ [Discover]"
    using attempt_one_trace [of "envs k" ck sk] a by simp
  then have tr: "trace (time_Sleep backoff s1)
                 = trace s @ concat (replicate (Suc k) [Discover, Sleep backoff])"
    using ih by (simp add: time_Sleep_def replicate_append_same [symmetric])
  show ?case using ih step afs tr by simp
qed



lemma loop_bound:
  "\<exists>k t. k \<le> maxSteps - steps
       \<and> trace (snd (snd (NewAuthenticator_loop envs steps c s))) = trace s @ t
       \<and> sleeps t = replicate k backoff
       \<and> discoveries t \<le> Suc k"
proof (induction envs steps c s rule: NewAuthenticator_loop.induct)
  case (1 envs steps c s)
  obtain r c1 s1 where a: "attempt_one (envs steps) c s = (r, c1, s1)"
    by (cases "attempt_one (envs steps) c s") auto
  have tr: "trace s1 = trace s @ (case r of ConstructionFailed err \<Rightarrow> [] | _ \<Rightarrow> [Discover])"
    using attempt_one_trace [of "envs steps" c s] a by simp
  show ?case
  proof (cases r)
    case (ConstructionFailed err)
    then have "trace (snd (snd (NewAuthenticator_loop envs steps c s))) = trace s @ []"
      using a tr by (simp add: loop_construction_failed)
    then show ?thesis
      by (intro exI [of _ 0] exI [of _ "[]"]) (simp add: sleeps_def discoveries_def)
  next
    case (Started a')
    then have "trace (snd (snd (NewAuthenticator_loop envs steps c s))) = trace s @ [Discover]"
      using a tr by (simp add: loop_started)
    then show ?thesis
      by (intro exI [of _ 0] exI [of _ "[Discover]"]) (simp add: sleeps_def discoveries_def)
  next
    case (DiscoveryFailed err)
    show ?thesis
    proof (cases "Suc steps > maxSteps")
      case True
      then have "trace (snd (snd (NewAuthenticator_loop envs steps c s))) = trace s @ [Discover]"
        using a tr DiscoveryFailed by (simp add: loop_last_fail)
      then show ?thesis
        by (intro exI [of _ 0] exI [of _ "[Discover]"]) (simp add: sleeps_def discoveries_def)
    next
      case False
      have eq: "NewAuthenticator_loop envs steps c s
                = NewAuthenticator_loop envs (Suc steps) c1 (time_Sleep backoff s1)"
        using a DiscoveryFailed False by (intro loop_step_fail) simp_all
      from "1.IH" [of r "(c1, s1)" err c1 s1] a DiscoveryFailed False
      obtain k t where k: "k \<le> maxSteps - Suc steps"
        and t: "trace (snd (snd (NewAuthenticator_loop envs (Suc steps) c1 (time_Sleep backoff s1))))
                = trace (time_Sleep backoff s1) @ t"
        and sl: "sleeps t = replicate k backoff"
        and di: "discoveries t \<le> Suc k"
        by auto
      have t': "trace (snd (snd (NewAuthenticator_loop envs steps c s)))
                = trace s @ ([Discover, Sleep backoff] @ t)"
        unfolding eq t using tr DiscoveryFailed by (simp add: time_Sleep_def)
      have "Suc k \<le> maxSteps - steps" using k False by simp
      moreover have "sleeps ([Discover, Sleep backoff] @ t) = replicate (Suc k) backoff"
        using sl by (simp add: sleeps_def)
      moreover have "discoveries ([Discover, Sleep backoff] @ t) \<le> Suc (Suc k)"
        using di by (simp add: discoveries_def)
      ultimately show ?thesis using t' by blast
    qed
  qed
qed

lemma wellKnown_request_example:
  "http_NewRequest ''GET''
     (strings_TrimSuffix ''https://api.example:6443'' ''/''
        @ ''/.well-known/oauth-authorization-server'')
   = Inr (''GET'', wellKnown_example)"
  by code_simp

lemma wellKnown_url_example:
  "strings_TrimSuffix ''https://api.example:6443'' ''/''
     @ ''/.well-known/oauth-authorization-server'' = wellKnown_example"
  by code_simp

lemma referer_example: "url_Parse ''https://console.example''
   = Inr (url_zero\<lparr> Scheme := ''https'', Host := ''console.example'' \<rparr>)"
  by code_simp

lemma attempt_unreachable:
  assumes "c = config_example \<or> c = with_default_CookiePath config_example"
  shows "\<exists>c1 s1. attempt_one env_unreachable c s
                 = (DiscoveryFailed (ErrDo wellKnown_example), c1, s1)"
proof -
  have f: "IssuerCA c = ''/etc/ca.crt''" "K8sCA c = ''/etc/ca.crt''"
    "RefererPath c = ''https://console.example''" "AuthSource c = AuthSourceOpenShift"
    "IssuerURL c = ''https://api.example:6443''"
    using assms by (auto simp: config_example_def with_default_CookiePath_def)
  have rd: "ReadFile env_unreachable ''/etc/ca.crt'' = Some ''PEM-A''"
    "AppendCertsFromPEM env_unreachable ''PEM-A''"
    by (simp_all add: env_unreachable_def env_example_def)
  have ne: "''/etc/ca.crt'' \<noteq> []" by simp
  obtain cl s1 where n1: "newHTTPClient env_unreachable ''/etc/ca.crt'' True s = (Inr cl, s1)"
    using newHTTPClient_succeeds [OF ne rd] by blast
  let ?s1 = "s1\<lparr> trace := trace s1 @ [Discover] \<rparr>"
  obtain k s2 where n2: "newHTTPClient env_unreachable ''/etc/ca.crt'' True ?s1 = (Inr k, s2)"
    using newHTTPClient_succeeds [OF ne rd] by blast
  obtain oc s3 where n3: "newHTTPClient env_unreachable ''/etc/ca.crt'' True s2 = (Inr oc, s3)"
    using newHTTPClient_succeeds [OF ne rd] by blast
  have d: "\<And>x m u. Do env_unreachable x m u = None"
    by (simp add: env_unreachable_def)
  show ?thesis
    using f n1 n2 n3 d wellKnown_request_example wellKnown_url_example referer_example
    by (simp add: attempt_one_def newUnstartedAuthenticator_def authSourceFunc_call_def
          clientFunc_def newOpenShiftAuth_def Let_def)
qed

lemma after_failures_config:
  "fst (after_failures envs k c s) = c
   \<or> fst (after_failures envs k c s) = with_default_CookiePath c"
proof (induction k)
  case 0
  then show ?case by simp
next
  case (Suc k)
  obtain ck sk where af: "after_failures envs k c s = (ck, sk)"
    by (cases "after_failures envs k c s") auto
  obtain r c1 s1 where a: "attempt_one (envs k) ck sk = (r, c1, s1)"
    by (cases "attempt_one (envs k) ck sk") auto
  have "c1 = ck \<or> c1 = with_default_CookiePath ck"
    using attempt_one_config_cases [of "envs k" ck sk] a by simp
  moreover have "ck = c \<or> ck = with_default_CookiePath c"
    using Suc.IH af by simp
  ultimately show ?case using af a by (auto simp: with_default_idem)
qed

lemma loop_all_fail:
  assumes "\<forall>j\<le>maxSteps. \<exists>err. attempt_at envs c s j = DiscoveryFailed err"
  shows "(\<exists>err. attempt_at envs c s maxSteps = DiscoveryFailed err
              \<and> fst (NewAuthenticator envs c s) = Inl err)
         \<and> trace (snd (snd (NewAuthenticator envs c s)))
             = trace s @ concat (replicate maxSteps [Discover, Sleep backoff]) @ [Discover]"
proof -
  obtain ck sk where af: "after_failures envs maxSteps c s = (ck, sk)"
    by (cases "after_failures envs maxSteps c s") auto
  have u: "NewAuthenticator_loop envs 0 c s = NewAuthenticator_loop envs maxSteps ck sk
           \<and> trace sk = trace s @ concat (replicate maxSteps [Discover, Sleep backoff])"
    using loop_unroll [of maxSteps envs c s] assms af by simp
  from assms obtain err where e: "attempt_at envs c s maxSteps = DiscoveryFailed err" by blast
  then obtain c1 s1 where a: "attempt_one (envs maxSteps) ck sk = (DiscoveryFailed err, c1, s1)"
    using af by (cases "attempt_one (envs maxSteps) ck sk") (auto simp: attempt_at_def)
  have r: "NewAuthenticator_loop envs maxSteps ck sk = (Inl err, c1, s1)"
    using a by (intro loop_last_fail) simp_all
  have "trace s1 = trace sk @ [Discover]"
    using attempt_one_trace [of "envs maxSteps" ck sk] a by simp
  then show ?thesis using u r e by (auto simp: NewAuthenticator_def)
qed

lemma loop_first_success:
  assumes "k \<le> maxSteps"
    and "\<forall>j<k. \<exists>err. attempt_at envs c s j = DiscoveryFailed err"
    and "attempt_at envs c s k = Started a"
  shows "fst (NewAuthenticator envs c s) = Inr a
         \<and> trace (snd (snd (NewAuthenticator envs c s)))
             = trace s @ concat (replicate k [Discover, Sleep backoff]) @ [Discover]"
proof -
  obtain ck sk where af: "after_failures envs k c s = (ck, sk)"
    by (cases "after_failures envs k c s") auto
  have u: "NewAuthenticator_loop envs 0 c s = NewAuthenticator_loop envs k ck sk
           \<and> trace sk = trace s @ concat (replicate k [Discover, Sleep backoff])"
    using loop_unroll [of k envs c s] assms(1,2) af by simp
  obtain c1 s1 where a: "attempt_one (envs k) ck sk = (Started a, c1, s1)"
    using af assms(3) by (cases "attempt_one (envs k) ck sk") (auto simp: attempt_at_def)
  have r: "NewAuthenticator_loop envs k ck sk = (Inr a, c1, s1)"
    using a by (rule loop_started)
  have "trace s1 = trace sk @ [Discover]"
    using attempt_one_trace [of "envs k" ck sk] a by simp
  then show ?thesis using u r by (auto simp: NewAuthenticator_def)
qed

lemma discoveries_rounds:
  "discoveries (concat (replicate k [Discover, Sleep b]) @ [Discover]) = Suc k"
  by (induction k) (simp_all add: discoveries_def)

lemma sleeps_rounds:
  "sleeps (concat (replicate k [Discover, Sleep b]) @ [Discover]) = replicate k b"
  by (induction k) (simp_all add: sleeps_def)

lemma unreachable_all_fail:
  "\<forall>j\<le>maxSteps. attempt_at (\<lambda>n. env_unreachable) config_example state_init j
      = DiscoveryFailed (ErrDo wellKnown_example)"
proof (intro allI impI)
  fix j
  let ?af = "after_failures (\<lambda>n. env_unreachable) j config_example state_init"
  have "fst ?af = config_example \<or> fst ?af = with_default_CookiePath config_example"
    by (rule after_failures_config)
  then obtain c1 s1 where "attempt_one env_unreachable (fst ?af) (snd ?af)
                 = (DiscoveryFailed (ErrDo wellKnown_example), c1, s1)"
    using attempt_unreachable by blast
  then show "attempt_at (\<lambda>n. env_unreachable) config_example state_init j
      = DiscoveryFailed (ErrDo wellKnown_example)"
    by (simp add: attempt_at_def case_prod_beta)
qed

section \<open>Properties of \<open>NewAuthenticator\<close>\<close>






text \<open>
  C7, as stated, fails. With the provider unreachable at every attempt,
  \<open>NewAuthenticator\<close> returns the discovery error after 31 discovery attempts, not 30:
  \<open>steps\<close> counts the failures, and the loop gives up when \<open>steps > maxSteps\<close>, after
  30 sleeps of 10 seconds.
\<close>

theorem NewAuthenticator_attempts_counterexample:
  "fst (NewAuthenticator (\<lambda>n. env_unreachable) config_example state_init)
     = Inl (ErrDo wellKnown_example)
   \<and> discoveries (trace (snd (snd (NewAuthenticator (\<lambda>n. env_unreachable) config_example
        state_init)))) = 31
   \<and> sleeps (trace (snd (snd (NewAuthenticator (\<lambda>n. env_unreachable) config_example
        state_init)))) = replicate 30 10"
proof -
  have "\<forall>j\<le>maxSteps. \<exists>err. attempt_at (\<lambda>n. env_unreachable) config_example state_init j
      = DiscoveryFailed err"
    using unreachable_all_fail by blast
  from loop_all_fail [OF this] unreachable_all_fail
  have "fst (NewAuthenticator (\<lambda>n. env_unreachable) config_example state_init)
          = Inl (ErrDo wellKnown_example)"
    and "trace (snd (snd (NewAuthenticator (\<lambda>n. env_unreachable) config_example state_init)))
          = trace state_init @ concat (replicate maxSteps [Discover, Sleep backoff]) @ [Discover]"
    by auto
  then show ?thesis
    by (simp add: discoveries_rounds sleeps_rounds state_init_def maxSteps_def backoff_def)
qed

text \<open>
  C7, amended. \<open>NewAuthenticator\<close> always returns. Whatever the outside world does,
  it sleeps \<open>k\<close> times for some \<open>k\<close> of at most 30, each time for 10 seconds (at most 5
  minutes in all), and runs the discovery at most \<open>k + 1\<close> times (at most 31 attempts).
  When the construction keeps succeeding and every one of the 31 discovery attempts
  fails, it returns the error of the last attempt after exactly 30 sleeps. When the
  attempts before the \<open>k\<close>th fail and the \<open>k\<close>th (\<open>k\<close> from 0 to 30) succeeds, it
  returns the authenticator of that attempt after exactly \<open>k\<close> sleeps: it returns on
  the first attempt that succeeds.
\<close>

theorem NewAuthenticator_retry_bound:
  "backoff = 10 \<and> maxSteps = 30
   \<and> (\<exists>k t. k \<le> maxSteps
         \<and> trace (snd (snd (NewAuthenticator envs c s))) = trace s @ t
         \<and> sleeps t = replicate k backoff
         \<and> discoveries t \<le> Suc k)
   \<and> ((\<forall>j\<le>maxSteps. \<exists>err. attempt_at envs c s j = DiscoveryFailed err) \<longrightarrow>
        (\<exists>err. attempt_at envs c s maxSteps = DiscoveryFailed err
              \<and> fst (NewAuthenticator envs c s) = Inl err)
        \<and> trace (snd (snd (NewAuthenticator envs c s)))
            = trace s @ concat (replicate maxSteps [Discover, Sleep backoff]) @ [Discover])
   \<and> (\<forall>k a. k \<le> maxSteps
          \<and> (\<forall>j<k. \<exists>err. attempt_at envs c s j = DiscoveryFailed err)
          \<and> attempt_at envs c s k = Started a \<longrightarrow>
        fst (NewAuthenticator envs c s) = Inr a
        \<and> trace (snd (snd (NewAuthenticator envs c s)))
            = trace s @ concat (replicate k [Discover, Sleep backoff]) @ [Discover])"
proof -
  have 1: "\<exists>k t. k \<le> maxSteps
         \<and> trace (snd (snd (NewAuthenticator envs c s))) = trace s @ t
         \<and> sleeps t = replicate k backoff
         \<and> discoveries t \<le> Suc k"
    using loop_bound [of 0 envs c s] by (simp add: NewAuthenticator_def)
  have 2: "(\<forall>j\<le>maxSteps. \<exists>err. attempt_at envs c s j = DiscoveryFailed err) \<longrightarrow>
        (\<exists>err. attempt_at envs c s maxSteps = DiscoveryFailed err
              \<and> fst (NewAuthenticator envs c s) = Inl err)
        \<and> trace (snd (snd (NewAuthenticator envs c s)))
            = trace s @ concat (replicate maxSteps [Discover, Sleep backoff]) @ [Discover]"
    using loop_all_fail by blast
  have 3: "\<forall>k a. k \<le> maxSteps
          \<and> (\<forall>j<k. \<exists>err. attempt_at envs c s j = DiscoveryFailed err)
          \<and> attempt_at envs c s k = Started a \<longrightarrow>
        fst (NewAuthenticator envs c s) = Inr a
        \<and> trace (snd (snd (NewAuthenticator envs c s)))
            = trace s @ concat (replicate k [Discover, Sleep backoff]) @ [Discover]"
    using loop_first_success by blast
  show ?thesis using 1 2 3 by (simp add: backoff_def maxSteps_def)
qed

lemma recovering_attempts:
  "attempt_at (\<lambda>n. if n < 2 then env_unreachable else env_example) config_example state_init 0
     = DiscoveryFailed (ErrDo wellKnown_example)
   \<and> attempt_at (\<lambda>n. if n < 2 then env_unreachable else env_example) config_example state_init 1
     = DiscoveryFailed (ErrDo wellKnown_example)
   \<and> attempt_at (\<lambda>n. if n < 2 then env_unreachable else env_example) config_example state_init 2
     = Started authenticator_example"
  by code_simp

theorem NewAuthenticator_retry_bound_witness:
  "attempt_at (\<lambda>n. env_unreachable) config_example state_init 30
     = DiscoveryFailed (ErrDo wellKnown_example)
   \<and> fst (NewAuthenticator (\<lambda>n. env_unreachable) config_example state_init)
     = Inl (ErrDo wellKnown_example)
   \<and> attempt_at (\<lambda>n. if n < 2 then env_unreachable else env_example) config_example state_init 2
     = Started authenticator_example
   \<and> fst (NewAuthenticator (\<lambda>n. if n < 2 then env_unreachable else env_example) config_example
          state_init)
     = Inr authenticator_example
   \<and> trace (snd (snd (NewAuthenticator (\<lambda>n. if n < 2 then env_unreachable else env_example)
          config_example state_init)))
     = [Discover, Sleep 10, Discover, Sleep 10, Discover]"
proof -
  let ?u = "\<lambda>n::nat. env_unreachable"
  let ?r = "\<lambda>n::nat. if n < 2 then env_unreachable else env_example"
  have all: "\<forall>j\<le>maxSteps. \<exists>err. attempt_at ?u config_example state_init j
      = DiscoveryFailed err"
    using unreachable_all_fail by blast
  have last: "attempt_at ?u config_example state_init maxSteps
     = DiscoveryFailed (ErrDo wellKnown_example)"
    using unreachable_all_fail by blast
  have 1: "fst (NewAuthenticator ?u config_example state_init) = Inl (ErrDo wellKnown_example)"
    using NewAuthenticator_retry_bound [of ?u config_example state_init] all last by auto
  have two: "(2::nat) \<le> maxSteps" by (simp add: maxSteps_def)
  have before: "\<forall>j<2. \<exists>err. attempt_at ?r config_example state_init j = DiscoveryFailed err"
    using recovering_attempts by (auto simp: less_Suc_eq numeral_2_eq_2)
  have started: "attempt_at ?r config_example state_init 2 = Started authenticator_example"
    using recovering_attempts by simp
  have 2: "fst (NewAuthenticator ?r config_example state_init) = Inr authenticator_example
        \<and> trace (snd (snd (NewAuthenticator ?r config_example state_init)))
            = trace state_init @ concat (replicate 2 [Discover, Sleep backoff]) @ [Discover]"
    using NewAuthenticator_retry_bound [of ?r config_example state_init] two before started
    by blast
  show ?thesis using last 1 started 2
    by (simp add: maxSteps_def backoff_def state_init_def numeral_2_eq_2)
qed

section \<open>Lemmas on the closure \<open>authFunc\<close>\<close>

lemma newHTTPClient_oauth2:
  "oauth2_configs (snd (newHTTPClient e p b s)) = oauth2_configs s
   \<and> next_oauth2_config (snd (newHTTPClient e p b s)) = next_oauth2_config s"
  by (auto simp: newHTTPClient_def new_client_def Let_def split: option.splits)

lemma clientFunc_oauth2:
  "oauth2_configs (snd (clientFunc e a s)) = oauth2_configs s
   \<and> next_oauth2_config (snd (clientFunc e a s)) = next_oauth2_config s"
  using newHTTPClient_oauth2 [of e "IssuerCA (conf a)" True s]
  by (auto simp: clientFunc_def split: prod.splits sum.splits)

lemma authSourceFunc_call_oauth2:
  "oauth2_configs (snd (authSourceFunc_call e a f s)) = oauth2_configs s
   \<and> next_oauth2_config (snd (authSourceFunc_call e a f s)) = next_oauth2_config s"
proof (cases f)
  case OpenShiftSource
  let ?s = "s\<lparr> trace := trace s @ [Discover] \<rparr>"
  obtain r1 s1 where n: "newHTTPClient e (K8sCA (conf a)) True ?s = (r1, s1)"
    by (cases "newHTTPClient e (K8sCA (conf a)) True ?s") auto
  have t1: "oauth2_configs s1 = oauth2_configs s \<and> next_oauth2_config s1 = next_oauth2_config s"
    using newHTTPClient_oauth2 [of e "K8sCA (conf a)" True ?s] n by simp
  show ?thesis
  proof (cases r1)
    case (Inl err)
    then show ?thesis using n t1 OpenShiftSource by (simp add: authSourceFunc_call_def Let_def)
  next
    case (Inr k)
    obtain cl s2 where c: "clientFunc e a s1 = (cl, s2)" by (cases "clientFunc e a s1") auto
    have t2: "oauth2_configs s2 = oauth2_configs s \<and> next_oauth2_config s2 = next_oauth2_config s"
      using clientFunc_oauth2 [of e a s1] c t1 by simp
    show ?thesis using n Inr c t2 OpenShiftSource
      by (simp add: authSourceFunc_call_def Let_def split: sum.splits prod.splits)
  qed
next
  case (OIDCSource ep src err)
  then show ?thesis by (simp add: authSourceFunc_call_def Let_def split: option.splits)
qed

lemma authFunc_unfold:
  assumes "authSourceFunc_call e a (authSource a) s = (r, s1)"
  shows "authFunc e a s
         = ((next_oauth2_config s,
             (case r of Inl err \<Rightarrow> fallbackLoginMethod a | Inr (ep, lm) \<Rightarrow> lm)),
            s1\<lparr> oauth2_configs := (oauth2_configs s)(next_oauth2_config s \<mapsto>
                   \<lparr> oauth2_ClientID = ClientID (conf a),
                     oauth2_ClientSecret = ClientSecret (conf a),
                     oauth2_RedirectURL = RedirectURL (conf a),
                     oauth2_Scopes = Scope (conf a),
                     oauth2_Endpoint =
                       (case r of Inl err \<Rightarrow> fallbackEndpoint a | Inr (ep, lm) \<Rightarrow> ep) \<rparr>),
                next_oauth2_config := Suc (next_oauth2_config s) \<rparr>)"
proof -
  have o: "oauth2_configs s1 = oauth2_configs s \<and> next_oauth2_config s1 = next_oauth2_config s"
    using authSourceFunc_call_oauth2 [of e a "authSource a" s] assms by simp
  show ?thesis
    using assms o
    by (cases r) (auto simp: authFunc_def new_oauth2_Config_def Let_def)
qed

lemma authFunc_pointer: "fst (fst (authFunc e a s)) = next_oauth2_config s"
  using authFunc_unfold [of e a s "fst (authSourceFunc_call e a (authSource a) s)"
      "snd (authSourceFunc_call e a (authSource a) s)"]
  by simp

lemma authFunc_allocates:
  "authFunc e a s = ((p, lm), s') \<Longrightarrow> \<exists>oc. oauth2_configs s' p = Some oc"
  using authFunc_unfold [of e a s "fst (authSourceFunc_call e a (authSource a) s)"
      "snd (authSourceFunc_call e a (authSource a) s)"]
  by auto

lemma clientFunc_scheme:
  "conf a = conf b \<Longrightarrow> fallbackClient a = fallbackClient b
   \<Longrightarrow> clientFunc e a s = clientFunc e b s"
  by (simp add: clientFunc_def split: prod.splits sum.splits)

lemma authSourceFunc_call_scheme:
  assumes "conf a = conf b" and "fallbackClient a = fallbackClient b"
  shows "authSourceFunc_call e a f s = authSourceFunc_call e b f s"
proof -
  have "\<And>s'. clientFunc e a s' = clientFunc e b s'"
    using assms by (rule clientFunc_scheme)
  then show ?thesis
    using assms(1)
    by (auto simp: authSourceFunc_call_def Let_def
             split: authSourceFunc.splits prod.splits sum.splits option.splits)
qed

lemma attempt_one_started_fallback:
  assumes "attempt_one e c s = (Started a, c1, s3)"
  shows "\<exists>s2. authSourceFunc_call e a (authSource a) s2
              = (Inr (fallbackEndpoint a, fallbackLoginMethod a), s3)"
proof -
  obtain a0 s1 where n: "newUnstartedAuthenticator e c s = (Inr a0, c1, s1)"
    using assms
    by (cases "newUnstartedAuthenticator e c s"; cases "fst (newUnstartedAuthenticator e c s)")
       (auto simp: attempt_one_def Let_def split: prod.splits sum.splits)
  show ?thesis
  proof (cases "AuthSource c1 = AuthSourceOpenShift")
    case True
    from assms n True have
      "authSourceFunc_call e a0 OpenShiftSource s1
         = (Inr (fallbackEndpoint a, fallbackLoginMethod a), s3)
       \<and> authSource a = OpenShiftSource \<and> conf a = conf a0 \<and> fallbackClient a = fallbackClient a0"
      by (auto simp: attempt_one_def Let_def split: prod.splits sum.splits)
    then show ?thesis using authSourceFunc_call_scheme [of a a0 e OpenShiftSource s1] by auto
  next
    case False
    obtain cl s2 where c: "clientFunc e a0 s1 = (cl, s2)" by (cases "clientFunc e a0 s1") auto
    obtain ep src er where o: "newOIDCAuth e
             \<lparr> oidc_client = cl, oidc_issuerURL = IssuerURL c1, oidc_clientID = ClientID c1,
               oidc_cookiePath = CookiePath c1, oidc_secureCookies = SecureCookies c1,
               oidc_cookieDomain = CookieDomain c1 \<rparr> = (ep, src, er)"
      using prod_cases3 by blast
    from assms n False c o have
      "authSourceFunc_call e a0 (OIDCSource ep src er) s2
         = (Inr (fallbackEndpoint a, fallbackLoginMethod a), s3)
       \<and> authSource a = OIDCSource ep src er \<and> conf a = conf a0
       \<and> fallbackClient a = fallbackClient a0"
      by (auto simp: attempt_one_def Let_def split: prod.splits sum.splits)
    then show ?thesis
      using authSourceFunc_call_scheme [of a a0 e "OIDCSource ep src er" s2] by auto
  qed
qed

section \<open>Properties of the closure \<open>authFunc\<close>\<close>

text \<open>
  C9, as stated, fails. The example authenticator is constructed while the OAuth
  server is at \<open>https://oauth.example\<close>. A first call of \<open>authFunc\<close> finds the server
  moved: the re-discovery succeeds and the returned config has the endpoint of
  \<open>https://oauth2.example\<close>. That is now the last successful discovery. A second call
  finds the provider unreachable, and returns the endpoint of \<open>https://oauth.example\<close>:
  the fallback is the endpoint captured at construction, which no later discovery
  replaces.
\<close>

theorem authFunc_fallback_not_last_discovery_counterexample:
  "fst (NewAuthenticator (\<lambda>n. env_example) config_example state_init)
     = Inr authenticator_example
   \<and> fst (authFunc_result env_moved authenticator_example
        (snd (snd (NewAuthenticator (\<lambda>n. env_example) config_example state_init))))
     = Some \<lparr> AuthURL = ''https://oauth2.example/authorize'',
              TokenURL = ''https://oauth2.example/token'' \<rparr>
   \<and> authFunc_result env_unreachable authenticator_example
        (snd (authFunc env_moved authenticator_example
           (snd (snd (NewAuthenticator (\<lambda>n. env_example) config_example state_init)))))
     = (Some \<lparr> AuthURL = ''https://oauth.example/authorize'',
               TokenURL = ''https://oauth.example/token'' \<rparr>,
        fallbackLoginMethod authenticator_example)"
  by code_simp

text \<open>
  C9, amended. Every call of \<open>authFunc\<close> allocates a new \<open>oauth2.Config\<close>: the
  pointer it returns is the allocation counter, which the call increments, so no
  later call returns the same pointer; nothing else in the heap of configs changes.
  The config has the client id, client secret, redirect URL and scopes of the
  \<open>Config\<close>. The call never fails. When the re-discovery (the call of
  \<open>authSourceFunc\<close>) succeeds, the config carries the endpoint it found and the login
  method returned is the one it found; when it fails, the config carries
  \<open>fallbackEndpoint\<close> and the login method is \<open>fallbackLoginMethod\<close>. These two are
  what the discovery returned in the turn of \<open>NewAuthenticator\<close> that completed the
  authenticator: the values captured at construction.
\<close>

theorem authFunc_rediscovers_or_falls_back:
  "\<exists>cfg lm s'.
      authFunc e a s = ((next_oauth2_config s, lm), s')
    \<and> oauth2_configs s' = (oauth2_configs s)(next_oauth2_config s \<mapsto> cfg)
    \<and> next_oauth2_config s' = Suc (next_oauth2_config s)
    \<and> (\<forall>e2 s2. next_oauth2_config s' \<le> next_oauth2_config s2
          \<longrightarrow> fst (fst (authFunc e2 a s2)) \<noteq> next_oauth2_config s)
    \<and> oauth2_ClientID cfg = ClientID (conf a)
    \<and> oauth2_ClientSecret cfg = ClientSecret (conf a)
    \<and> oauth2_RedirectURL cfg = RedirectURL (conf a)
    \<and> oauth2_Scopes cfg = Scope (conf a)
    \<and> (\<forall>ep lm'. fst (authSourceFunc_call e a (authSource a) s) = Inr (ep, lm')
          \<longrightarrow> oauth2_Endpoint cfg = ep \<and> lm = lm')
    \<and> (\<forall>err. fst (authSourceFunc_call e a (authSource a) s) = Inl err
          \<longrightarrow> oauth2_Endpoint cfg = fallbackEndpoint a \<and> lm = fallbackLoginMethod a)
    \<and> (\<forall>e0 c s0 c1 s3. attempt_one e0 c s0 = (Started a, c1, s3)
          \<longrightarrow> (\<exists>s2. authSourceFunc_call e0 a (authSource a) s2
                       = (Inr (fallbackEndpoint a, fallbackLoginMethod a), s3)))"
proof -
  obtain r s1 where d: "authSourceFunc_call e a (authSource a) s = (r, s1)"
    by (cases "authSourceFunc_call e a (authSource a) s") auto
  let ?cfg = "\<lparr> oauth2_ClientID = ClientID (conf a),
                     oauth2_ClientSecret = ClientSecret (conf a),
                     oauth2_RedirectURL = RedirectURL (conf a),
                     oauth2_Scopes = Scope (conf a),
                     oauth2_Endpoint =
                       (case r of Inl err \<Rightarrow> fallbackEndpoint a | Inr (ep, lm) \<Rightarrow> ep) \<rparr>"
  let ?lm = "case r of Inl err \<Rightarrow> fallbackLoginMethod a | Inr (ep, lm) \<Rightarrow> lm"
  let ?s' = "s1\<lparr> oauth2_configs := (oauth2_configs s)(next_oauth2_config s \<mapsto> ?cfg),
                next_oauth2_config := Suc (next_oauth2_config s) \<rparr>"
  have 1: "authFunc e a s = ((next_oauth2_config s, ?lm), ?s')"
    using authFunc_unfold [OF d] .
  have 2: "oauth2_configs ?s' = (oauth2_configs s)(next_oauth2_config s \<mapsto> ?cfg)"
    "next_oauth2_config ?s' = Suc (next_oauth2_config s)"
    by simp_all
  have 3: "\<forall>e2 s2. next_oauth2_config ?s' \<le> next_oauth2_config s2
          \<longrightarrow> fst (fst (authFunc e2 a s2)) \<noteq> next_oauth2_config s"
    by (simp add: authFunc_pointer)
  have 4: "oauth2_ClientID ?cfg = ClientID (conf a)"
    "oauth2_ClientSecret ?cfg = ClientSecret (conf a)"
    "oauth2_RedirectURL ?cfg = RedirectURL (conf a)"
    "oauth2_Scopes ?cfg = Scope (conf a)"
    by simp_all
  have 5: "\<forall>ep lm'. fst (authSourceFunc_call e a (authSource a) s) = Inr (ep, lm')
          \<longrightarrow> oauth2_Endpoint ?cfg = ep \<and> ?lm = lm'"
    using d by simp
  have 6: "\<forall>err. fst (authSourceFunc_call e a (authSource a) s) = Inl err
          \<longrightarrow> oauth2_Endpoint ?cfg = fallbackEndpoint a \<and> ?lm = fallbackLoginMethod a"
    using d by simp
  have 7: "\<forall>e0 c s0 c1 s3. attempt_one e0 c s0 = (Started a, c1, s3)
          \<longrightarrow> (\<exists>s2. authSourceFunc_call e0 a (authSource a) s2
                       = (Inr (fallbackEndpoint a, fallbackLoginMethod a), s3))"
    using attempt_one_started_fallback by blast
  show ?thesis
    using 1 2 3 4 5 6 7 by (intro exI [of _ ?cfg] exI [of _ ?lm] exI [of _ ?s']) blast
qed

lemma unreachable_rediscovery:
  "fst (authSourceFunc_call env_unreachable authenticator_example
          (authSource authenticator_example) state_init) = Inl (ErrDo wellKnown_example)"
  by code_simp

lemma moved_rediscovery:
  "fst (authSourceFunc_call env_moved authenticator_example
          (authSource authenticator_example) state_init)
   = Inr (\<lparr> AuthURL = ''https://oauth2.example/authorize'',
            TokenURL = ''https://oauth2.example/token'' \<rparr>,
          OpenShiftLM
            \<lparr> o_cookiePath = ''/'',
              o_secureCookies = True,
              o_specialURLs = \<lparr> RequestToken = ''https://oauth2.example/token/request'',
                                KubeAdminLogout = ''https://oauth2.example/logout'' \<rparr>,
              o_clusterName = ''local-cluster'',
              o_cookieDomain = [] \<rparr>)"
  by code_simp

theorem authFunc_rediscovers_or_falls_back_witness:
  "fst (authSourceFunc_call env_unreachable authenticator_example
          (authSource authenticator_example) state_init) = Inl (ErrDo wellKnown_example)
   \<and> authFunc_result env_unreachable authenticator_example state_init
       = (Some (fallbackEndpoint authenticator_example),
          fallbackLoginMethod authenticator_example)
   \<and> fst (authFunc_result env_moved authenticator_example state_init)
       = Some \<lparr> AuthURL = ''https://oauth2.example/authorize'',
                TokenURL = ''https://oauth2.example/token'' \<rparr>"
proof -
  from authFunc_rediscovers_or_falls_back [of env_unreachable authenticator_example state_init]
  obtain cfg lm s' where
    a: "authFunc env_unreachable authenticator_example state_init
          = ((next_oauth2_config state_init, lm), s')"
    and h: "oauth2_configs s' = (oauth2_configs state_init)(next_oauth2_config state_init \<mapsto> cfg)"
    and f: "\<forall>err. fst (authSourceFunc_call env_unreachable authenticator_example
                         (authSource authenticator_example) state_init) = Inl err
          \<longrightarrow> oauth2_Endpoint cfg = fallbackEndpoint authenticator_example
              \<and> lm = fallbackLoginMethod authenticator_example"
    by blast
  have 1: "authFunc_result env_unreachable authenticator_example state_init
       = (Some (fallbackEndpoint authenticator_example),
          fallbackLoginMethod authenticator_example)"
    using a h f unreachable_rediscovery by (simp add: authFunc_result_def)
  from authFunc_rediscovers_or_falls_back [of env_moved authenticator_example state_init]
  obtain cfg2 lm2 s2 where
    a2: "authFunc env_moved authenticator_example state_init
          = ((next_oauth2_config state_init, lm2), s2)"
    and h2: "oauth2_configs s2 = (oauth2_configs state_init)(next_oauth2_config state_init \<mapsto> cfg2)"
    and f2: "\<forall>ep lm'. fst (authSourceFunc_call env_moved authenticator_example
                         (authSource authenticator_example) state_init) = Inr (ep, lm')
          \<longrightarrow> oauth2_Endpoint cfg2 = ep \<and> lm2 = lm'"
    by blast
  have 2: "fst (authFunc_result env_moved authenticator_example state_init)
       = Some \<lparr> AuthURL = ''https://oauth2.example/authorize'',
                TokenURL = ''https://oauth2.example/token'' \<rparr>"
    using a2 h2 f2 moved_rediscovery by (simp add: authFunc_result_def)
  show ?thesis using 1 2 unreachable_rediscovery by simp
qed

section \<open>Properties of \<open>CallbackFunc\<close>\<close>

lemma redirectAuthError_shape:
  "redirectAuthError a w authErr
   = w @ [Header_Set ''Location''
            (URL_String
               ((case url_Parse (errorURL a) of
                   Inl err \<Rightarrow> url_zero\<lparr> Path := errorURL a \<rparr>
                 | Inr up \<Rightarrow> up)
                \<lparr> RawQuery := ''error='' @ QueryEscape authErr @ ''&error_type=auth'' \<rparr>)),
          WriteHeader 303]"
proof -
  have "QueryEscape ''error'' = ''error''" "QueryEscape ''error_type'' = ''error_type''"
    "QueryEscape ''auth'' = ''auth''"
    by code_simp+
  then show ?thesis
    by (simp add: redirectAuthError_def Values_Encode_def Let_def StatusSeeOther_def)
qed

lemma categories_unescaped:
  "QueryEscape errorMissingState = ''missing_state''
   \<and> QueryEscape errorMissingCode = ''missing_code''
   \<and> QueryEscape errorInvalidState = ''invalid_state''
   \<and> QueryEscape errorInvalidCode = ''invalid_code''
   \<and> QueryEscape errorInternal = ''internal_error''"
  by code_simp

lemma example_location:
  "redirectAuthError authenticator_example [] errorInvalidState
   = [Header_Set ''Location''
        ''https://console.example/error?error=invalid_state&error_type=auth'',
      WriteHeader 303]"
  by code_simp

lemma Callback_no_cookie:
  "Request_Cookie r stateCookieName = Inl err
   \<Longrightarrow> CallbackFunc e a w r s = (redirectAuthError a w errorMissingState, s)"
  by (simp add: CallbackFunc_def Let_def)

lemma Callback_no_params:
  "Request_Cookie r stateCookieName = Inr ck \<Longrightarrow> Query_Get r ''error'' = []
   \<Longrightarrow> Query_Get r ''code'' = []
   \<Longrightarrow> CallbackFunc e a w r s = (w @ [Redirect (errorURL a) 303], s)"
  by (simp add: CallbackFunc_def Let_def http_Redirect_def StatusSeeOther_def)

lemma Callback_missing_code:
  "Request_Cookie r stateCookieName = Inr ck \<Longrightarrow> Query_Get r ''error'' \<noteq> []
   \<Longrightarrow> Query_Get r ''code'' = []
   \<Longrightarrow> CallbackFunc e a w r s = (redirectAuthError a w errorMissingCode, s)"
  by (simp add: CallbackFunc_def Let_def)

lemma Callback_invalid_state:
  "Request_Cookie r stateCookieName = Inr ck \<Longrightarrow> Query_Get r ''code'' \<noteq> []
   \<Longrightarrow> Query_Get r ''state'' \<noteq> Value ck
   \<Longrightarrow> CallbackFunc e a w r s = (redirectAuthError a w errorInvalidState, s)"
  by (simp add: CallbackFunc_def Let_def)

lemma Callback_exchange:
  assumes "Request_Cookie r stateCookieName = Inr ck" and "Query_Get r ''code'' \<noteq> []"
    and "Query_Get r ''state'' = Value ck"
  shows "\<exists>cl s1 p lm s2 oc.
           clientFunc e a s = (cl, s1) \<and> authFunc e a s1 = ((p, lm), s2)
           \<and> oauth2_configs s2 p = Some oc
           \<and> CallbackFunc e a w r s
             = ((case oauth2_Exchange e oc cl (Query_Get r ''code'') of
                   None \<Rightarrow> redirectAuthError a w errorInvalidCode
                 | Some token \<Rightarrow>
                     (case lm_login e lm w token of
                        (Inl err, w1) \<Rightarrow> redirectAuthError a w1 errorInternal
                      | (Inr ls, w1) \<Rightarrow> w1 @ [Continuation ls (successURL a)])),
                s2\<lparr> trace := trace s2 @ [TokenExchange (Query_Get r ''code'')] \<rparr>)"
proof -
  obtain cl s1 where c: "clientFunc e a s = (cl, s1)" by (cases "clientFunc e a s") auto
  obtain p lm s2 where f: "authFunc e a s1 = ((p, lm), s2)"
    by (cases "authFunc e a s1") auto
  obtain oc where o: "oauth2_configs s2 p = Some oc"
    using authFunc_allocates [OF f] by blast
  have "CallbackFunc e a w r s
             = ((case oauth2_Exchange e oc cl (Query_Get r ''code'') of
                   None \<Rightarrow> redirectAuthError a w errorInvalidCode
                 | Some token \<Rightarrow>
                     (case lm_login e lm w token of
                        (Inl err, w1) \<Rightarrow> redirectAuthError a w1 errorInternal
                      | (Inr ls, w1) \<Rightarrow> w1 @ [Continuation ls (successURL a)])),
                s2\<lparr> trace := trace s2 @ [TokenExchange (Query_Get r ''code'')] \<rparr>)"
    using assms c f o
    by (auto simp: CallbackFunc_def Let_def split: option.splits prod.splits sum.splits)
  then show ?thesis using c f o by blast
qed

lemma openshift_login_after_exchange:
  assumes "oauth2_Exchange e oc cl code = Some token"
  shows "\<exists>ls w1. lm_login e (OpenShiftLM osa) w token = (Inr ls, w1)"
proof -
  have "AccessToken token \<noteq> []"
    using assms by (auto simp: oauth2_Exchange_def split: option.splits if_splits)
  then show ?thesis
    using login_success [of token e osa w] by (simp add: lm_login_def)
qed

text \<open>
  C2. The handler decides in this order. Without a state cookie it answers with
  \<open>redirectAuthError\<close> for \<open>missing_state\<close>. With the cookie: when the query has
  neither \<open>error\<close> nor \<open>code\<close>, it redirects to the error URL as it is, with status
  303; when \<open>code\<close> is empty (and \<open>error\<close> is not), the category is \<open>missing_code\<close>;
  when \<open>code\<close> is there and \<open>state\<close> differs from the cookie's value, it is
  \<open>invalid_state\<close>. So a state that differs from the cookie gives \<open>invalid_state\<close>
  only to a request with a code. In these four cases the state of the process, and
  so its trace, is unchanged: no token exchange is attempted. Otherwise the handler
  exchanges the code, with the client of \<open>clientFunc\<close> and the config of \<open>authFunc\<close>: a
  failed exchange gives \<open>invalid_code\<close>, and a failed \<open>login\<close> after the exchange gives
  \<open>internal_error\<close> (\<open>login\<close> of the OpenShift variant does not fail then, since the
  exchange has returned an access token).
  \<open>redirectAuthError\<close> sets the \<open>Location\<close> header to the error URL (parsed, or
  taken as a path when it does not parse) with the query
  \<open>error=<category>&error_type=auth\<close> and writes the status 303, never a status of
  the 500 class; for the example console and \<open>invalid_state\<close> the location is
  \<open>https://console.example/error?error=invalid_state&error_type=auth\<close>.
\<close>

theorem CallbackFunc_failures_redirect:
  "(\<forall>err. Request_Cookie r stateCookieName = Inl err
       \<longrightarrow> CallbackFunc e a w r s = (redirectAuthError a w errorMissingState, s))
   \<and> (\<forall>ck. Request_Cookie r stateCookieName = Inr ck \<longrightarrow>
        (Query_Get r ''error'' = [] \<and> Query_Get r ''code'' = []
           \<longrightarrow> CallbackFunc e a w r s = (w @ [Redirect (errorURL a) 303], s))
        \<and> (Query_Get r ''error'' \<noteq> [] \<and> Query_Get r ''code'' = []
           \<longrightarrow> CallbackFunc e a w r s = (redirectAuthError a w errorMissingCode, s))
        \<and> (Query_Get r ''code'' \<noteq> [] \<and> Query_Get r ''state'' \<noteq> Value ck
           \<longrightarrow> CallbackFunc e a w r s = (redirectAuthError a w errorInvalidState, s))
        \<and> (Query_Get r ''code'' \<noteq> [] \<and> Query_Get r ''state'' = Value ck
           \<longrightarrow> (\<exists>cl s1 p lm s2 oc.
                  clientFunc e a s = (cl, s1) \<and> authFunc e a s1 = ((p, lm), s2)
                  \<and> oauth2_configs s2 p = Some oc
                  \<and> snd (CallbackFunc e a w r s)
                      = s2\<lparr> trace := trace s2 @ [TokenExchange (Query_Get r ''code'')] \<rparr>
                  \<and> (oauth2_Exchange e oc cl (Query_Get r ''code'') = None
                       \<longrightarrow> fst (CallbackFunc e a w r s) = redirectAuthError a w errorInvalidCode)
                  \<and> (\<forall>token err w1.
                        oauth2_Exchange e oc cl (Query_Get r ''code'') = Some token
                        \<and> lm_login e lm w token = (Inl err, w1)
                       \<longrightarrow> fst (CallbackFunc e a w r s) = redirectAuthError a w1 errorInternal)
                  \<and> (\<forall>token osa.
                        lm = OpenShiftLM osa
                        \<and> oauth2_Exchange e oc cl (Query_Get r ''code'') = Some token
                       \<longrightarrow> (\<exists>ls w1. lm_login e lm w token = (Inr ls, w1))))))
   \<and> (\<forall>cat. redirectAuthError a w cat
         = w @ [Header_Set ''Location''
                  (URL_String
                     ((case url_Parse (errorURL a) of
                         Inl err \<Rightarrow> url_zero\<lparr> Path := errorURL a \<rparr>
                       | Inr up \<Rightarrow> up)
                      \<lparr> RawQuery := ''error='' @ QueryEscape cat @ ''&error_type=auth'' \<rparr>)),
                WriteHeader 303])
   \<and> QueryEscape errorMissingState = ''missing_state''
   \<and> QueryEscape errorMissingCode = ''missing_code''
   \<and> QueryEscape errorInvalidState = ''invalid_state''
   \<and> QueryEscape errorInvalidCode = ''invalid_code''
   \<and> QueryEscape errorInternal = ''internal_error''
   \<and> redirectAuthError authenticator_example [] errorInvalidState
       = [Header_Set ''Location''
            ''https://console.example/error?error=invalid_state&error_type=auth'',
          WriteHeader 303]"
proof -
  have 1: "\<forall>err. Request_Cookie r stateCookieName = Inl err
       \<longrightarrow> CallbackFunc e a w r s = (redirectAuthError a w errorMissingState, s)"
    using Callback_no_cookie by blast
  have 2: "\<forall>ck. Request_Cookie r stateCookieName = Inr ck \<longrightarrow>
        (Query_Get r ''error'' = [] \<and> Query_Get r ''code'' = []
           \<longrightarrow> CallbackFunc e a w r s = (w @ [Redirect (errorURL a) 303], s))
        \<and> (Query_Get r ''error'' \<noteq> [] \<and> Query_Get r ''code'' = []
           \<longrightarrow> CallbackFunc e a w r s = (redirectAuthError a w errorMissingCode, s))
        \<and> (Query_Get r ''code'' \<noteq> [] \<and> Query_Get r ''state'' \<noteq> Value ck
           \<longrightarrow> CallbackFunc e a w r s = (redirectAuthError a w errorInvalidState, s))
        \<and> (Query_Get r ''code'' \<noteq> [] \<and> Query_Get r ''state'' = Value ck
           \<longrightarrow> (\<exists>cl s1 p lm s2 oc.
                  clientFunc e a s = (cl, s1) \<and> authFunc e a s1 = ((p, lm), s2)
                  \<and> oauth2_configs s2 p = Some oc
                  \<and> snd (CallbackFunc e a w r s)
                      = s2\<lparr> trace := trace s2 @ [TokenExchange (Query_Get r ''code'')] \<rparr>
                  \<and> (oauth2_Exchange e oc cl (Query_Get r ''code'') = None
                       \<longrightarrow> fst (CallbackFunc e a w r s) = redirectAuthError a w errorInvalidCode)
                  \<and> (\<forall>token err w1.
                        oauth2_Exchange e oc cl (Query_Get r ''code'') = Some token
                        \<and> lm_login e lm w token = (Inl err, w1)
                       \<longrightarrow> fst (CallbackFunc e a w r s) = redirectAuthError a w1 errorInternal)
                  \<and> (\<forall>token osa.
                        lm = OpenShiftLM osa
                        \<and> oauth2_Exchange e oc cl (Query_Get r ''code'') = Some token
                       \<longrightarrow> (\<exists>ls w1. lm_login e lm w token = (Inr ls, w1)))))"
  proof (intro allI impI conjI)
    fix ck assume ck: "Request_Cookie r stateCookieName = Inr ck"
    {
      assume "Query_Get r ''error'' = [] \<and> Query_Get r ''code'' = []"
      then show "CallbackFunc e a w r s = (w @ [Redirect (errorURL a) 303], s)"
        using ck Callback_no_params by blast
    }
    {
      assume "Query_Get r ''error'' \<noteq> [] \<and> Query_Get r ''code'' = []"
      then show "CallbackFunc e a w r s = (redirectAuthError a w errorMissingCode, s)"
        using ck Callback_missing_code by blast
    }
    {
      assume "Query_Get r ''code'' \<noteq> [] \<and> Query_Get r ''state'' \<noteq> Value ck"
      then show "CallbackFunc e a w r s = (redirectAuthError a w errorInvalidState, s)"
        using ck Callback_invalid_state by blast
    }
    {
      assume h: "Query_Get r ''code'' \<noteq> [] \<and> Query_Get r ''state'' = Value ck"
      from Callback_exchange [of r ck e a s w] ck h
      obtain cl s1 p lm s2 oc where
        c: "clientFunc e a s = (cl, s1)" and f: "authFunc e a s1 = ((p, lm), s2)"
        and o: "oauth2_configs s2 p = Some oc"
        and cb: "CallbackFunc e a w r s
             = ((case oauth2_Exchange e oc cl (Query_Get r ''code'') of
                   None \<Rightarrow> redirectAuthError a w errorInvalidCode
                 | Some token \<Rightarrow>
                     (case lm_login e lm w token of
                        (Inl err, w1) \<Rightarrow> redirectAuthError a w1 errorInternal
                      | (Inr ls, w1) \<Rightarrow> w1 @ [Continuation ls (successURL a)])),
                s2\<lparr> trace := trace s2 @ [TokenExchange (Query_Get r ''code'')] \<rparr>)"
        by blast
      have a1: "snd (CallbackFunc e a w r s)
                  = s2\<lparr> trace := trace s2 @ [TokenExchange (Query_Get r ''code'')] \<rparr>"
        using cb by simp
      have a2: "oauth2_Exchange e oc cl (Query_Get r ''code'') = None
                \<longrightarrow> fst (CallbackFunc e a w r s) = redirectAuthError a w errorInvalidCode"
        using cb by simp
      have a3: "\<forall>token err w1.
                        oauth2_Exchange e oc cl (Query_Get r ''code'') = Some token
                        \<and> lm_login e lm w token = (Inl err, w1)
                       \<longrightarrow> fst (CallbackFunc e a w r s) = redirectAuthError a w1 errorInternal"
        using cb by simp
      have a4: "\<forall>token osa.
                        lm = OpenShiftLM osa
                        \<and> oauth2_Exchange e oc cl (Query_Get r ''code'') = Some token
                       \<longrightarrow> (\<exists>ls w1. lm_login e lm w token = (Inr ls, w1))"
        using openshift_login_after_exchange by blast
      show "\<exists>cl s1 p lm s2 oc.
                  clientFunc e a s = (cl, s1) \<and> authFunc e a s1 = ((p, lm), s2)
                  \<and> oauth2_configs s2 p = Some oc
                  \<and> snd (CallbackFunc e a w r s)
                      = s2\<lparr> trace := trace s2 @ [TokenExchange (Query_Get r ''code'')] \<rparr>
                  \<and> (oauth2_Exchange e oc cl (Query_Get r ''code'') = None
                       \<longrightarrow> fst (CallbackFunc e a w r s) = redirectAuthError a w errorInvalidCode)
                  \<and> (\<forall>token err w1.
                        oauth2_Exchange e oc cl (Query_Get r ''code'') = Some token
                        \<and> lm_login e lm w token = (Inl err, w1)
                       \<longrightarrow> fst (CallbackFunc e a w r s) = redirectAuthError a w1 errorInternal)
                  \<and> (\<forall>token osa.
                        lm = OpenShiftLM osa
                        \<and> oauth2_Exchange e oc cl (Query_Get r ''code'') = Some token
                       \<longrightarrow> (\<exists>ls w1. lm_login e lm w token = (Inr ls, w1)))"
        by (rule exI [of _ cl], rule exI [of _ s1], rule exI [of _ p], rule exI [of _ lm],
            rule exI [of _ s2], rule exI [of _ oc])
           (intro conjI c f o a1 a2 a3 a4)
    }
  qed
  have 3: "\<forall>cat. redirectAuthError a w cat
         = w @ [Header_Set ''Location''
                  (URL_String
                     ((case url_Parse (errorURL a) of
                         Inl err \<Rightarrow> url_zero\<lparr> Path := errorURL a \<rparr>
                       | Inr up \<Rightarrow> up)
                      \<lparr> RawQuery := ''error='' @ QueryEscape cat @ ''&error_type=auth'' \<rparr>)),
                WriteHeader 303]"
    using redirectAuthError_shape by blast
  show ?thesis
    by (intro conjI 1 2 3 example_location) (simp_all add: categories_unescaped)
qed

lemma callback_examples:
  "(case CallbackFunc env_example authenticator_example []
           (callback_request ''bad-code'' ''abc123'') state_init of
      (w, s) \<Rightarrow> (w, trace s))
     = ([Header_Set ''Location''
           ''https://console.example/error?error=invalid_code&error_type=auth'',
         WriteHeader 303],
        [Discover, TokenExchange ''bad-code''])
   \<and> fst (CallbackFunc env_example authenticator_example []
           (callback_request ''empty-token'' ''abc123'') state_init)
     = [Header_Set ''Location''
          ''https://console.example/error?error=invalid_code&error_type=auth'',
        WriteHeader 303]
   \<and> fst (CallbackFunc env_oidc authenticator_oidc_example []
           (callback_request ''good-code'' ''abc123'') state_init)
     = [Header_Set ''Location''
          ''https://console.example/error?error=internal_error&error_type=auth'',
        WriteHeader 303]"
  by code_simp

lemma oidc_example_constructed:
  "fst (NewAuthenticator (\<lambda>n. env_oidc) config_oidc state_init)
   = Inr authenticator_oidc_example"
  by code_simp

lemma missing_code_location:
  "redirectAuthError authenticator_example [] errorMissingCode
   = [Header_Set ''Location''
        ''https://console.example/error?error=missing_code&error_type=auth'',
      WriteHeader 303]"
  by code_simp

text \<open>
  The witness: a request without state cookie; a request with a code and a state that
  differs from the cookie; a code the provider refuses; and, for the authenticator
  of the console in OIDC mode, a token that \<open>login\<close> refuses.
\<close>

theorem CallbackFunc_failures_redirect_witness:
  "Request_Cookie request_zero stateCookieName = Inl ErrNoCookie
   \<and> CallbackFunc env_example authenticator_example [] request_zero state_init
     = (redirectAuthError authenticator_example [] errorMissingState, state_init)
   \<and> Request_Cookie (callback_request ''good-code'' ''wrong'') stateCookieName
     = Inr (Cookie_zero\<lparr> Name := ''login-state'', Value := ''abc123'' \<rparr>)
   \<and> CallbackFunc env_example authenticator_example []
        (callback_request ''good-code'' ''wrong'') state_init
     = ([Header_Set ''Location''
           ''https://console.example/error?error=invalid_state&error_type=auth'',
         WriteHeader 303],
        state_init)
   \<and> fst (CallbackFunc env_example authenticator_example []
           (callback_request ''bad-code'' ''abc123'') state_init)
     = [Header_Set ''Location''
          ''https://console.example/error?error=invalid_code&error_type=auth'',
        WriteHeader 303]
   \<and> fst (CallbackFunc env_oidc authenticator_oidc_example []
           (callback_request ''good-code'' ''abc123'') state_init)
     = [Header_Set ''Location''
          ''https://console.example/error?error=internal_error&error_type=auth'',
        WriteHeader 303]"
proof -
  let ?r = "callback_request ''good-code'' ''wrong''"
  have c0: "Request_Cookie request_zero stateCookieName = Inl ErrNoCookie"
    by (simp add: Request_Cookie_def request_zero_def)
  have c1: "Request_Cookie ?r stateCookieName
     = Inr (Cookie_zero\<lparr> Name := ''login-state'', Value := ''abc123'' \<rparr>)"
    by (simp add: Request_Cookie_def callback_request_def stateCookieName_def)
  have q: "Query_Get ?r ''code'' \<noteq> []
           \<and> Query_Get ?r ''state'' \<noteq> Value (Cookie_zero\<lparr> Name := ''login-state'',
                                                              Value := ''abc123'' \<rparr>)"
    by (simp add: Query_Get_def callback_request_def)
  have 1: "CallbackFunc env_example authenticator_example [] request_zero state_init
     = (redirectAuthError authenticator_example [] errorMissingState, state_init)"
    using CallbackFunc_failures_redirect [of request_zero env_example authenticator_example
        "[]" state_init] c0 by blast
  have 2: "CallbackFunc env_example authenticator_example [] ?r state_init
     = (redirectAuthError authenticator_example [] errorInvalidState, state_init)"
    using CallbackFunc_failures_redirect [of ?r env_example authenticator_example
        "[]" state_init] c1 q by blast
  have 3: "redirectAuthError authenticator_example [] errorInvalidState
       = [Header_Set ''Location''
            ''https://console.example/error?error=invalid_state&error_type=auth'',
          WriteHeader 303]"
    by (rule example_location)
  have 4: "fst (CallbackFunc env_example authenticator_example []
           (callback_request ''bad-code'' ''abc123'') state_init)
     = [Header_Set ''Location''
          ''https://console.example/error?error=invalid_code&error_type=auth'',
        WriteHeader 303]"
    using callback_examples by (auto split: prod.splits)
  have 5: "fst (CallbackFunc env_oidc authenticator_oidc_example []
           (callback_request ''good-code'' ''abc123'') state_init)
     = [Header_Set ''Location''
          ''https://console.example/error?error=internal_error&error_type=auth'',
        WriteHeader 303]"
    using callback_examples by simp
  show ?thesis using c0 c1 1 2 3 4 5 by simp
qed

text \<open>
  The counterexample: two requests whose state differs from the state cookie and
  that do not get \<open>invalid_state\<close>. The one with the error of the provider and no
  code gets \<open>missing_code\<close>; the one with no other parameter is redirected to the
  error URL with no error annotation.
\<close>

theorem CallbackFunc_state_mismatch_counterexample:
  "Request_Cookie request_error_state stateCookieName
     = Inr (Cookie_zero\<lparr> Name := ''login-state'', Value := ''abc123'' \<rparr>)
   \<and> Query_Get request_error_state ''state'' = ''wrong''
   \<and> CallbackFunc env_example authenticator_example [] request_error_state state_init
     = ([Header_Set ''Location''
           ''https://console.example/error?error=missing_code&error_type=auth'',
         WriteHeader 303],
        state_init)
   \<and> Request_Cookie request_state_only stateCookieName
     = Inr (Cookie_zero\<lparr> Name := ''login-state'', Value := ''abc123'' \<rparr>)
   \<and> Query_Get request_state_only ''state'' = ''wrong''
   \<and> CallbackFunc env_example authenticator_example [] request_state_only state_init
     = ([Redirect ''https://console.example/error'' 303], state_init)"
proof -
  have c1: "Request_Cookie request_error_state stateCookieName
     = Inr (Cookie_zero\<lparr> Name := ''login-state'', Value := ''abc123'' \<rparr>)"
    and c2: "Request_Cookie request_state_only stateCookieName
     = Inr (Cookie_zero\<lparr> Name := ''login-state'', Value := ''abc123'' \<rparr>)"
    by (simp_all add: Request_Cookie_def request_error_state_def request_state_only_def
          stateCookieName_def)
  have q1: "Query_Get request_error_state ''state'' = ''wrong''"
    "Query_Get request_error_state ''error'' \<noteq> []"
    "Query_Get request_error_state ''code'' = []"
    by (simp_all add: Query_Get_def request_error_state_def)
  have q2: "Query_Get request_state_only ''state'' = ''wrong''"
    "Query_Get request_state_only ''error'' = []"
    "Query_Get request_state_only ''code'' = []"
    by (simp_all add: Query_Get_def request_state_only_def)
  have 1: "CallbackFunc env_example authenticator_example [] request_error_state state_init
     = (redirectAuthError authenticator_example [] errorMissingCode, state_init)"
    using c1 q1(2,3) by (rule Callback_missing_code)
  have 2: "CallbackFunc env_example authenticator_example [] request_state_only state_init
     = ([] @ [Redirect (errorURL authenticator_example) 303], state_init)"
    using c2 q2(2,3) by (rule Callback_no_params)
  have u: "errorURL authenticator_example = ''https://console.example/error''"
    by (simp add: authenticator_example_def)
  show ?thesis using c1 c2 q1(1) q2(1) 1 2 u missing_code_location by simp
qed
end
